(* ===== verification/Prelude.thy ===== *)
theory Prelude
  imports Main "HOL-Library.Word"
begin

text \<open>
  Vocabulary shared by the kernel-side and the userspace-side models: the machine
  integers of the Rust sources, their saturating and byte-order operations, the
  \<^verbatim>\<open>Result\<close> type of the handlers, and the generic facts about words and byte
  lists that the component proofs use. The eBPF target is \<^verbatim>\<open>bpfel-unknown-none\<close>
  and the userspace hosts are little-endian, so native byte order is little-endian.
\<close>

unbundle bit_operations_syntax

type_synonym u8 = "8 word"
type_synonym u16 = "16 word"
type_synonym u32 = "32 word"
type_synonym u64 = "64 word"
type_synonym bytes = "8 word list"

text \<open>Rust's \<^verbatim>\<open>Result<T, i64>\<close>: \<open>Inl\<close> carries the error code, \<open>Inr\<close> the value.\<close>

type_synonym 'a result = "64 word + 'a"

named_theorems row_updates \<open>unfolding rules for the in-place row updates\<close>
named_theorems hook_defs \<open>definitions of the probe handlers\<close>

subsection \<open>Saturating arithmetic\<close>

definition saturating_add :: "'a::len word \<Rightarrow> 'a word \<Rightarrow> 'a word" where
  "saturating_add a b = (if unat a + unat b < 2 ^ LENGTH('a) then a + b else - 1)"

definition saturating_sub :: "'a::len word \<Rightarrow> 'a word \<Rightarrow> 'a word" where
  "saturating_sub a b = (if b \<le> a then a - b else 0)"

lemma unat_saturating_add:
  fixes a b :: "'a::len word"
  shows "unat (saturating_add a b) = min (unat a + unat b) (2 ^ LENGTH('a) - 1)"
proof (cases "unat a + unat b < 2 ^ LENGTH('a)")
  case True
  then show ?thesis
    by (simp add: saturating_add_def unat_word_ariths)
next
  case False
  have "unat (- 1 :: 'a word) = 2 ^ LENGTH('a) - 1"
    by (simp add: unsigned_minus_1_eq_mask mask_eq_exp_minus_1)
  with False show ?thesis
    by (simp add: saturating_add_def)
qed

lemma unat_saturating_sub: "unat (saturating_sub a b) = unat a - unat b"
  by (simp add: saturating_sub_def unat_sub word_le_nat_alt)

lemma saturating_add_mono: "a \<le> saturating_add a b"
proof -
  have "unat a < 2 ^ LENGTH('a)" by simp
  then have "unat a \<le> 2 ^ LENGTH('a) - 1" by linarith
  then show ?thesis
    by (simp add: word_le_nat_alt unat_saturating_add)
qed

lemma saturating_sub_exact:
  assumes "b \<le> a"
  shows "b + saturating_sub a b = a"
  using assms by (simp add: saturating_sub_def)

lemma saturating_sub_zero [simp]: "saturating_sub 0 b = 0"
  by (simp add: saturating_sub_def)

subsection \<open>Writing a prefix of a buffer\<close>

text \<open>\<open>overwrite xs out\<close>: the first \<open>length xs\<close> bytes of \<open>out\<close> replaced by \<open>xs\<close>, the rest kept.\<close>

definition overwrite :: "'a list \<Rightarrow> 'a list \<Rightarrow> 'a list" where
  "overwrite xs out = xs @ drop (length xs) out"

lemma length_overwrite [simp]: "length xs \<le> length out \<Longrightarrow> length (overwrite xs out) = length out"
  by (simp add: overwrite_def)

lemma overwrite_nth:
  "i < length out \<Longrightarrow> length xs \<le> length out \<Longrightarrow>
   overwrite xs out ! i = (if i < length xs then xs ! i else out ! i)"
  by (simp add: overwrite_def nth_append)

lemma overwrite_Nil [simp]: "overwrite [] out = out"
  by (simp add: overwrite_def)

subsection \<open>Byte order\<close>

text \<open>\<^verbatim>\<open>uN::from_ne_bytes\<close> on a little-endian machine.\<close>

definition u16_from_ne_bytes :: "bytes \<Rightarrow> u16" where
  "u16_from_ne_bytes bs = ucast (bs ! 0) OR push_bit 8 (ucast (bs ! 1))"

definition u32_from_ne_bytes :: "bytes \<Rightarrow> u32" where
  "u32_from_ne_bytes bs =
     ucast (bs ! 0) OR push_bit 8 (ucast (bs ! 1)) OR
     push_bit 16 (ucast (bs ! 2)) OR push_bit 24 (ucast (bs ! 3))"

text \<open>\<^verbatim>\<open>u16::from_be\<close> and \<^verbatim>\<open>u32::to_be\<close> swap the bytes on such a machine.\<close>

definition u16_from_be :: "u16 \<Rightarrow> u16" where
  "u16_from_be x = push_bit 8 x OR drop_bit 8 x"

definition byte_of :: "nat \<Rightarrow> u32 \<Rightarrow> u8" where
  "byte_of i x = ucast (drop_bit (8 * i) x)"

definition u32_to_be :: "u32 \<Rightarrow> u32" where
  "u32_to_be x = u32_from_ne_bytes [byte_of 3 x, byte_of 2 x, byte_of 1 x, byte_of 0 x]"

lemma not_bit_u8 [simp]: "8 \<le> n \<Longrightarrow> \<not> bit (x :: u8) n"
  using bit_imp_le_length [of x n] by auto

lemma u16_from_be_involution: "u16_from_be (u16_from_be x) = x"
  by (rule bit_word_eqI) (auto simp: u16_from_be_def bit_simps)

lemma byte_of_from_ne_bytes:
  "byte_of 0 (u32_from_ne_bytes [a, b, c, d]) = a"
  "byte_of 1 (u32_from_ne_bytes [a, b, c, d]) = b"
  "byte_of 2 (u32_from_ne_bytes [a, b, c, d]) = c"
  "byte_of 3 (u32_from_ne_bytes [a, b, c, d]) = d"
  by (auto intro!: bit_word_eqI simp: byte_of_def u32_from_ne_bytes_def bit_simps)

lemma from_ne_bytes_byte_of:
  "u32_from_ne_bytes [byte_of 0 x, byte_of 1 x, byte_of 2 x, byte_of 3 x] = x"
proof (rule bit_word_eqI)
  fix n assume "n < LENGTH(32)"
  then have "n < 8 \<or> (8 \<le> n \<and> n < 16) \<or> (16 \<le> n \<and> n < 24) \<or> (24 \<le> n \<and> n < 32)" by auto
  then show "bit (u32_from_ne_bytes [byte_of 0 x, byte_of 1 x, byte_of 2 x, byte_of 3 x]) n = bit x n"
    by (auto simp: byte_of_def u32_from_ne_bytes_def bit_simps)
qed

lemma byte_of_u32_to_be:
  "byte_of 0 (u32_to_be x) = byte_of 3 x"
  "byte_of 1 (u32_to_be x) = byte_of 2 x"
  "byte_of 2 (u32_to_be x) = byte_of 1 x"
  "byte_of 3 (u32_to_be x) = byte_of 0 x"
  unfolding u32_to_be_def by (rule byte_of_from_ne_bytes)+

end
