(* ===== verification/Types.thy ===== *)
theory Types
  imports Prelude
begin

text \<open>
  The data shared by all programs of the sensor: the enums, constants and the wire record
  \<^verbatim>\<open>FlowEvent\<close> of \<^verbatim>\<open>flow-sensor-common/src/lib.rs\<close>, and the map keys and values
  of \<^verbatim>\<open>flow-sensor-ebpf/src/maps.rs\<close>. A fixed-size byte array \<^verbatim>\<open>[u8; N]\<close> is a byte list;
  \<open>wf_state\<close> says that every array of a row has its declared length.
\<close>

subsection \<open>Constants\<close>

definition COMM_LEN :: nat where "COMM_LEN = 16"
definition HOST_LEN :: nat where "HOST_LEN = 256"
definition PATH_LEN :: nat where "PATH_LEN = 256"
definition CGROUP_LEN :: nat where "CGROUP_LEN = 128"
definition TLS_SCRATCH_LEN :: nat where "TLS_SCRATCH_LEN = 256"

definition U32_MAX :: u32 where "U32_MAX = - 1"

lemmas len_defs = COMM_LEN_def HOST_LEN_def PATH_LEN_def CGROUP_LEN_def TLS_SCRATCH_LEN_def

subsection \<open>Enums with their \<^verbatim>\<open>repr(u8)\<close> discriminants\<close>

datatype RetransmitReason = RrUnknown | Rto | FastRetransmit | Sack | Tlp
datatype CloseReason = CrUnknown | Clean | Reset | Timeout | LocalClose
datatype CongestionState = CsOpen | Disorder | Cwr | Recovery | Loss
datatype FlowDirection = FdUnknown | Outbound | Inbound

fun RetransmitReason_u8 :: "RetransmitReason \<Rightarrow> u8" where
  "RetransmitReason_u8 RrUnknown = 0"
| "RetransmitReason_u8 Rto = 1"
| "RetransmitReason_u8 FastRetransmit = 2"
| "RetransmitReason_u8 Sack = 3"
| "RetransmitReason_u8 Tlp = 4"

fun CloseReason_u8 :: "CloseReason \<Rightarrow> u8" where
  "CloseReason_u8 CrUnknown = 0"
| "CloseReason_u8 Clean = 1"
| "CloseReason_u8 Reset = 2"
| "CloseReason_u8 Timeout = 3"
| "CloseReason_u8 LocalClose = 4"

fun CongestionState_u8 :: "CongestionState \<Rightarrow> u8" where
  "CongestionState_u8 CsOpen = 0"
| "CongestionState_u8 Disorder = 1"
| "CongestionState_u8 Cwr = 2"
| "CongestionState_u8 Recovery = 3"
| "CongestionState_u8 Loss = 4"

fun FlowDirection_u8 :: "FlowDirection \<Rightarrow> u8" where
  "FlowDirection_u8 FdUnknown = 0"
| "FlowDirection_u8 Outbound = 1"
| "FlowDirection_u8 Inbound = 2"

subsection \<open>Map keys and values\<close>

record FlowKey =
  key_src_ip :: u32
  key_dst_ip :: u32
  key_src_port :: u16
  key_dst_port :: u16
  key_protocol :: u8
  key_pad :: bytes

record FlowState =
  st_pid :: u32
  st_ppid :: u32
  st_uid :: u32
  st_gid :: u32
  st_comm :: bytes
  st_cgroup :: bytes
  st_direction :: u8
  st_bytes_sent :: u64
  st_bytes_recv :: u64
  st_pkts_sent :: u64
  st_pkts_recv :: u64
  st_srtt_us_min :: u32
  st_srtt_us_max :: u32
  st_srtt_us_last :: u32
  st_rttvar_us_max :: u32
  st_cwnd_min :: u32
  st_cwnd_max :: u32
  st_ecn_signals :: u32
  st_retransmit_count :: u32
  st_retransmit_bytes :: u64
  st_retransmit_rto_count :: u32
  st_retransmit_fast_count :: u32
  st_retransmit_tlp_count :: u32
  st_sack_blocks_received :: u32
  st_tls_sni :: bytes
  st_http_host :: bytes
  st_http_method :: bytes
  st_http_path :: bytes
  st_http_status :: u16
  st_has_tls :: u8
  st_has_http :: u8
  st_ssl_write_ts_ns :: u64
  st_connect_ts_ns :: u64
  st_first_byte_ts_ns :: u64
  st_first_recv_ts_ns :: u64
  st_tls_ready_ts_ns :: u64
  st_chain_id :: u64
  st_parent_chain_id :: u64
  st_chain_depth :: u32
  st_congestion_state_final :: u8

definition EMPTY_FLOW_STATE :: FlowState where
  "EMPTY_FLOW_STATE = \<lparr>
   st_pid = 0,
   st_ppid = 0,
   st_uid = 0,
   st_gid = 0,
   st_comm = replicate COMM_LEN 0,
   st_cgroup = replicate CGROUP_LEN 0,
   st_direction = 0,
   st_bytes_sent = 0,
   st_bytes_recv = 0,
   st_pkts_sent = 0,
   st_pkts_recv = 0,
   st_srtt_us_min = U32_MAX,
   st_srtt_us_max = 0,
   st_srtt_us_last = 0,
   st_rttvar_us_max = 0,
   st_cwnd_min = U32_MAX,
   st_cwnd_max = 0,
   st_ecn_signals = 0,
   st_retransmit_count = 0,
   st_retransmit_bytes = 0,
   st_retransmit_rto_count = 0,
   st_retransmit_fast_count = 0,
   st_retransmit_tlp_count = 0,
   st_sack_blocks_received = 0,
   st_tls_sni = replicate HOST_LEN 0,
   st_http_host = replicate HOST_LEN 0,
   st_http_method = replicate 8 0,
   st_http_path = replicate PATH_LEN 0,
   st_http_status = 0,
   st_has_tls = 0,
   st_has_http = 0,
   st_ssl_write_ts_ns = 0,
   st_connect_ts_ns = 0,
   st_first_byte_ts_ns = 0,
   st_first_recv_ts_ns = 0,
   st_tls_ready_ts_ns = 0,
   st_chain_id = 0,
   st_parent_chain_id = 0,
   st_chain_depth = 0,
   st_congestion_state_final = 0\<rparr>"

record CausalCtx =
  cc_chain_id :: u64
  cc_parent_chain_id :: u64
  cc_depth :: u32
  cc_origin_pid :: u32
  cc_origin_ts_ns :: u64

record SslArgs =
  sa_buf_ptr :: u64
  sa_len :: u32
  sa_pad :: u32
  sa_ts_ns :: u64

subsection \<open>The event record emitted when a connection closes\<close>

record FlowEvent =
  ev_pid :: u32
  ev_ppid :: u32
  ev_uid :: u32
  ev_gid :: u32
  ev_comm :: bytes
  ev_cgroup :: bytes
  ev_src_ip :: u32
  ev_dst_ip :: u32
  ev_src_port :: u16
  ev_dst_port :: u16
  ev_protocol :: u8
  ev_direction :: u8
  ev_bytes_sent :: u64
  ev_bytes_recv :: u64
  ev_pkts_sent :: u64
  ev_pkts_recv :: u64
  ev_srtt_us_min :: u32
  ev_srtt_us_max :: u32
  ev_srtt_us_final :: u32
  ev_rttvar_us_max :: u32
  ev_retransmit_count :: u32
  ev_retransmit_bytes :: u64
  ev_retransmit_rto_count :: u32
  ev_retransmit_fast_count :: u32
  ev_retransmit_tlp_count :: u32
  ev_sack_blocks_received :: u32
  ev_cwnd_min :: u32
  ev_cwnd_max :: u32
  ev_ecn_signals :: u32
  ev_tls_sni :: bytes
  ev_http_host :: bytes
  ev_http_method :: bytes
  ev_http_path :: bytes
  ev_http_status :: u16
  ev_has_tls :: u8
  ev_has_http :: u8
  ev_connect_ts_ns :: u64
  ev_first_byte_ts_ns :: u64
  ev_first_recv_ts_ns :: u64
  ev_close_ts_ns :: u64
  ev_duration_ns :: u64
  ev_time_to_first_byte_ns :: u64
  ev_tls_handshake_ns :: u64
  ev_app_response_time_ns :: u64
  ev_close_reason :: u8
  ev_congestion_state_final :: u8
  ev_chain_id :: u64
  ev_parent_chain_id :: u64
  ev_chain_depth :: u32

text \<open>The record with every byte zero, \<^verbatim>\<open>std::mem::zeroed::<FlowEvent>()\<close>.\<close>

definition zeroed_FlowEvent :: FlowEvent where
  "zeroed_FlowEvent = \<lparr>
     ev_pid = 0, ev_ppid = 0, ev_uid = 0, ev_gid = 0,
     ev_comm = replicate COMM_LEN 0, ev_cgroup = replicate CGROUP_LEN 0,
     ev_src_ip = 0, ev_dst_ip = 0, ev_src_port = 0, ev_dst_port = 0,
     ev_protocol = 0, ev_direction = 0,
     ev_bytes_sent = 0, ev_bytes_recv = 0, ev_pkts_sent = 0, ev_pkts_recv = 0,
     ev_srtt_us_min = 0, ev_srtt_us_max = 0, ev_srtt_us_final = 0, ev_rttvar_us_max = 0,
     ev_retransmit_count = 0, ev_retransmit_bytes = 0, ev_retransmit_rto_count = 0,
     ev_retransmit_fast_count = 0, ev_retransmit_tlp_count = 0, ev_sack_blocks_received = 0,
     ev_cwnd_min = 0, ev_cwnd_max = 0, ev_ecn_signals = 0,
     ev_tls_sni = replicate HOST_LEN 0, ev_http_host = replicate HOST_LEN 0,
     ev_http_method = replicate 8 0, ev_http_path = replicate PATH_LEN 0,
     ev_http_status = 0, ev_has_tls = 0, ev_has_http = 0,
     ev_connect_ts_ns = 0, ev_first_byte_ts_ns = 0, ev_first_recv_ts_ns = 0,
     ev_close_ts_ns = 0, ev_duration_ns = 0, ev_time_to_first_byte_ns = 0,
     ev_tls_handshake_ns = 0, ev_app_response_time_ns = 0,
     ev_close_reason = 0, ev_congestion_state_final = 0,
     ev_chain_id = 0, ev_parent_chain_id = 0, ev_chain_depth = 0\<rparr>"

text \<open>Writing a field's own value changes nothing; a conditional write is a write of a conditional.\<close>

lemma update_self [simp]:
  "s\<lparr>st_srtt_us_min := st_srtt_us_min s\<rparr> = (s :: FlowState)"
  "s\<lparr>st_srtt_us_max := st_srtt_us_max s\<rparr> = (s :: FlowState)"
  "s\<lparr>st_srtt_us_last := st_srtt_us_last s\<rparr> = (s :: FlowState)"
  "s\<lparr>st_rttvar_us_max := st_rttvar_us_max s\<rparr> = (s :: FlowState)"
  "s\<lparr>st_cwnd_min := st_cwnd_min s\<rparr> = (s :: FlowState)"
  "s\<lparr>st_cwnd_max := st_cwnd_max s\<rparr> = (s :: FlowState)"
  "s\<lparr>st_first_byte_ts_ns := st_first_byte_ts_ns s\<rparr> = (s :: FlowState)"
  "s\<lparr>st_first_recv_ts_ns := st_first_recv_ts_ns s\<rparr> = (s :: FlowState)"
  "s\<lparr>st_tls_ready_ts_ns := st_tls_ready_ts_ns s\<rparr> = (s :: FlowState)"
  "s\<lparr>st_has_tls := st_has_tls s\<rparr> = (s :: FlowState)"
  "s\<lparr>st_has_http := st_has_http s\<rparr> = (s :: FlowState)"
  "s\<lparr>st_ssl_write_ts_ns := st_ssl_write_ts_ns s\<rparr> = (s :: FlowState)"
  "s\<lparr>st_retransmit_rto_count := st_retransmit_rto_count s\<rparr> = (s :: FlowState)"
  "s\<lparr>st_retransmit_fast_count := st_retransmit_fast_count s\<rparr> = (s :: FlowState)"
  "s\<lparr>st_retransmit_tlp_count := st_retransmit_tlp_count s\<rparr> = (s :: FlowState)"
  by (cases s, simp)+

lemma conditional_write:
  "(if b then s\<lparr>st_srtt_us_min := v0\<rparr> else s) = s\<lparr>st_srtt_us_min := if b then v0 else st_srtt_us_min s\<rparr>"
  "(if b then s\<lparr>st_srtt_us_max := v1\<rparr> else s) = s\<lparr>st_srtt_us_max := if b then v1 else st_srtt_us_max s\<rparr>"
  "(if b then s\<lparr>st_srtt_us_last := v2\<rparr> else s) = s\<lparr>st_srtt_us_last := if b then v2 else st_srtt_us_last s\<rparr>"
  "(if b then s\<lparr>st_rttvar_us_max := v3\<rparr> else s) = s\<lparr>st_rttvar_us_max := if b then v3 else st_rttvar_us_max s\<rparr>"
  "(if b then s\<lparr>st_cwnd_min := v4\<rparr> else s) = s\<lparr>st_cwnd_min := if b then v4 else st_cwnd_min s\<rparr>"
  "(if b then s\<lparr>st_cwnd_max := v5\<rparr> else s) = s\<lparr>st_cwnd_max := if b then v5 else st_cwnd_max s\<rparr>"
  "(if b then s\<lparr>st_first_byte_ts_ns := v6\<rparr> else s) = s\<lparr>st_first_byte_ts_ns := if b then v6 else st_first_byte_ts_ns s\<rparr>"
  "(if b then s\<lparr>st_first_recv_ts_ns := v7\<rparr> else s) = s\<lparr>st_first_recv_ts_ns := if b then v7 else st_first_recv_ts_ns s\<rparr>"
  "(if b then s\<lparr>st_tls_ready_ts_ns := v8\<rparr> else s) = s\<lparr>st_tls_ready_ts_ns := if b then v8 else st_tls_ready_ts_ns s\<rparr>"
  "(if b then s\<lparr>st_has_tls := v9\<rparr> else s) = s\<lparr>st_has_tls := if b then v9 else st_has_tls s\<rparr>"
  "(if b then s\<lparr>st_has_http := v10\<rparr> else s) = s\<lparr>st_has_http := if b then v10 else st_has_http s\<rparr>"
  "(if b then s\<lparr>st_ssl_write_ts_ns := v11\<rparr> else s) = s\<lparr>st_ssl_write_ts_ns := if b then v11 else st_ssl_write_ts_ns s\<rparr>"
  "(if b then s\<lparr>st_retransmit_rto_count := v12\<rparr> else s) = s\<lparr>st_retransmit_rto_count := if b then v12 else st_retransmit_rto_count s\<rparr>"
  "(if b then s\<lparr>st_retransmit_fast_count := v13\<rparr> else s) = s\<lparr>st_retransmit_fast_count := if b then v13 else st_retransmit_fast_count s\<rparr>"
  "(if b then s\<lparr>st_retransmit_tlp_count := v14\<rparr> else s) = s\<lparr>st_retransmit_tlp_count := if b then v14 else st_retransmit_tlp_count s\<rparr>"
  by simp_all

subsection \<open>Array lengths\<close>

definition wf_state :: "FlowState \<Rightarrow> bool" where
  "wf_state st \<longleftrightarrow>
     length (st_comm st) = COMM_LEN \<and> length (st_cgroup st) = CGROUP_LEN \<and>
     length (st_tls_sni st) = HOST_LEN \<and> length (st_http_host st) = HOST_LEN \<and>
     length (st_http_method st) = 8 \<and> length (st_http_path st) = PATH_LEN"

lemma wf_EMPTY_FLOW_STATE: "wf_state EMPTY_FLOW_STATE"
  by (simp add: wf_state_def EMPTY_FLOW_STATE_def)

end
