(* ===== verification/TlsParse.thy ===== *)
theory TlsParse
  imports Types
begin

text \<open>
  The parsers of \<^verbatim>\<open>flow-sensor-ebpf/src/tls.rs\<close>: the ClientHello server name, the HTTP
  request line and \<^verbatim>\<open>Host\<close> header, and the HTTP status. \<open>data\<close> is the 256-byte scratch array
  and \<open>len\<close> the number of bytes the last probe read put there. Output buffers are byte lists;
  a raw access outside a buffer makes the parser return \<open>None\<close>, so that memory safety is the
  theorem that no call returns \<open>None\<close>. All offsets stay below 1024, far from the width of
  \<^verbatim>\<open>usize\<close>, and are natural numbers.
\<close>

subsection \<open>Byte access\<close>

definition ch :: "char \<Rightarrow> u8" where "ch c = of_char c"

definition read_u8 :: "bytes \<Rightarrow> nat \<Rightarrow> nat \<Rightarrow> u8 option" where
  "read_u8 data len idx =
     (if len \<le> idx \<or> TLS_SCRATCH_LEN \<le> idx then None else Some (data ! idx))"

text \<open>\<^verbatim>\<open>read_u8(ptr, len, idx).unwrap_or(0)\<close>.\<close>

definition rd :: "bytes \<Rightarrow> nat \<Rightarrow> nat \<Rightarrow> u8" where
  "rd data len idx = (case read_u8 data len idx of None \<Rightarrow> 0 | Some b \<Rightarrow> b)"

text \<open>Two bytes in network order.\<close>

definition be16 :: "bytes \<Rightarrow> nat \<Rightarrow> nat \<Rightarrow> nat" where
  "be16 data len p = push_bit 8 (unat (rd data len p)) OR unat (rd data len (p + 1))"

function copy_loop :: "bytes \<Rightarrow> nat \<Rightarrow> bytes \<Rightarrow> nat \<Rightarrow> nat \<Rightarrow> nat \<Rightarrow> nat \<Rightarrow> bytes option" where
  "copy_loop out out_len src src_len start cnt i =
     (if i < cnt \<and> i < out_len \<and> start + i < src_len
      then (if i < length out \<and> start + i < length src
            then copy_loop (out[i := src ! (start + i)]) out_len src src_len start cnt (i + 1)
            else None)
      else Some out)"
  by pat_completeness auto
termination
  by (relation "measure (\<lambda>(out, out_len, src, src_len, start, cnt, i). cnt - i)") auto

declare copy_loop.simps [simp del]

definition copy_bytes_bounded :: "bytes \<Rightarrow> nat \<Rightarrow> bytes \<Rightarrow> nat \<Rightarrow> nat \<Rightarrow> nat \<Rightarrow> bytes option" where
  "copy_bytes_bounded out out_len src src_len start cnt =
     copy_loop out out_len src src_len start cnt 0"

subsection \<open>TLS ClientHello\<close>

text \<open>Record header, record length and handshake type.\<close>

definition clienthello_header :: "bytes \<Rightarrow> nat \<Rightarrow> bool" where
  "clienthello_header data len =
     (if len < 43 then False
      else if rd data len 0 \<noteq> 0x16 \<or> rd data len 1 \<noteq> 0x03 then False
      else (let rec_len = be16 data len 3 in
        if len - 5 < rec_len then False
        else if len < 5 + rec_len then False
        else rd data len 5 = 0x01))"

text \<open>Skip a vector with a one-byte length of at most \<open>cap\<close> (session id, compression methods).\<close>

definition skip_vec8 :: "nat \<Rightarrow> bytes \<Rightarrow> nat \<Rightarrow> nat \<Rightarrow> nat option" where
  "skip_vec8 cap data len p =
     (if len < p + 1 then None
      else (let n = unat (rd data len p); p = p + 1 in
        if cap < n then None else if len < p + n then None else Some (p + n)))"

text \<open>Skip a vector with a two-byte length of at most \<open>cap\<close> (cipher suites).\<close>

definition skip_vec16 :: "nat \<Rightarrow> bytes \<Rightarrow> nat \<Rightarrow> nat \<Rightarrow> nat option" where
  "skip_vec16 cap data len p =
     (if len < p + 2 then None
      else (let n = be16 data len p; p = p + 2 in
        if cap < n then None else if len < p + n then None else Some (p + n)))"

text \<open>The extension block: its start and end.\<close>

definition ext_block :: "bytes \<Rightarrow> nat \<Rightarrow> nat \<Rightarrow> (nat \<times> nat) option" where
  "ext_block data len p =
     (if len < p + 2 then None
      else (let ext_total = be16 data len p; p = p + 2 in
        if 220 < ext_total then None
        else (let ext_end = p + ext_total in if len < ext_end then None else Some (p, ext_end))))"

text \<open>The name inside a \<^verbatim>\<open>server_name\<close> extension at \<open>p2\<close>: its offset and length.\<close>

definition server_name :: "bytes \<Rightarrow> nat \<Rightarrow> nat \<Rightarrow> nat \<Rightarrow> nat \<Rightarrow> (nat \<times> nat) option" where
  "server_name data len etype elen p2 =
     (if etype = 0 \<and> 5 \<le> elen then
        (let list_len = be16 data len p2 in
         if 3 \<le> list_len \<and> 2 + list_len \<le> elen then
           (let q = p2 + 2 in
            if rd data len q = 0 then
              (let q = q + 1 in
               if q + 2 \<le> p2 + elen then
                 (let name_len = be16 data len q; q = q + 2 in
                  if 0 < name_len \<and> name_len \<le> HOST_LEN \<and> q + name_len \<le> p2 + elen
                  then Some (q, name_len) else None)
               else None)
            else None)
         else None)
      else None)"

text \<open>The bounded loop over the extensions; the first argument counts the iterations left.\<close>

fun scan_extensions :: "nat \<Rightarrow> bytes \<Rightarrow> nat \<Rightarrow> nat \<Rightarrow> nat \<Rightarrow> bytes \<Rightarrow> (u8 \<times> bytes) option" where
  "scan_extensions 0 data len ext_end p2 sni_out = Some (0, sni_out)"
| "scan_extensions (Suc n) data len ext_end p2 sni_out =
     (if ext_end < p2 + 4 then Some (0, sni_out)
      else (let etype = be16 data len p2; elen = be16 data len (p2 + 2); p2 = p2 + 4 in
        if 128 < elen then Some (0, sni_out)
        else if ext_end < p2 + elen then Some (0, sni_out)
        else (case server_name data len etype elen p2 of
                Some (q, name_len) \<Rightarrow>
                  map_option (\<lambda>sni. (1, sni))
                    (copy_bytes_bounded sni_out HOST_LEN data len q name_len)
              | None \<Rightarrow> scan_extensions n data len ext_end (p2 + elen) sni_out)))"

text \<open>The walk from the client version to the extension block.\<close>

definition clienthello_extensions :: "bytes \<Rightarrow> nat \<Rightarrow> (nat \<times> nat) option" where
  "clienthello_extensions data len =
     (if \<not> clienthello_header data len then None
      else if len < 9 + 2 then None
      else if len < 11 + 32 then None
      else Option.bind (skip_vec8 32 data len 43)
             (\<lambda>p. Option.bind (skip_vec16 200 data len p)
             (\<lambda>p. Option.bind (skip_vec8 32 data len p)
             (\<lambda>p. ext_block data len p))))"

definition parse_tls_clienthello_sni :: "bytes \<Rightarrow> nat \<Rightarrow> bytes \<Rightarrow> (u8 \<times> bytes) option" where
  "parse_tls_clienthello_sni data len sni_out =
     (case clienthello_extensions data len of
        None \<Rightarrow> Some (0, sni_out)
      | Some (p, ext_end) \<Rightarrow> scan_extensions 24 data len ext_end p sni_out)"

subsection \<open>HTTP request\<close>

definition is_http_method :: "u8 \<Rightarrow> u8 \<Rightarrow> u8 \<Rightarrow> bool" where
  "is_http_method b0 b1 b2 \<longleftrightarrow>
     (b0 = ch CHR ''G'' \<and> b1 = ch CHR ''E'' \<and> b2 = ch CHR ''T'') \<or>
     (b0 = ch CHR ''P'' \<and> b1 = ch CHR ''O'' \<and> b2 = ch CHR ''S'') \<or>
     (b0 = ch CHR ''P'' \<and> b1 = ch CHR ''U'' \<and> b2 = ch CHR ''T'') \<or>
     (b0 = ch CHR ''D'' \<and> b1 = ch CHR ''E'' \<and> b2 = ch CHR ''L'') \<or>
     (b0 = ch CHR ''P'' \<and> b1 = ch CHR ''A'' \<and> b2 = ch CHR ''T'') \<or>
     (b0 = ch CHR ''H'' \<and> b1 = ch CHR ''E'' \<and> b2 = ch CHR ''A'') \<or>
     (b0 = ch CHR ''O'' \<and> b1 = ch CHR ''P'' \<and> b2 = ch CHR ''T'')"

text \<open>
  The scanning loops \<^verbatim>\<open>for i in ..\<close> that stop at \<open>len\<close> or at the first byte satisfying \<open>P\<close>;
  the second argument counts the iterations left.
\<close>

fun find_byte :: "(u8 \<Rightarrow> bool) \<Rightarrow> nat \<Rightarrow> bytes \<Rightarrow> nat \<Rightarrow> nat \<Rightarrow> nat option" where
  "find_byte P 0 data len i = None"
| "find_byte P (Suc n) data len i =
     (if len \<le> i then None
      else if P (rd data len i) then Some i
      else find_byte P n data len (i + 1))"

definition is_host_line :: "bytes \<Rightarrow> nat \<Rightarrow> nat \<Rightarrow> bool" where
  "is_host_line data len hi \<longleftrightarrow>
     (rd data len hi = ch CHR ''H'' \<or> rd data len hi = ch CHR ''h'') \<and>
     (rd data len (hi + 1) = ch CHR ''o'' \<or> rd data len (hi + 1) = ch CHR ''O'') \<and>
     (rd data len (hi + 2) = ch CHR ''s'' \<or> rd data len (hi + 2) = ch CHR ''S'') \<and>
     (rd data len (hi + 3) = ch CHR ''t'' \<or> rd data len (hi + 3) = ch CHR ''T'') \<and>
     rd data len (hi + 4) = ch CHR '':'' \<and> rd data len (hi + 5) = ch CHR '' ''"

fun find_host :: "nat \<Rightarrow> bytes \<Rightarrow> nat \<Rightarrow> nat \<Rightarrow> nat option" where
  "find_host 0 data len hi = None"
| "find_host (Suc n) data len hi =
     (if len < hi + 6 then None
      else if is_host_line data len hi then Some hi
      else find_host n data len (hi + 1))"

definition copy_method :: "bytes \<Rightarrow> nat \<Rightarrow> nat \<Rightarrow> bytes \<Rightarrow> bytes option" where
  "copy_method data len first_space method_out =
     (let method_end = (if first_space = len then 7 else min first_space 7)
      in copy_bytes_bounded method_out 8 data len 0 method_end)"

definition copy_path :: "bytes \<Rightarrow> nat \<Rightarrow> nat \<Rightarrow> bytes \<Rightarrow> bytes option" where
  "copy_path data len first_space path_out =
     (if first_space < len then
        (let path_start = first_space + 1 in
         if path_start < len then
           (let path_end =
                  (case find_byte (\<lambda>c. c = ch CHR '' '') PATH_LEN data len path_start of
                     Some pj \<Rightarrow> pj
                   | None \<Rightarrow> min (path_start + PATH_LEN) len);
                copy_len = path_end - path_start
            in copy_bytes_bounded path_out PATH_LEN data len path_start copy_len)
         else Some path_out)
      else Some path_out)"

definition copy_host :: "bytes \<Rightarrow> nat \<Rightarrow> bytes \<Rightarrow> bytes option" where
  "copy_host data len host_out =
     (case find_host 400 data len 0 of
        None \<Rightarrow> Some host_out
      | Some hi \<Rightarrow>
          (let val_start = hi + 6 in
           if len \<le> val_start then Some host_out
           else (let val_end =
                       (case find_byte (\<lambda>c. c = 0x0D \<or> c = 0x0A) HOST_LEN data len val_start of
                          Some vj \<Rightarrow> vj
                        | None \<Rightarrow> min (val_start + HOST_LEN) len);
                     copy_len = val_end - val_start
                 in copy_bytes_bounded host_out HOST_LEN data len val_start copy_len)))"

record http_out =
  ho_host :: bytes
  ho_method :: bytes
  ho_path :: bytes
  ho_has_http :: u8

definition parse_http_request :: "bytes \<Rightarrow> nat \<Rightarrow> http_out \<Rightarrow> http_out option" where
  "parse_http_request data len out =
     (if len < 4 then Some out
      else if \<not> is_http_method (rd data len 0) (rd data len 1) (rd data len 2) then Some out
      else (let first_space =
                  (case find_byte (\<lambda>c. c = ch CHR '' '') TLS_SCRATCH_LEN data len 0 of
                     Some si \<Rightarrow> si
                   | None \<Rightarrow> len)
            in Option.bind (copy_method data len first_space (ho_method out))
                 (\<lambda>method. Option.bind (copy_path data len first_space (ho_path out))
                 (\<lambda>path. Option.bind (copy_host data len (ho_host out))
                 (\<lambda>host. Some \<lparr>ho_host = host, ho_method = method, ho_path = path,
                             ho_has_http = 1\<rparr>)))))"

subsection \<open>HTTP status\<close>

definition is_digit :: "u8 \<Rightarrow> bool" where
  "is_digit a \<longleftrightarrow> \<not> (a < ch CHR ''0'' \<or> ch CHR ''9'' < a)"

definition parse_http_status :: "bytes \<Rightarrow> nat \<Rightarrow> u16" where
  "parse_http_status data len =
     (if len < 12 then 0
      else if \<not> (rd data len 0 = ch CHR ''H'' \<and> rd data len 1 = ch CHR ''T'' \<and>
                 rd data len 2 = ch CHR ''T'' \<and> rd data len 3 = ch CHR ''P'' \<and>
                 rd data len 4 = ch CHR ''/'') then 0
      else (let status_start =
                  (case find_byte (\<lambda>c. c = ch CHR '' '') (TLS_SCRATCH_LEN - 5) data len 5 of
                     Some si \<Rightarrow> si + 1
                   | None \<Rightarrow> 0)
            in if status_start = 0 \<or> len < status_start + 3 then 0
               else (let a = rd data len status_start;
                         b = rd data len (status_start + 1);
                         c = rd data len (status_start + 2)
                     in if \<not> is_digit a \<or> \<not> is_digit b \<or> \<not> is_digit c then 0
                        else ucast (a - ch CHR ''0'') * 100 + ucast (b - ch CHR ''0'') * 10 +
                             ucast (c - ch CHR ''0''))))"

section \<open>Memory safety and effect of the bounded copy\<close>

lemma copy_loop_pointwise:
  assumes "out_len \<le> length out" and "src_len \<le> length src"
  shows "\<exists>out'. copy_loop out out_len src src_len start cnt i = Some out' \<and>
     length out' = length out \<and>
     (\<forall>j < length out. out' ! j =
        (if i \<le> j \<and> j < cnt \<and> j < out_len \<and> start + j < src_len then src ! (start + j) else out ! j))"
  using assms
proof (induction out out_len src src_len start cnt i rule: copy_loop.induct)
  case (1 out out_len src src_len start cnt i)
  show ?case
  proof (cases "i < cnt \<and> i < out_len \<and> start + i < src_len")
    case True
    with "1.prems" have "i < length out" and "start + i < length src" by auto
    with True "1.IH" "1.prems" obtain out' where
      step: "copy_loop (out[i := src ! (start + i)]) out_len src src_len start cnt (i + 1) = Some out'"
      and len: "length out' = length out"
      and val: "\<And>j. j < length out \<Longrightarrow> out' ! j =
        (if i + 1 \<le> j \<and> j < cnt \<and> j < out_len \<and> start + j < src_len then src ! (start + j)
         else out[i := src ! (start + i)] ! j)"
      by auto
    have "out' ! j = (if i \<le> j \<and> j < cnt \<and> j < out_len \<and> start + j < src_len
                      then src ! (start + j) else out ! j)" if "j < length out" for j
      using val [OF that] True that by (cases "j = i") auto
    with step len True \<open>i < length out\<close> \<open>start + i < length src\<close> show ?thesis
      by (simp add: copy_loop.simps [of out out_len src src_len start cnt i])
  next
    case False
    then show ?thesis
      by (subst copy_loop.simps) auto
  qed
qed

lemma copy_bytes_bounded_eq:
  assumes "out_len \<le> length out" and "src_len \<le> length src" and "start \<le> src_len"
  shows "copy_bytes_bounded out out_len src src_len start cnt =
     Some (overwrite (take (min cnt (min out_len (src_len - start))) (drop start src)) out)"
proof -
  obtain out' where out': "copy_bytes_bounded out out_len src src_len start cnt = Some out'"
    and len: "length out' = length out"
    and val: "\<And>j. j < length out \<Longrightarrow> out' ! j =
        (if j < cnt \<and> j < out_len \<and> start + j < src_len then src ! (start + j) else out ! j)"
    using copy_loop_pointwise [OF assms(1,2), of start cnt 0]
    by (auto simp: copy_bytes_bounded_def)
  let ?xs = "take (min cnt (min out_len (src_len - start))) (drop start src)"
  have lenx: "length ?xs = min cnt (min out_len (src_len - start))"
    using assms by auto
  have lx: "length ?xs \<le> length out" unfolding lenx using assms(1) by linarith
  have "out' = overwrite ?xs out"
  proof (rule nth_equalityI)
    show "length out' = length (overwrite ?xs out)" using len lx by simp
  next
    fix j assume "j < length out'"
    then have j: "j < length out" using len by simp
    have "j < length ?xs \<longleftrightarrow> j < cnt \<and> j < out_len \<and> start + j < src_len"
      unfolding lenx by auto
    then show "out' ! j = overwrite ?xs out ! j"
      using val [OF j] overwrite_nth [OF j lx] assms(2,3) by auto
  qed
  with out' show ?thesis by simp
qed

lemma copy_whole:
  assumes "length out = out_len" and "cnt \<le> out_len" and "start + cnt \<le> src_len"
    and "src_len \<le> length src"
  shows "copy_bytes_bounded out out_len src src_len start cnt =
     Some (overwrite (take cnt (drop start src)) out)"
  using assms by (subst copy_bytes_bounded_eq) (auto simp: min_def)

section \<open>Reads\<close>

lemma rd_eq: "rd data len i = (if i < len \<and> i < 256 then data ! i else 0)"
  by (simp add: rd_def read_u8_def TLS_SCRATCH_LEN_def)

lemma rd_cong: "take len data = take len data' \<Longrightarrow> rd data len i = rd data' len i"
  by (metis nth_take rd_eq)

lemma be16_cong: "take len data = take len data' \<Longrightarrow> be16 data len i = be16 data' len i"
  by (simp add: be16_def rd_cong [of len data data'])

lemma be16_arith: "be16 data len p = 256 * unat (rd data len p) + unat (rd data len (p + 1))"
proof -
  have "\<not> bit (unat (rd data len (p + 1))) n" if "8 \<le> n" for n
    using that by (simp add: bit_unsigned_iff)
  then have "be16 data len p = push_bit 8 (unat (rd data len p)) + unat (rd data len (p + 1))"
    unfolding be16_def
    by (intro disjunctive_add [symmetric]) (auto simp: bit_push_bit_iff)
  then show ?thesis by (simp add: push_bit_eq_mult)
qed

section \<open>The server name parser\<close>

lemma server_name_bounds:
  assumes "server_name data len etype elen p2 = Some (q, m)"
  shows "0 < m" and "q + m \<le> p2 + elen" and "q = p2 + 5" and "etype = 0" and "m \<le> HOST_LEN"
  using assms by (auto simp: server_name_def Let_def split: if_splits)

lemma scan_extensions_effect:
  assumes "ext_end \<le> len" and "len \<le> length data" and "length out = HOST_LEN"
  shows "(scan_extensions n data len ext_end p out = Some (0, out)) \<or>
     (\<exists>q m. 0 < m \<and> m \<le> 123 \<and> p + 9 \<le> q \<and> q + m \<le> ext_end \<and>
        scan_extensions n data len ext_end p out = Some (1, overwrite (take m (drop q data)) out))"
  (is "?quiet n p \<or> ?found n p")
proof (induction n arbitrary: p)
  case 0
  then show ?case by simp
next
  case (Suc n)
  let ?elen = "be16 data len (p + 2)"
  consider (stop) "ext_end < p + 4 \<or> 128 < ?elen \<or> ext_end < p + 4 + ?elen"
    | (name) q m where "\<not> ext_end < p + 4" "\<not> 128 < ?elen" "\<not> ext_end < p + 4 + ?elen"
        "server_name data len (be16 data len p) ?elen (p + 4) = Some (q, m)"
    | (skip) "\<not> ext_end < p + 4" "\<not> 128 < ?elen" "\<not> ext_end < p + 4 + ?elen"
        "server_name data len (be16 data len p) ?elen (p + 4) = None"
    by (cases "server_name data len (be16 data len p) ?elen (p + 4)") auto
  then show ?case
  proof cases
    case stop
    then show ?thesis by (auto simp: Let_def)
  next
    case name
    note b = server_name_bounds [OF name(4)]
    have "copy_bytes_bounded out HOST_LEN data len q m = Some (overwrite (take m (drop q data)) out)"
      using b name assms by (intro copy_whole) auto
    with name have "scan_extensions (Suc n) data len ext_end p out =
        Some (1, overwrite (take m (drop q data)) out)"
      by (simp add: Let_def)
    moreover have "m \<le> 123" "p + 9 \<le> q" "q + m \<le> ext_end" using b name by auto
    ultimately show ?thesis using b(1) by blast
  next
    case skip
    then have "scan_extensions (Suc n) data len ext_end p out =
        scan_extensions n data len ext_end (p + 4 + ?elen) out"
      by (simp add: Let_def)
    with Suc.IH [of "p + 4 + ?elen"] show ?thesis by fastforce
  qed
qed

lemma skip_vec8_bounds:
  "skip_vec8 cap data len p = Some p' \<Longrightarrow> p + 1 \<le> p' \<and> p' \<le> p + 1 + cap \<and> p' \<le> len"
  by (auto simp: skip_vec8_def Let_def split: if_splits)

lemma skip_vec16_bounds:
  "skip_vec16 cap data len p = Some p' \<Longrightarrow> p + 2 \<le> p' \<and> p' \<le> p + 2 + cap \<and> p' \<le> len"
  by (auto simp: skip_vec16_def Let_def split: if_splits)

lemma ext_block_bounds:
  "ext_block data len p = Some (p', e) \<Longrightarrow> p' = p + 2 \<and> p' \<le> e \<and> e \<le> p + 222 \<and> e \<le> len"
  by (auto simp: ext_block_def Let_def split: if_splits)

lemma clienthello_extensions_bounds:
  assumes "clienthello_extensions data len = Some (p, ext_end)"
  shows "49 \<le> p" and "p \<le> ext_end" and "ext_end \<le> len" and "p \<le> 313"
proof -
  from assms obtain p1 p2 p3 where
    "skip_vec8 32 data len 43 = Some p1" "skip_vec16 200 data len p1 = Some p2"
    "skip_vec8 32 data len p2 = Some p3" "ext_block data len p3 = Some (p, ext_end)"
    by (auto simp: clienthello_extensions_def bind_eq_Some_conv split: if_splits)
  from skip_vec8_bounds [OF this(1)] skip_vec16_bounds [OF this(2)]
    skip_vec8_bounds [OF this(3)] ext_block_bounds [OF this(4)]
  show "49 \<le> p" and "p \<le> ext_end" and "ext_end \<le> len" and "p \<le> 313"
    by linarith+
qed

lemma parse_sni_effect:
  assumes "len \<le> length data" and "length out = HOST_LEN"
  shows "parse_tls_clienthello_sni data len out = Some (0, out) \<or>
     (\<exists>q m. 0 < m \<and> m \<le> 123 \<and> 58 \<le> q \<and> q + m \<le> len \<and>
        parse_tls_clienthello_sni data len out = Some (1, overwrite (take m (drop q data)) out))"
proof (cases "clienthello_extensions data len")
  case None
  then show ?thesis by (simp add: parse_tls_clienthello_sni_def)
next
  case (Some pe)
  then obtain p ext_end where pe: "clienthello_extensions data len = Some (p, ext_end)"
    by (cases pe) auto
  note b = clienthello_extensions_bounds [OF pe]
  have "parse_tls_clienthello_sni data len out = scan_extensions 24 data len ext_end p out"
    by (simp add: parse_tls_clienthello_sni_def pe)
  with scan_extensions_effect [OF b(3) assms, of 24 p]
  consider "parse_tls_clienthello_sni data len out = Some (0, out)"
    | q m where "0 < m" "m \<le> 123" "p + 9 \<le> q" "q + m \<le> ext_end"
        "parse_tls_clienthello_sni data len out = Some (1, overwrite (take m (drop q data)) out)"
    by metis
  then show ?thesis
  proof cases
    case 2
    then have "58 \<le> q" "q + m \<le> len" using b by linarith+
    with 2 show ?thesis by blast
  qed simp
qed

section \<open>The HTTP request parser\<close>

lemma find_byte_Some:
  "find_byte P n data len i = Some j \<Longrightarrow>
   i \<le> j \<and> j < len \<and> j < i + n \<and> P (rd data len j) \<and> (\<forall>k. i \<le> k \<and> k < j \<longrightarrow> \<not> P (rd data len k))"
proof (induction P n data len i rule: find_byte.induct)
  case (2 P n data len i)
  show ?case
  proof (cases "P (rd data len i)")
    case True
    with "2.prems" show ?thesis by (auto split: if_splits)
  next
    case False
    with "2.prems" have "\<not> len \<le> i" and rec: "find_byte P n data len (i + 1) = Some j"
      by (auto split: if_splits)
    from "2.IH" [OF this(1) False rec] have ih: "i + 1 \<le> j" "j < len" "j < i + 1 + n"
      "P (rd data len j)" "\<And>k. i + 1 \<le> k \<Longrightarrow> k < j \<Longrightarrow> \<not> P (rd data len k)" by auto
    have "\<not> P (rd data len k)" if "i \<le> k" "k < j" for k
      using ih(5) [of k] False that by (cases "k = i") auto
    with ih show ?thesis by auto
  qed
qed simp

lemma find_byte_at:
  assumes "j < len" and "P (rd data len j)" and "\<And>k. i \<le> k \<Longrightarrow> k < j \<Longrightarrow> \<not> P (rd data len k)"
    and "i \<le> j" and "j < i + n"
  shows "find_byte P n data len i = Some j"
  using assms
proof (induction n arbitrary: i)
  case (Suc n)
  show ?case
  proof (cases "i = j")
    case True
    with Suc.prems show ?thesis by simp
  next
    case False
    with Suc.prems have "\<not> P (rd data len i)" and "find_byte P n data len (i + 1) = Some j"
      using Suc.IH [of "i + 1"] by auto
    with Suc.prems show ?thesis by simp
  qed
qed simp

lemma find_host_Some:
  "find_host n data len i = Some hi \<Longrightarrow> i \<le> hi \<and> hi + 6 \<le> len \<and> is_host_line data len hi"
  by (induction n data len i rule: find_host.induct) (auto split: if_splits)

lemma copy_method_effect:
  assumes "first_space \<le> len" and "len \<le> length data" and "length out = 8"
  shows "copy_method data len first_space out = Some (overwrite (take (min 7 first_space) data) out)"
  using assms
  by (auto simp: copy_method_def copy_bytes_bounded_eq min_def)

lemma copy_path_effect:
  assumes "len \<le> length data" and "length out = PATH_LEN"
  shows "\<exists>q m. 0 < q \<and> q + m \<le> max 1 len \<and>
     copy_path data len first_space out = Some (overwrite (take m (drop q data)) out)"
proof (cases "first_space + 1 < len")
  case True
  let ?q = "first_space + 1"
  let ?stop = "case find_byte (\<lambda>c. c = ch CHR '' '') PATH_LEN data len ?q of
                Some pj \<Rightarrow> pj | None \<Rightarrow> min (?q + PATH_LEN) len"
  have e: "?q \<le> ?stop" "?stop \<le> len" "?stop \<le> ?q + PATH_LEN"
    using True by (auto split: option.split dest: find_byte_Some)
  have "copy_path data len first_space out =
      copy_bytes_bounded out PATH_LEN data len ?q (?stop - ?q)"
    using True by (simp add: copy_path_def Let_def cong: option.case_cong)
  also have "\<dots> = Some (overwrite (take (?stop - ?q) (drop ?q data)) out)"
    using e assms True by (intro copy_whole) linarith+
  finally show ?thesis using e True by (intro exI [of _ ?q] exI [of _ "?stop - ?q"]) linarith
next
  case False
  then have "copy_path data len first_space out = Some out"
    by (auto simp: copy_path_def Let_def)
  then show ?thesis by (intro exI [of _ 1] exI [of _ 0]) simp
qed

lemma copy_host_effect:
  assumes "len \<le> length data" and "length out = HOST_LEN"
  shows "\<exists>q m. 6 \<le> q \<and> q + m \<le> max 6 len \<and>
     copy_host data len out = Some (overwrite (take m (drop q data)) out)"
proof (cases "\<exists>hi. find_host 400 data len 0 = Some hi \<and> hi + 6 < len")
  case True
  then obtain hi where hi: "find_host 400 data len 0 = Some hi" "hi + 6 < len" by blast
  let ?q = "hi + 6"
  let ?stop = "case find_byte (\<lambda>c. c = 0x0D \<or> c = 0x0A) HOST_LEN data len ?q of
                Some vj \<Rightarrow> vj | None \<Rightarrow> min (?q + HOST_LEN) len"
  have e: "?q \<le> ?stop" "?stop \<le> len" "?stop \<le> ?q + HOST_LEN"
    using hi(2) by (auto split: option.split dest: find_byte_Some)
  have "copy_host data len out = copy_bytes_bounded out HOST_LEN data len ?q (?stop - ?q)"
    using hi by (simp add: copy_host_def Let_def)
  also have "\<dots> = Some (overwrite (take (?stop - ?q) (drop ?q data)) out)"
    using e assms hi(2) by (intro copy_whole) linarith+
  finally show ?thesis using e hi(2) by (intro exI [of _ ?q] exI [of _ "?stop - ?q"]) linarith
next
  case False
  then have "copy_host data len out = Some out"
    by (auto simp: copy_host_def Let_def split: option.split)
  then show ?thesis by (intro exI [of _ 6] exI [of _ 0]) simp
qed

text \<open>
  Either nothing is written and the flag stays, or the flag is set and each output buffer has
  at most a prefix overwritten by bytes of the plaintext, the method at most 7 of its 8 bytes.
\<close>

definition http_wf :: "http_out \<Rightarrow> bool" where
  "http_wf out \<longleftrightarrow> length (ho_host out) = HOST_LEN \<and> length (ho_method out) = 8 \<and>
     length (ho_path out) = PATH_LEN"

lemma parse_http_effect:
  assumes "len \<le> length data" and "http_wf out"
  obtains (no_http) "parse_http_request data len out = Some out"
  | (http) qh mh mm qp mp where "4 \<le> len" "6 \<le> qh" "qh + mh \<le> max 6 len" "mm \<le> 7" "mm \<le> len"
      "0 < qp" "qp + mp \<le> len"
      "parse_http_request data len out =
         Some \<lparr>ho_host = overwrite (take mh (drop qh data)) (ho_host out),
               ho_method = overwrite (take mm data) (ho_method out),
               ho_path = overwrite (take mp (drop qp data)) (ho_path out), ho_has_http = 1\<rparr>"
proof (cases "len < 4 \<or> \<not> is_http_method (rd data len 0) (rd data len 1) (rd data len 2)")
  case True
  then show ?thesis by (intro no_http) (auto simp: parse_http_request_def)
next
  case False
  let ?fs = "case find_byte (\<lambda>c. c = ch CHR '' '') TLS_SCRATCH_LEN data len 0 of
               Some si \<Rightarrow> si | None \<Rightarrow> len"
  have fs: "?fs \<le> len" by (auto split: option.split dest: find_byte_Some)
  from assms obtain qp mp where qp: "0 < qp" "qp + mp \<le> max 1 len"
    "copy_path data len ?fs (ho_path out) = Some (overwrite (take mp (drop qp data)) (ho_path out))"
    using copy_path_effect [of len data "ho_path out" ?fs] by (auto simp: http_wf_def)
  from assms obtain qh mh where qh: "6 \<le> qh" "qh + mh \<le> max 6 len"
    "copy_host data len (ho_host out) = Some (overwrite (take mh (drop qh data)) (ho_host out))"
    using copy_host_effect [of len data "ho_host out"] by (auto simp: http_wf_def)
  have "copy_method data len ?fs (ho_method out) =
      Some (overwrite (take (min 7 ?fs) data) (ho_method out))"
    using assms fs by (intro copy_method_effect) (auto simp: http_wf_def)
  with False qp qh have "parse_http_request data len out =
         Some \<lparr>ho_host = overwrite (take mh (drop qh data)) (ho_host out),
               ho_method = overwrite (take (min 7 ?fs) data) (ho_method out),
               ho_path = overwrite (take mp (drop qp data)) (ho_path out), ho_has_http = 1\<rparr>"
    by (simp add: parse_http_request_def Let_def)
  with False qp qh fs show ?thesis by (intro http [of qh mh "min 7 ?fs" qp mp]) auto
qed

section \<open>Only the bytes just read matter\<close>

lemma rd_take [simp]: "rd (take len data) len i = rd data len i"
  by (simp add: rd_eq)

lemma be16_take [simp]: "be16 (take len data) len i = be16 data len i"
  by (simp add: be16_def)

lemma copy_loop_take:
  "len \<le> length data \<Longrightarrow>
   copy_loop out out_len (take len data) len start cnt i = copy_loop out out_len data len start cnt i"
proof (induction out out_len data len start cnt i rule: copy_loop.induct)
  case (1 out out_len data len start cnt i)
  show ?case
  proof (cases "i < cnt \<and> i < out_len \<and> start + i < len \<and> i < length out \<and> start + i < length data")
    case True
    with 1 show ?thesis
      by (simp add: copy_loop.simps [of out out_len _ len start cnt i])
  next
    case False
    with "1.prems" show ?thesis
      by (auto simp: copy_loop.simps [of out out_len _ len start cnt i])
  qed
qed

lemma copy_take:
  "len \<le> length data \<Longrightarrow>
   copy_bytes_bounded out out_len (take len data) len start cnt =
   copy_bytes_bounded out out_len data len start cnt"
  by (simp add: copy_bytes_bounded_def copy_loop_take)

lemma find_byte_take [simp]: "find_byte P n (take len data) len i = find_byte P n data len i"
  by (induction n arbitrary: i) simp_all

lemma is_host_line_take [simp]: "is_host_line (take len data) len i = is_host_line data len i"
  by (simp add: is_host_line_def)

lemma find_host_take [simp]: "find_host n (take len data) len i = find_host n data len i"
  by (induction n arbitrary: i) simp_all

lemma server_name_take [simp]:
  "server_name (take len data) len etype elen p2 = server_name data len etype elen p2"
  by (simp add: server_name_def Let_def)

lemma scan_extensions_take:
  "len \<le> length data \<Longrightarrow>
   scan_extensions n (take len data) len e p out = scan_extensions n data len e p out"
  by (induction n arbitrary: p) (simp_all add: Let_def copy_take split: option.split)

lemma clienthello_extensions_take [simp]:
  "clienthello_extensions (take len data) len = clienthello_extensions data len"
  by (simp add: clienthello_extensions_def clienthello_header_def skip_vec8_def skip_vec16_def
      ext_block_def Let_def)

lemma parse_sni_take:
  "len \<le> length data \<Longrightarrow>
   parse_tls_clienthello_sni (take len data) len out = parse_tls_clienthello_sni data len out"
  by (simp add: parse_tls_clienthello_sni_def scan_extensions_take split: option.split)

lemma parse_http_take:
  "len \<le> length data \<Longrightarrow>
   parse_http_request (take len data) len out = parse_http_request data len out"
  by (simp add: parse_http_request_def copy_method_def copy_path_def copy_host_def copy_take Let_def
      cong: option.case_cong if_cong)

lemma parse_status_take: "parse_http_status (take len data) len = parse_http_status data len"
  by (simp add: parse_http_status_def Let_def cong: option.case_cong)

section \<open>The HTTP status parser\<close>

lemma is_digit_iff: "is_digit a \<longleftrightarrow> 48 \<le> unat a \<and> unat a \<le> 57"
  by (auto simp: is_digit_def ch_def word_less_nat_alt)

lemma digit_value:
  assumes "is_digit a"
  shows "unat (ucast (a - ch CHR ''0'') :: u16) = unat a - 48" and "unat a - 48 \<le> 9"
proof -
  from assms have a: "48 \<le> unat a" "unat a \<le> 57" by (auto simp: is_digit_iff)
  then have "unat (a - 48) = unat a - 48"
    by (subst unat_sub) (auto simp: word_le_nat_alt)
  moreover have "unat (ucast (b :: u8) :: u16) = unat b" for b
  proof -
    have "unat b < 2 ^ LENGTH(8)" by (rule unsigned_less)
    then show ?thesis by (simp add: unsigned_ucast_eq take_bit_nat_eq_self_iff)
  qed
  ultimately show "unat (ucast (a - ch CHR ''0'') :: u16) = unat a - 48" by (simp add: ch_def)
  show "unat a - 48 \<le> 9" using a by simp
qed

lemma status_value:
  assumes "is_digit a" and "is_digit b" and "is_digit c"
  shows "unat (ucast (a - ch CHR ''0'') * 100 + ucast (b - ch CHR ''0'') * 10 +
           ucast (c - ch CHR ''0'') :: u16) =
         100 * (unat a - 48) + 10 * (unat b - 48) + (unat c - 48)"
  using digit_value [OF assms(1)] digit_value [OF assms(2)] digit_value [OF assms(3)]
  by (simp add: unat_word_ariths)

lemma parse_http_status_range: "unat (parse_http_status data len) \<le> 999"
proof -
  have "100 * (unat a - 48) + 10 * (unat b - 48) + (unat c - 48) \<le> 999"
    if "is_digit a" "is_digit b" "is_digit c" for a b c
    using digit_value(2) [OF that(1)] digit_value(2) [OF that(2)] digit_value(2) [OF that(3)]
    by linarith
  then show ?thesis
    unfolding parse_http_status_def Let_def
    by (auto simp: status_value)
qed

end
