(* ===== verification/TlsFormat.thy ===== *)
theory TlsFormat
  imports TlsParse
begin

text \<open>
  Reference encoders for the messages the parsers of \<open>TlsParse\<close> look for, and the
  completeness of the parsers on them: every well-formed ClientHello that fits in the scratch
  array yields its server name, every request line its method and path, every status line its
  code.
\<close>

section \<open>Wire encodings\<close>

definition enc16 :: "nat \<Rightarrow> bytes" where
  "enc16 n = [word_of_nat (n div 256), word_of_nat (n mod 256)]"

definition vec8 :: "bytes \<Rightarrow> bytes" where
  "vec8 v = word_of_nat (length v) # v"

definition vec16 :: "bytes \<Rightarrow> bytes" where
  "vec16 v = enc16 (length v) @ v"

text \<open>An extension is its type and its data.\<close>

definition enc_ext :: "nat \<times> bytes \<Rightarrow> bytes" where
  "enc_ext e = enc16 (fst e) @ vec16 (snd e)"

definition enc_exts :: "(nat \<times> bytes) list \<Rightarrow> bytes" where
  "enc_exts es = concat (map enc_ext es)"

text \<open>A \<^verbatim>\<open>server_name\<close> list with one \<^verbatim>\<open>host_name\<close> entry.\<close>

definition sni_data :: "bytes \<Rightarrow> bytes" where
  "sni_data host = vec16 (0 # vec16 host)"

record client_hello =
  hello_minor :: u8
  hello_version :: bytes
  hello_random :: bytes
  hello_session :: bytes
  hello_ciphers :: bytes
  hello_compression :: bytes
  hello_exts :: "(nat \<times> bytes) list"

definition enc_hello_body :: "client_hello \<Rightarrow> bytes" where
  "enc_hello_body h = hello_version h @ hello_random h @ vec8 (hello_session h) @
     vec16 (hello_ciphers h) @ vec8 (hello_compression h) @ vec16 (enc_exts (hello_exts h))"

definition enc_handshake :: "client_hello \<Rightarrow> bytes" where
  "enc_handshake h = 0x01 # 0 # enc16 (length (enc_hello_body h)) @ enc_hello_body h"

text \<open>A TLS record with a record version 3.\<open>x\<close>.\<close>

definition enc_record :: "client_hello \<Rightarrow> bytes" where
  "enc_record h = [0x16, 0x03, hello_minor h] @ vec16 (enc_handshake h)"

lemma length_enc16 [simp]: "length (enc16 n) = 2"
  by (simp add: enc16_def)

lemma length_vec8 [simp]: "length (vec8 v) = 1 + length v"
  by (simp add: vec8_def)

lemma length_vec16 [simp]: "length (vec16 v) = 2 + length v"
  by (simp add: vec16_def)

lemma length_enc_ext [simp]: "length (enc_ext e) = 4 + length (snd e)"
  by (simp add: enc_ext_def)

section \<open>Reading an encoding back\<close>

lemma rd_append:
  "length pre = p \<Longrightarrow> p < len \<Longrightarrow> p < 256 \<Longrightarrow> rd (pre @ b # post) len p = b"
  by (auto simp: rd_eq)

lemma be16_append:
  assumes "length pre = p" and "p + 2 \<le> len" and "p + 2 \<le> 256" and "n < 65536"
  shows "be16 (pre @ enc16 n @ post) len p = n"
proof -
  have "rd (pre @ enc16 n @ post) len p = word_of_nat (n div 256)"
    using assms by (simp add: enc16_def rd_append)
  moreover have "rd (pre @ enc16 n @ post) len (p + 1) = word_of_nat (n mod 256)"
    using rd_append [of "pre @ [word_of_nat (n div 256)]" "p + 1" len] assms
    by (simp add: enc16_def)
  ultimately show ?thesis
    using assms by (simp add: be16_arith unat_of_nat)
qed

lemma skip_vec8_append:
  assumes "length pre = p" and "length v \<le> cap" and "cap < 256" and "p + 1 + length v \<le> len"
    and "len \<le> 256"
  shows "skip_vec8 cap (pre @ vec8 v @ post) len p = Some (p + 1 + length v)"
proof -
  have "rd (pre @ vec8 v @ post) len p = word_of_nat (length v)"
    using assms by (simp add: vec8_def rd_append)
  with assms show ?thesis by (simp add: skip_vec8_def Let_def unat_of_nat)
qed

lemma skip_vec16_append:
  assumes "length pre = p" and "length v \<le> cap" and "cap < 65536" and "p + 2 + length v \<le> len"
    and "len \<le> 256"
  shows "skip_vec16 cap (pre @ vec16 v @ post) len p = Some (p + 2 + length v)"
  using assms by (simp add: skip_vec16_def Let_def vec16_def be16_append)

lemma ext_block_append:
  assumes "length pre = p" and "length v \<le> 220" and "p + 2 + length v \<le> len" and "len \<le> 256"
  shows "ext_block (pre @ vec16 v @ post) len p = Some (p + 2, p + 2 + length v)"
  using assms by (simp add: ext_block_def Let_def vec16_def be16_append)

lemma server_name_append:
  assumes "length pre = p" and "host \<noteq> []" and "length (sni_data host) \<le> 128"
    and "p + length (sni_data host) \<le> len" and "len \<le> 256"
  shows "server_name (pre @ sni_data host @ post) len 0 (length (sni_data host)) p =
     Some (p + 5, length host)"
proof -
  have lh: "length host \<le> 123" using assms(3) by (simp add: sni_data_def)
  have 1: "be16 (pre @ sni_data host @ post) len p = 3 + length host"
    using assms lh by (simp add: sni_data_def vec16_def be16_append)
  have 2: "rd (pre @ sni_data host @ post) len (p + 2) = 0"
    using rd_append [of "pre @ enc16 (3 + length host)" "p + 2" len 0] assms lh
    by (simp add: sni_data_def vec16_def numeral_3_eq_3)
  have 3: "be16 (pre @ sni_data host @ post) len (p + 3) = length host"
    using be16_append [of "pre @ enc16 (3 + length host) @ [0]" "p + 3" len "length host"] assms lh
    by (simp add: sni_data_def vec16_def numeral_3_eq_3)
  have "length (sni_data host) = 5 + length host" by (simp add: sni_data_def)
  with assms lh 1 2 3 show ?thesis
    by (simp add: server_name_def Let_def HOST_LEN_def numeral_eq_Suc)
qed

lemma server_name_other: "etype \<noteq> 0 \<Longrightarrow> server_name data len etype elen p = None"
  by (simp add: server_name_def)

text \<open>At the \<^verbatim>\<open>server_name\<close> extension the loop copies the host and stops.\<close>

lemma scan_extensions_here:
  assumes "length pre = p" and "0 < n" and "host \<noteq> []" and "length host \<le> 123"
    and "data = pre @ enc_ext (0, sni_data host) @ post"
    and "p + 9 + length host \<le> ext_end" and "ext_end \<le> len"
    and "len \<le> 256" and "len \<le> length data" and "length out = HOST_LEN"
  shows "scan_extensions n data len ext_end p out = Some (1, overwrite host out)"
proof -
  obtain m where n: "n = Suc m" using assms(2) by (cases n) auto
  let ?elen = "length (sni_data host)"
  have l: "?elen = 5 + length host" by (simp add: sni_data_def)
  have d: "data = pre @ enc16 0 @ vec16 (sni_data host) @ post"
    using assms(5) by (simp add: enc_ext_def)
  have et: "be16 data len p = 0"
    unfolding d using assms l by (intro be16_append) auto
  have el: "be16 data len (p + 2) = ?elen"
    using be16_append [of "pre @ enc16 0" "p + 2" len ?elen "sni_data host @ post"] assms l
    by (auto simp: d vec16_def)
  have sn: "server_name data len 0 ?elen (p + 4) = Some (p + 9, length host)"
    using server_name_append [of "pre @ enc16 0 @ enc16 ?elen" "p + 4" host len post] assms l
    by (auto simp: d vec16_def)
  have "data = (pre @ enc16 0 @ enc16 ?elen @ enc16 (3 + length host) @ [0] @ enc16 (length host)) @ host @ post"
    by (simp add: d vec16_def sni_data_def numeral_3_eq_3)
  then have "take (length host) (drop (p + 9) data) = host"
    using assms(1) by simp
  moreover have "copy_bytes_bounded out HOST_LEN data len (p + 9) (length host) =
      Some (overwrite (take (length host) (drop (p + 9) data)) out)"
    using assms by (intro copy_whole) (auto simp: HOST_LEN_def)
  ultimately show ?thesis
    using assms l et el sn by (simp add: n Let_def)
qed

text \<open>
  The loop reaches the \<^verbatim>\<open>server_name\<close> extension past fewer than 24 others, each of another
  type and of at most 128 bytes.
\<close>

lemma scan_extensions_append:
  assumes "length pre = p" and "length others < n"
    and "\<forall>e\<in>set others. fst e \<noteq> 0 \<and> fst e < 65536 \<and> length (snd e) \<le> 128"
    and "host \<noteq> []" and "length host \<le> 123"
    and "data = pre @ enc_exts others @ enc_ext (0, sni_data host) @ post"
    and "p + length (enc_exts others) + 9 + length host \<le> ext_end" and "ext_end \<le> len"
    and "len \<le> 256" and "len \<le> length data" and "length out = HOST_LEN"
  shows "scan_extensions n data len ext_end p out = Some (1, overwrite host out)"
  using assms
proof (induction others arbitrary: pre p n)
  case Nil
  then show ?case
    by (intro scan_extensions_here [of pre p n host data post]) (simp_all add: enc_exts_def)
next
  case (Cons e others)
  then obtain m where n: "n = Suc m" by (cases n) auto
  have e: "fst e \<noteq> 0" "fst e < 65536" "length (snd e) \<le> 128" using Cons.prems by auto
  let ?rest = "enc_exts others @ enc_ext (0, sni_data host) @ post"
  have d: "data = pre @ enc16 (fst e) @ enc16 (length (snd e)) @ snd e @ ?rest"
    using Cons.prems by (simp add: enc_exts_def enc_ext_def vec16_def)
  have room: "p + 4 + length (snd e) \<le> ext_end" "p + 4 + length (snd e) \<le> len"
    using Cons.prems by (auto simp: enc_exts_def)
  have et: "be16 data len p = fst e"
    unfolding d using Cons.prems e room by (intro be16_append) auto
  have el: "be16 data len (p + 2) = length (snd e)"
    using be16_append [of "pre @ enc16 (fst e)" "p + 2" len "length (snd e)" "snd e @ ?rest"]
      Cons.prems e room by (auto simp: d)
  have "scan_extensions m data len ext_end (p + 4 + length (snd e)) out = Some (1, overwrite host out)"
    using Cons.prems
    by (intro Cons.IH [of "pre @ enc_ext e"]) (auto simp: n enc_exts_def enc_ext_def vec16_def)
  with et el e room show ?case
    by (simp add: n Let_def server_name_other)
qed

subsection \<open>ClientHello\<close>

text \<open>The limits under which the parser finds the name \<open>host\<close> of a ClientHello.\<close>

definition hello_ok :: "client_hello \<Rightarrow> (nat \<times> bytes) list \<Rightarrow> bytes \<Rightarrow> (nat \<times> bytes) list \<Rightarrow> bool" where
  "hello_ok h before host after \<longleftrightarrow>
     hello_exts h = before @ (0, sni_data host) # after \<and>
     length (hello_version h) = 2 \<and> length (hello_random h) = 32 \<and>
     length (hello_session h) \<le> 32 \<and> length (hello_ciphers h) \<le> 200 \<and>
     length (hello_compression h) \<le> 32 \<and> length (enc_exts (hello_exts h)) \<le> 220 \<and>
     length before < 24 \<and> list_all (\<lambda>e. fst e \<noteq> 0 \<and> fst e < 65536 \<and> length (snd e) \<le> 128) before \<and>
     host \<noteq> [] \<and> length host \<le> 123 \<and> length (enc_record h) \<le> TLS_SCRATCH_LEN"

lemma enc_exts_split:
  "enc_exts (before @ e # after) = enc_exts before @ enc_ext e @ enc_exts after"
  by (simp add: enc_exts_def)

lemma length_enc_record:
  "length (enc_record h) = 9 + length (enc_hello_body h)"
  by (simp add: enc_record_def enc_handshake_def)

lemma length_enc_hello_body:
  assumes "length (hello_version h) = 2" and "length (hello_random h) = 32"
  shows "length (enc_hello_body h) = 40 + length (hello_session h) + length (hello_ciphers h) +
     length (hello_compression h) + length (enc_exts (hello_exts h))"
  using assms by (simp add: enc_hello_body_def)

text \<open>The walk to the extension block, field by field.\<close>

lemma enc_record_header:
  assumes "length (enc_record h) \<le> 256" and "43 \<le> length (enc_record h)"
  shows "clienthello_header (enc_record h @ pad) (length (enc_record h))"
proof -
  let ?len = "length (enc_record h)" and ?n = "length (enc_handshake h)"
  have n: "?len = 5 + ?n" by (simp add: enc_record_def)
  have d: "enc_record h @ pad = [0x16, 0x03, hello_minor h] @ enc16 ?n @ enc_handshake h @ pad"
    by (simp add: enc_record_def vec16_def)
  have "be16 (enc_record h @ pad) ?len 3 = ?n"
    unfolding d using assms n by (intro be16_append) auto
  moreover have "rd (enc_record h @ pad) ?len 0 = 0x16" "rd (enc_record h @ pad) ?len 1 = 0x03"
    using assms by (simp_all add: rd_eq enc_record_def)
  moreover have "rd (enc_record h @ pad) ?len 5 = 0x01"
    using rd_append [of "[0x16, 0x03, hello_minor h] @ enc16 ?n" 5 ?len 1] assms
    by (simp add: d enc_handshake_def)
  ultimately show ?thesis
    using assms n by (simp add: clienthello_header_def Let_def)
qed

lemma enc_record_extensions:
  assumes "hello_ok h before host after"
  shows "clienthello_extensions (enc_record h @ pad) (length (enc_record h)) =
     Some (length (enc_record h) - length (enc_exts (hello_exts h)), length (enc_record h))"
proof -
  let ?len = "length (enc_record h)" and ?d = "enc_record h @ pad"
  let ?s = "hello_session h" and ?c = "hello_ciphers h" and ?m = "hello_compression h"
  let ?e = "enc_exts (hello_exts h)"
  let ?pre = "[0x16, 0x03, hello_minor h] @ enc16 (length (enc_handshake h)) @ 0x01 # 0 #
    enc16 (length (enc_hello_body h)) @ hello_version h @ hello_random h"
  have b: "length (hello_version h) = 2" "length (hello_random h) = 32" "length ?s \<le> 32"
    "length ?c \<le> 200" "length ?m \<le> 32" "length ?e \<le> 220" "?len \<le> 256"
    using assms unfolding hello_ok_def TLS_SCRATCH_LEN_def by blast+
  have len: "?len = 49 + length ?s + length ?c + length ?m + length ?e"
    using length_enc_hello_body [OF b(1,2)] by (simp add: length_enc_record)
  have d: "?d = ?pre @ vec8 ?s @ vec16 ?c @ vec8 ?m @ vec16 ?e @ pad"
    by (simp add: enc_record_def enc_handshake_def enc_hello_body_def vec16_def)
  have pre: "length ?pre = 43" using b by simp
  have 1: "skip_vec8 32 ?d ?len 43 = Some (44 + length ?s)"
    using skip_vec8_append [OF pre, of ?s 32 ?len "vec16 ?c @ vec8 ?m @ vec16 ?e @ pad"] b len
    by (simp add: d)
  have 2: "skip_vec16 200 ?d ?len (44 + length ?s) = Some (46 + length ?s + length ?c)"
    using skip_vec16_append [of "?pre @ vec8 ?s" "44 + length ?s" ?c 200 ?len "vec8 ?m @ vec16 ?e @ pad"]
      b len pre by (simp add: d)
  have 3: "skip_vec8 32 ?d ?len (46 + length ?s + length ?c) =
      Some (47 + length ?s + length ?c + length ?m)"
    using skip_vec8_append [of "?pre @ vec8 ?s @ vec16 ?c" "46 + length ?s + length ?c" ?m 32 ?len "vec16 ?e @ pad"]
      b len pre by (simp add: d)
  have 4: "ext_block ?d ?len (47 + length ?s + length ?c + length ?m) = Some (?len - length ?e, ?len)"
    using ext_block_append [of "?pre @ vec8 ?s @ vec16 ?c @ vec8 ?m"
        "47 + length ?s + length ?c + length ?m" ?e ?len pad] b len pre by (simp add: d)
  have "clienthello_header ?d ?len" using b len by (intro enc_record_header) auto
  with 1 2 3 4 len show ?thesis by (simp add: clienthello_extensions_def)
qed

lemma parse_sni_complete:
  assumes "hello_ok h before host after" and "length out = HOST_LEN"
  shows "parse_tls_clienthello_sni (enc_record h @ pad) (length (enc_record h)) out =
     Some (1, overwrite host out)"
proof -
  let ?len = "length (enc_record h)"
  let ?e = "enc_exts (hello_exts h)"
  obtain pre where d: "enc_record h = pre @ ?e"
    by (simp add: enc_record_def enc_handshake_def enc_hello_body_def vec16_def)
  have e: "?e = enc_exts before @ enc_ext (0, sni_data host) @ enc_exts after"
    using assms by (simp add: hello_ok_def enc_exts_split)
  have "scan_extensions 24 (enc_record h @ pad) ?len ?len (length pre) out = Some (1, overwrite host out)"
  proof (rule scan_extensions_append [where pre = pre and others = before and post = "enc_exts after @ pad"])
    show "length pre + length (enc_exts before) + 9 + length host \<le> ?len"
      using d e by (simp add: sni_data_def)
  qed (use assms d e in \<open>auto simp: hello_ok_def TLS_SCRATCH_LEN_def list_all_iff\<close>)
  then show ?thesis
    using enc_record_extensions [OF assms(1), of pad] d
    by (simp add: parse_tls_clienthello_sni_def)
qed

section \<open>HTTP\<close>

definition SP :: u8 where "SP = 0x20"
definition CR :: u8 where "CR = 0x0D"

definition host_label :: bytes where
  "host_label = map ch ''Host: ''"

text \<open>A request: method, path, the bytes up to the \<^verbatim>\<open>Host\<close> header, its value, the rest.\<close>

definition enc_request :: "bytes \<Rightarrow> bytes \<Rightarrow> bytes \<Rightarrow> bytes \<Rightarrow> bytes \<Rightarrow> bytes" where
  "enc_request m path headers host rest =
     m @ [SP] @ path @ [SP] @ headers @ host_label @ host @ [CR] @ rest"

definition request_ok :: "bytes \<Rightarrow> bytes \<Rightarrow> bytes \<Rightarrow> bytes \<Rightarrow> bytes \<Rightarrow> bool" where
  "request_ok m path headers host rest \<longleftrightarrow>
     (let msg = enc_request m path headers host rest in
      length msg \<le> TLS_SCRATCH_LEN \<and>
      3 \<le> length m \<and> length m \<le> 7 \<and> is_http_method (m ! 0) (m ! 1) (m ! 2) \<and>
      list_all (\<lambda>c. c \<noteq> SP) m \<and> list_all (\<lambda>c. c \<noteq> SP) path \<and>
      list_all (\<lambda>c. c \<noteq> CR \<and> c \<noteq> 0x0A) host \<and>
      list_all (\<lambda>i. \<not> is_host_line msg (length msg) i)
        [0..<length m + length path + length headers + 2])"

lemma ch_space: "ch CHR '' '' = SP"
  by (simp add: ch_def SP_def)

lemma length_host_label [simp]: "length host_label = 6"
  by (simp add: host_label_def)

lemma rd_inside:
  "length pre = p \<Longrightarrow> i < length xs \<Longrightarrow> p + length xs \<le> len \<Longrightarrow> len \<le> 256 \<Longrightarrow>
   rd (pre @ xs @ post) len (p + i) = xs ! i"
  by (auto simp: rd_eq nth_append)

text \<open>A scan over \<open>xs\<close>, whose bytes do not stop it, stops at the byte after it.\<close>

lemma find_byte_append:
  assumes "length pre = p" and "list_all (\<lambda>c. \<not> P c) xs" and "P b" and "length xs < n"
    and "p + length xs < len" and "len \<le> 256"
  shows "find_byte P n (pre @ xs @ b # post) len p = Some (p + length xs)"
proof (rule find_byte_at)
  show "P (rd (pre @ xs @ b # post) len (p + length xs))"
    using rd_append [of "pre @ xs" "p + length xs" len b post] assms by simp
  show "\<not> P (rd (pre @ xs @ b # post) len k)" if "p \<le> k" "k < p + length xs" for k
  proof -
    obtain i where "k = p + i" "i < length xs" using \<open>p \<le> k\<close> \<open>k < p + length xs\<close>
      by (metis le_Suc_ex nat_add_left_cancel_less)
    with assms show ?thesis
      using rd_inside [of pre p i xs len "b # post"] by (simp add: list_all_length)
  qed
qed (use assms in auto)

lemma find_host_at:
  assumes "\<And>k. i \<le> k \<Longrightarrow> k < hi \<Longrightarrow> \<not> is_host_line data len k" and "is_host_line data len hi"
    and "i \<le> hi" and "hi < i + n" and "hi + 6 \<le> len"
  shows "find_host n data len i = Some hi"
  using assms
proof (induction n arbitrary: i)
  case (Suc n)
  show ?case
  proof (cases "i = hi")
    case True
    with Suc.prems show ?thesis by simp
  next
    case False
    with Suc.prems have "\<not> is_host_line data len i" and "find_host n data len (i + 1) = Some hi"
      using Suc.IH [of "i + 1"] by auto
    with Suc.prems show ?thesis by simp
  qed
qed simp

lemma host_label_is_host_line:
  assumes "length pre = p" and "p + 6 \<le> len" and "len \<le> 256"
  shows "is_host_line (pre @ host_label @ post) len p"
  using rd_inside [OF assms(1), of 0 host_label len post] rd_inside [OF assms(1), of 1 host_label len post]
    rd_inside [OF assms(1), of 2 host_label len post] rd_inside [OF assms(1), of 3 host_label len post]
    rd_inside [OF assms(1), of 4 host_label len post] rd_inside [OF assms(1), of 5 host_label len post]
    assms by (simp add: is_host_line_def host_label_def numeral_eq_Suc)

lemma copy_method_complete:
  assumes "data = m @ SP # post" and "length m \<le> 7" and "length m < len" and "len \<le> length data"
    and "length out = 8"
  shows "copy_method data len (length m) out = Some (overwrite m out)"
  using assms by (simp add: copy_method_effect)

lemma copy_path_complete:
  assumes "data = pre @ path @ SP # post" and "length pre = fs + 1"
    and "list_all (\<lambda>c. c \<noteq> SP) path" and "fs + 1 + length path < len" and "len \<le> 256"
    and "len \<le> length data" and "length out = PATH_LEN"
  shows "copy_path data len fs out = Some (overwrite path out)"
proof -
  have "find_byte (\<lambda>c. c = ch CHR '' '') PATH_LEN data len (fs + 1) = Some (fs + 1 + length path)"
    unfolding assms(1) using assms
    by (intro find_byte_append) (auto simp: ch_space PATH_LEN_def)
  then have "copy_path data len fs out =
      copy_bytes_bounded out PATH_LEN data len (fs + 1) (length path)"
    using assms by (simp add: copy_path_def Let_def)
  also have "\<dots> = Some (overwrite (take (length path) (drop (fs + 1) data)) out)"
    using assms by (intro copy_whole) (auto simp: PATH_LEN_def)
  finally show ?thesis using assms by simp
qed

lemma copy_host_complete:
  assumes "data = pre @ host_label @ host @ CR # post" and "length pre = hi"
    and "\<And>k. k < hi \<Longrightarrow> \<not> is_host_line data len k"
    and "list_all (\<lambda>c. c \<noteq> CR \<and> c \<noteq> 0x0A) host" and "hi + 6 + length host < len"
    and "len \<le> 256" and "len \<le> length data" and "length out = HOST_LEN"
  shows "copy_host data len out = Some (overwrite host out)"
proof -
  have "find_host 400 data len 0 = Some hi"
  proof (rule find_host_at)
    show "is_host_line data len hi"
      unfolding assms(1) using assms by (intro host_label_is_host_line) auto
  qed (use assms in auto)
  moreover have "find_byte (\<lambda>c. c = 0x0D \<or> c = 0x0A) HOST_LEN data len (hi + 6) =
      Some (hi + 6 + length host)"
    using find_byte_append [of "pre @ host_label" "hi + 6" "\<lambda>c. c = 0x0D \<or> c = 0x0A" host CR
        HOST_LEN len post] assms
    by (simp add: HOST_LEN_def CR_def)
  ultimately have "copy_host data len out =
      copy_bytes_bounded out HOST_LEN data len (hi + 6) (length host)"
    using assms by (simp add: copy_host_def Let_def)
  also have "\<dots> = Some (overwrite (take (length host) (drop (hi + 6) data)) out)"
    using assms by (intro copy_whole) (auto simp: HOST_LEN_def)
  finally show ?thesis using assms by simp
qed

lemma parse_http_complete:
  assumes "request_ok m path headers host rest" and "http_wf out"
  shows "parse_http_request (enc_request m path headers host rest @ pad)
       (length (enc_request m path headers host rest)) out =
     Some \<lparr>ho_host = overwrite host (ho_host out), ho_method = overwrite m (ho_method out),
           ho_path = overwrite path (ho_path out), ho_has_http = 1\<rparr>"
proof -
  let ?msg = "enc_request m path headers host rest"
  let ?data = "?msg @ pad" and ?len = "length ?msg"
  let ?hi = "length m + length path + length headers + 2"
  note ok = assms(1) [unfolded request_ok_def Let_def TLS_SCRATCH_LEN_def]
  have len: "?len = ?hi + 7 + length host + length rest" by (simp add: enc_request_def)
  have d1: "?data = m @ SP # (path @ [SP] @ headers @ host_label @ host @ [CR] @ rest @ pad)"
    by (simp add: enc_request_def)
  have d2: "?data = (m @ [SP]) @ path @ SP # (headers @ host_label @ host @ [CR] @ rest @ pad)"
    by (simp add: enc_request_def)
  have d3: "?data = (m @ [SP] @ path @ [SP] @ headers) @ host_label @ host @ CR # (rest @ pad)"
    by (simp add: enc_request_def)
  have mi: "rd ?data ?len i = m ! i" if "i < 3" for i
    using that ok len by (simp add: rd_eq d1 nth_append)
  have fs: "find_byte (\<lambda>c. c = ch CHR '' '') TLS_SCRATCH_LEN ?data ?len 0 = Some (length m)"
    using find_byte_append [of "[]" 0 "\<lambda>c. c = ch CHR '' ''" m SP TLS_SCRATCH_LEN ?len] ok len
    by (simp add: d1 ch_space TLS_SCRATCH_LEN_def)
  have cm: "copy_method ?data ?len (length m) (ho_method out) = Some (overwrite m (ho_method out))"
    using ok len assms(2) by (intro copy_method_complete [OF d1]) (auto simp: http_wf_def)
  have cp: "copy_path ?data ?len (length m) (ho_path out) = Some (overwrite path (ho_path out))"
    using ok len assms(2) by (intro copy_path_complete [OF d2]) (auto simp: http_wf_def)
  have nh: "\<not> is_host_line ?data ?len k" if "k < ?hi" for k
  proof -
    have "\<forall>i\<in>set [0..<?hi]. \<not> is_host_line ?msg ?len i"
      using ok unfolding list_all_iff by blast
    moreover have "k \<in> set [0..<?hi]"
      using that by (simp only: set_upt atLeastLessThan_iff le0 simp_thms)
    ultimately have "\<not> is_host_line ?msg ?len k" by blast
    moreover have "take ?len ?data = ?msg" by simp
    ultimately show ?thesis by (metis is_host_line_take)
  qed
  have chost: "copy_host ?data ?len (ho_host out) = Some (overwrite host (ho_host out))"
    using ok len assms(2) nh by (intro copy_host_complete [OF d3, of ?hi]) (auto simp: http_wf_def)
  have "\<not> ?len < 4" using len by simp
  with mi [of 0] mi [of 1] mi [of 2] ok fs cm cp chost show ?thesis
    by (simp add: parse_http_request_def Let_def)
qed

subsection \<open>Status line\<close>

definition enc_status :: "bytes \<Rightarrow> u8 \<Rightarrow> u8 \<Rightarrow> u8 \<Rightarrow> bytes \<Rightarrow> bytes" where
  "enc_status version a b c rest = map ch ''HTTP/'' @ version @ [SP, a, b, c] @ rest"

lemma parse_status_complete:
  assumes "list_all (\<lambda>x. x \<noteq> SP) version" and "is_digit a" and "is_digit b" and "is_digit c"
    and "12 \<le> length (enc_status version a b c rest)"
    and "length (enc_status version a b c rest) \<le> TLS_SCRATCH_LEN"
  shows "unat (parse_http_status (enc_status version a b c rest @ pad)
       (length (enc_status version a b c rest))) =
     100 * (unat a - 48) + 10 * (unat b - 48) + (unat c - 48)"
proof -
  let ?msg = "enc_status version a b c rest"
  let ?data = "?msg @ pad" and ?len = "length ?msg" and ?v = "5 + length version"
  have len: "?len = 9 + length version + length rest" "?len \<le> 256"
    using assms(6) by (simp_all add: enc_status_def TLS_SCRATCH_LEN_def)
  have d: "?data = map ch ''HTTP/'' @ version @ SP # ([a, b, c] @ rest @ pad)"
    by (simp add: enc_status_def)
  have pre: "rd ?data ?len i = map ch ''HTTP/'' ! i" if "i < 5" for i
    using rd_inside [of "[]" 0 i "map ch ''HTTP/''" ?len "version @ SP # ([a, b, c] @ rest @ pad)"]
      that len by (simp add: d)
  have sp: "find_byte (\<lambda>c. c = ch CHR '' '') (TLS_SCRATCH_LEN - 5) ?data ?len 5 = Some ?v"
    using find_byte_append [of "map ch ''HTTP/''" 5 "\<lambda>c. c = ch CHR '' ''" version SP
        "TLS_SCRATCH_LEN - 5" ?len] assms(1) len
    by (simp add: d ch_space TLS_SCRATCH_LEN_def)
  have dig: "rd ?data ?len (?v + 1 + i) = [a, b, c] ! i" if "i < 3" for i
    using rd_inside [of "map ch ''HTTP/'' @ version @ [SP]" "?v + 1" i "[a, b, c]" ?len "rest @ pad"]
      that len by (simp add: d)
  have ds: "rd ?data ?len (?v + 1) = a" "rd ?data ?len (?v + 1 + 1) = b" "rd ?data ?len (?v + 1 + 2) = c"
    using dig [of 0] dig [of 1] dig [of 2] by simp_all
  have "parse_http_status ?data ?len =
      ucast (a - ch CHR ''0'') * 100 + ucast (b - ch CHR ''0'') * 10 + ucast (c - ch CHR ''0'')"
    unfolding parse_http_status_def Let_def sp option.case ds
    using pre [of 0] pre [of 1] pre [of 2] pre [of 3] pre [of 4] assms len
    by simp
  then show ?thesis using status_value [OF assms(2-4)] by simp
qed

end
