(* ===== verification/Kernel.thy ===== *)
theory Kernel
  imports Types
begin

text \<open>
  The state the eBPF programs share (the \<^verbatim>\<open>#[map]\<close> statics of
  \<^verbatim>\<open>flow-sensor-ebpf/src/maps.rs\<close> and \<^verbatim>\<open>tls.rs\<close>) and everything one probe invocation asks
  the kernel for. The kernel and the \<^verbatim>\<open>aya\<close> wrappers are not part of the sources: what
  they answer during one invocation is the parameter \<open>kcalls\<close>, the probe's registers are
  the parameter \<open>probe\<close>, and \<open>kern_ok\<close> collects the documented behaviour the programs rely on.
\<close>

subsection \<open>BPF map operations\<close>

text \<open>
  \<^verbatim>\<open>insert\<close> (flags \<^verbatim>\<open>BPF_ANY\<close>) and \<^verbatim>\<open>remove\<close> answer with an error code or the new map
  contents; a failing call leaves the map as it was.
\<close>

record ('k, 'v) bpf_ops =
  op_insert :: "('k \<rightharpoonup> 'v) \<Rightarrow> 'k \<Rightarrow> 'v \<Rightarrow> ('k \<rightharpoonup> 'v) result"
  op_remove :: "('k \<rightharpoonup> 'v) \<Rightarrow> 'k \<Rightarrow> ('k \<rightharpoonup> 'v) result"

definition remove_ok :: "('k, 'v) bpf_ops \<Rightarrow> bool" where
  "remove_ok ops \<longleftrightarrow> (\<forall>m k m'. op_remove ops m k = Inr m' \<longrightarrow> m' = m(k := None))"

text \<open>\<^verbatim>\<open>BPF_MAP_TYPE_HASH\<close>: a successful insert changes that key only.\<close>

definition hash_ok :: "('k, 'v) bpf_ops \<Rightarrow> bool" where
  "hash_ok ops \<longleftrightarrow>
     (\<forall>m k v m'. op_insert ops m k v = Inr m' \<longrightarrow> m' = m(k \<mapsto> v)) \<and> remove_ok ops"

text \<open>\<^verbatim>\<open>BPF_MAP_TYPE_LRU_HASH\<close>: a successful insert may evict other keys.\<close>

definition lru_ok :: "('k, 'v) bpf_ops \<Rightarrow> bool" where
  "lru_ok ops \<longleftrightarrow>
     (\<forall>m k v m'. op_insert ops m k v = Inr m' \<longrightarrow>
        m' k = Some v \<and> (\<forall>k'. k' \<noteq> k \<longrightarrow> m' k' = m k' \<or> m' k' = None)) \<and> remove_ok ops"

text \<open>\<^verbatim>\<open>let _ = MAP.insert(..)\<close> and \<^verbatim>\<open>let _ = MAP.remove(..)\<close>: the error is dropped.\<close>

definition insert_ignore :: "('k, 'v) bpf_ops \<Rightarrow> ('k \<rightharpoonup> 'v) \<Rightarrow> 'k \<Rightarrow> 'v \<Rightarrow> ('k \<rightharpoonup> 'v)" where
  "insert_ignore ops m k v = (case op_insert ops m k v of Inl _ \<Rightarrow> m | Inr m' \<Rightarrow> m')"

definition remove_ignore :: "('k, 'v) bpf_ops \<Rightarrow> ('k \<rightharpoonup> 'v) \<Rightarrow> 'k \<Rightarrow> ('k \<rightharpoonup> 'v)" where
  "remove_ignore ops m k = (case op_remove ops m k of Inl _ \<Rightarrow> m | Inr m' \<Rightarrow> m')"

lemma hash_insert_ignore:
  "hash_ok ops \<Longrightarrow> insert_ignore ops m k v = m \<or> insert_ignore ops m k v = m(k \<mapsto> v)"
  by (auto simp: insert_ignore_def hash_ok_def split: sum.splits)

lemma remove_ignore_cases:
  "remove_ok ops \<Longrightarrow> remove_ignore ops m k = m \<or> remove_ignore ops m k = m(k := None)"
  by (auto simp: remove_ignore_def remove_ok_def split: sum.splits)

lemma hash_ok_remove [simp]: "hash_ok ops \<Longrightarrow> remove_ok ops"
  by (simp add: hash_ok_def)

lemma lru_ok_remove [simp]: "lru_ok ops \<Longrightarrow> remove_ok ops"
  by (simp add: lru_ok_def)

subsection \<open>One probe invocation\<close>

text \<open>
  \<open>kc_ktime n\<close> is the \<open>n\<close>-th reading of \<^verbatim>\<open>bpf_ktime_get_ns\<close> in the invocation, \<open>kc_comm\<close>
  the buffer \<^verbatim>\<open>bpf_get_current_comm\<close> fills (\<open>None\<close> for a negative return), \<open>kc_kread\<close> and
  \<open>kc_uread\<close> the probe reads of kernel and user memory, \<open>kc_uread_fault\<close> what a faulting
  user read leaves in the destination, \<open>kc_ring_reserve\<close> the (uninitialised) ring buffer
  entry, and the remaining fields the operations of each map.
\<close>

record kcalls =
  kc_pid_tgid :: u64
  kc_uid_gid :: u64
  kc_ktime :: "nat \<Rightarrow> u64"
  kc_comm :: "bytes option"
  kc_kread :: "u64 \<Rightarrow> nat \<Rightarrow> bytes result"
  kc_uread :: "u64 \<Rightarrow> nat \<Rightarrow> bytes result"
  kc_uread_fault :: "bytes \<Rightarrow> bytes"
  kc_ring_reserve :: "FlowEvent option"
  kc_cpu :: nat
  kc_flow :: "(FlowKey, FlowState) bpf_ops"
  kc_recv :: "(u64, u64) bpf_ops"
  kc_tls :: "(u64, FlowKey) bpf_ops"
  kc_causal :: "(u64, CausalCtx) bpf_ops"
  kc_wargs :: "(u64, SslArgs) bpf_ops"
  kc_rargs :: "(u64, SslArgs) bpf_ops"

text \<open>The results of \<^verbatim>\<open>ctx.arg::<T>(n)\<close> and \<^verbatim>\<open>ctx.ret::<T>()\<close>, at the types the code asks for.\<close>

record probe =
  arg0_ptr :: "u64 option"
  arg1_u64 :: "u64 option"
  arg2_u32 :: "u32 option"
  arg2_usize :: "u64 option"
  ret_ptr :: "u64 option"
  ret_i64 :: "64 word option"
  ret_i32 :: "32 word option"

definition kern_ok :: "kcalls \<Rightarrow> bool" where
  "kern_ok k \<longleftrightarrow>
     (\<forall>c. kc_comm k = Some c \<longrightarrow> length c = COMM_LEN) \<and>
     (\<forall>a n bs. kc_kread k a n = Inr bs \<longrightarrow> length bs = n) \<and>
     (\<forall>a n bs. kc_uread k a n = Inr bs \<longrightarrow> length bs = n) \<and>
     (\<forall>buf. length (kc_uread_fault k buf) = length buf) \<and>
     mono (kc_ktime k) \<and>
     lru_ok (kc_flow k) \<and> hash_ok (kc_recv k) \<and> hash_ok (kc_tls k) \<and>
     hash_ok (kc_causal k) \<and> hash_ok (kc_wargs k) \<and> hash_ok (kc_rargs k)"

lemma kern_okD:
  assumes "kern_ok k"
  shows "\<And>c. kc_comm k = Some c \<Longrightarrow> length c = COMM_LEN"
    and "\<And>a n bs. kc_kread k a n = Inr bs \<Longrightarrow> length bs = n"
    and "\<And>a n bs. kc_uread k a n = Inr bs \<Longrightarrow> length bs = n"
    and "\<And>buf. length (kc_uread_fault k buf) = length buf"
    and "mono (kc_ktime k)"
    and "lru_ok (kc_flow k)" and "hash_ok (kc_recv k)" and "hash_ok (kc_tls k)"
    and "hash_ok (kc_causal k)" and "hash_ok (kc_wargs k)" and "hash_ok (kc_rargs k)"
  using assms by (auto simp: kern_ok_def)

subsection \<open>The shared state\<close>

text \<open>
  \<open>flow_events\<close> is every event submitted to the ring buffer so far, oldest first;
  \<open>tls_uprobe_scratch\<close> holds the \<^verbatim>\<open>data\<close> array of each CPU's scratch entry.
\<close>

record sys =
  flow_events :: "FlowEvent list"
  flow_table :: "FlowKey \<rightharpoonup> FlowState"
  recvmsg_sock :: "u64 \<rightharpoonup> u64"
  tls_thread_flow :: "u64 \<rightharpoonup> FlowKey"
  causal_map :: "u64 \<rightharpoonup> CausalCtx"
  ssl_write_args :: "u64 \<rightharpoonup> SslArgs"
  ssl_read_args :: "u64 \<rightharpoonup> SslArgs"
  tls_uprobe_scratch :: "nat \<rightharpoonup> bytes"

definition init_sys :: "nat \<Rightarrow> sys" where
  "init_sys ncpu = \<lparr>flow_events = [], flow_table = Map.empty, recvmsg_sock = Map.empty,
     tls_thread_flow = Map.empty, causal_map = Map.empty, ssl_write_args = Map.empty,
     ssl_read_args = Map.empty,
     tls_uprobe_scratch = (\<lambda>c. if c < ncpu then Some (replicate TLS_SCRATCH_LEN 0) else None)\<rparr>"

text \<open>\<^verbatim>\<open>if let Some(state) = FLOW_TABLE.get_ptr_mut(&key)\<close> followed by writes through the pointer.\<close>

definition touch :: "FlowKey \<Rightarrow> (FlowState \<Rightarrow> FlowState) \<Rightarrow> (FlowKey \<rightharpoonup> FlowState) \<Rightarrow> (FlowKey \<rightharpoonup> FlowState)" where
  "touch key f m = (case m key of None \<Rightarrow> m | Some st \<Rightarrow> m(key \<mapsto> f st))"

definition update_row :: "FlowKey \<Rightarrow> (FlowState \<Rightarrow> FlowState) \<Rightarrow> sys \<Rightarrow> sys" where
  "update_row key f s = s\<lparr>flow_table := touch key f (flow_table s)\<rparr>"

lemma touch_same: "touch key f m key = map_option f (m key)"
  by (simp add: touch_def split: option.splits)

lemma touch_other [simp]: "k \<noteq> key \<Longrightarrow> touch key f m k = m k"
  by (simp add: touch_def split: option.splits)

lemma dom_touch [simp]: "dom (touch key f m) = dom m"
  by (auto simp: touch_def split: option.splits if_splits)

lemma update_row_frame [simp]:
  "flow_events (update_row key f s) = flow_events s"
  "flow_table (update_row key f s) = touch key f (flow_table s)"
  "recvmsg_sock (update_row key f s) = recvmsg_sock s"
  "tls_thread_flow (update_row key f s) = tls_thread_flow s"
  "causal_map (update_row key f s) = causal_map s"
  "ssl_write_args (update_row key f s) = ssl_write_args s"
  "ssl_read_args (update_row key f s) = ssl_read_args s"
  "tls_uprobe_scratch (update_row key f s) = tls_uprobe_scratch s"
  by (simp_all add: update_row_def)

text \<open>Every probe entry point maps the handler's \<^verbatim>\<open>Err(_)\<close> to the return value 0.\<close>

definition probe_ret :: "u32 result \<times> sys \<Rightarrow> u32 \<times> sys" where
  "probe_ret r = (case fst r of Inl _ \<Rightarrow> 0 | Inr v \<Rightarrow> v, snd r)"

lemma snd_probe_ret [simp]: "snd (probe_ret r) = snd r"
  by (simp add: probe_ret_def)

subsection \<open>The contract of a hook that updates one row in place\<close>

text \<open>
  Eleven of the probes do the same thing with the flow table: they derive a key, and if
  that row exists they rewrite it through the pointer. \<open>hkey\<close> is the derived key (\<open>None\<close>
  when the probe gives up before it looks the row up), \<open>hupd\<close> what it writes.
\<close>

locale touch_hook =
  fixes hook :: "kcalls \<Rightarrow> probe \<Rightarrow> sys \<Rightarrow> sys"
    and hkey :: "kcalls \<Rightarrow> probe \<Rightarrow> sys \<Rightarrow> FlowKey option"
    and hupd :: "kcalls \<Rightarrow> probe \<Rightarrow> sys \<Rightarrow> FlowState \<Rightarrow> FlowState"
  assumes hook_table: "flow_table (hook k p s) =
      (case hkey k p s of None \<Rightarrow> flow_table s | Some key \<Rightarrow> touch key (hupd k p s) (flow_table s))"
    and hook_events: "flow_events (hook k p s) = flow_events s"
begin

lemma hook_dom: "dom (flow_table (hook k p s)) = dom (flow_table s)"
  by (simp add: hook_table split: option.split)

lemma hook_other_rows:
  "hkey k p s \<noteq> Some key \<Longrightarrow> flow_table (hook k p s) key = flow_table s key"
  by (auto simp: hook_table split: option.split)

lemma hook_own_row:
  "hkey k p s = Some key \<Longrightarrow> flow_table (hook k p s) key = map_option (hupd k p s) (flow_table s key)"
  by (simp add: hook_table touch_same)

lemma hook_row_cases:
  assumes "flow_table (hook k p s) key = Some st'"
  obtains "flow_table s key = Some st'"
    | st where "hkey k p s = Some key" "flow_table s key = Some st" "st' = hupd k p s st"
  using assms by (cases "hkey k p s = Some key") (auto simp: hook_own_row hook_other_rows)

lemma hook_unknown_flow:
  "\<forall>key. hkey k p s = Some key \<longrightarrow> flow_table s key = None \<Longrightarrow>
   flow_table (hook k p s) = flow_table s"
  by (auto simp: hook_table touch_def split: option.split)

end

end
