(* ===== verification/SockKey.thy ===== *)
theory SockKey
  imports Kernel
begin

text \<open>
  Probe reads of kernel memory (\<^verbatim>\<open>kread.rs\<close>) and the two extractors of the flow key from a
  \<^verbatim>\<open>struct sock *\<close>: \<^verbatim>\<open>flow_key_from_sock\<close> of \<^verbatim>\<open>tcp_lifecycle.rs\<close> and \<^verbatim>\<open>flow_key_from_sk\<close>
  of \<^verbatim>\<open>tcp_quality.rs\<close>. \<open>kr\<close> stands for \<^verbatim>\<open>bpf_probe_read_kernel_buf\<close>.
\<close>

type_synonym kreader = "u64 \<Rightarrow> nat \<Rightarrow> bytes result"

subsection \<open>Fixed-width reads\<close>

definition kread_u8 :: "kreader \<Rightarrow> u64 \<Rightarrow> u8 result" where
  "kread_u8 kr ptr = (case kr ptr 1 of Inl e \<Rightarrow> Inl e | Inr b \<Rightarrow> Inr (b ! 0))"

definition kread_u16_ne :: "kreader \<Rightarrow> u64 \<Rightarrow> u16 result" where
  "kread_u16_ne kr ptr = (case kr ptr 2 of Inl e \<Rightarrow> Inl e | Inr b \<Rightarrow> Inr (u16_from_ne_bytes b))"

definition kread_u32_ne :: "kreader \<Rightarrow> u64 \<Rightarrow> u32 result" where
  "kread_u32_ne kr ptr = (case kr ptr 4 of Inl e \<Rightarrow> Inl e | Inr b \<Rightarrow> Inr (u32_from_ne_bytes b))"

text \<open>\<^verbatim>\<open>.unwrap_or(0)\<close>.\<close>

definition unwrap_or0 :: "('a::zero) result \<Rightarrow> 'a" where
  "unwrap_or0 r = (case r of Inl _ \<Rightarrow> 0 | Inr v \<Rightarrow> v)"

subsection \<open>The two key extractors\<close>

definition flow_key_from_sock :: "kreader \<Rightarrow> u64 \<Rightarrow> FlowKey option" where
  "flow_key_from_sock kr sk =
     (case kread_u32_ne kr (sk + 0x4) of Inl _ \<Rightarrow> None | Inr src_ip \<Rightarrow>
      (case kread_u32_ne kr (sk + 0x0) of Inl _ \<Rightarrow> None | Inr dst_ip \<Rightarrow>
      (case kread_u16_ne kr (sk + 0xC) of Inl _ \<Rightarrow> None | Inr src_port \<Rightarrow>
      (case kread_u16_ne kr (sk + 0xA) of Inl _ \<Rightarrow> None | Inr dst_port \<Rightarrow>
        Some \<lparr>key_src_ip = src_ip, key_dst_ip = dst_ip,
              key_src_port = u16_from_be src_port, key_dst_port = u16_from_be dst_port,
              key_protocol = 6, key_pad = [0, 0, 0]\<rparr>))))"

definition flow_key_from_sk :: "kreader \<Rightarrow> u64 \<Rightarrow> FlowKey option" where
  "flow_key_from_sk kr sk =
     (case kread_u32_ne kr (sk + 0x0) of Inl _ \<Rightarrow> None | Inr dst_ip \<Rightarrow>
      (case kread_u32_ne kr (sk + 0x4) of Inl _ \<Rightarrow> None | Inr src_ip \<Rightarrow>
      (case kread_u16_ne kr (sk + 0xA) of Inl _ \<Rightarrow> None | Inr dst_port \<Rightarrow>
      (case kread_u16_ne kr (sk + 0xC) of Inl _ \<Rightarrow> None | Inr src_port \<Rightarrow>
      (case kread_u8 kr (sk + 0x3) of Inl _ \<Rightarrow> None | Inr protocol \<Rightarrow>
        Some \<lparr>key_src_ip = src_ip, key_dst_ip = dst_ip,
              key_src_port = u16_from_be src_port, key_dst_port = u16_from_be dst_port,
              key_protocol = protocol, key_pad = [0, 0, 0]\<rparr>)))))"

lemmas extract_defs = flow_key_from_sock_def flow_key_from_sk_def
  kread_u32_ne_def kread_u16_ne_def kread_u8_def

subsection \<open>What both extractors promise\<close>

text \<open>
  The addresses and ports are the words at the four offsets, and the three padding bytes
  are zero, so that the kernel's byte-wise comparison of map keys is equality of the fields.
\<close>

locale key_extractor =
  fixes getkey :: "kreader \<Rightarrow> u64 \<Rightarrow> FlowKey option"
  assumes src_ip: "getkey kr sk = Some key \<Longrightarrow> kread_u32_ne kr (sk + 0x4) = Inr (key_src_ip key)"
    and dst_ip: "getkey kr sk = Some key \<Longrightarrow> kread_u32_ne kr sk = Inr (key_dst_ip key)"
    and src_port: "getkey kr sk = Some key \<Longrightarrow>
          kread_u16_ne kr (sk + 0xC) = Inr (u16_from_be (key_src_port key))"
    and dst_port: "getkey kr sk = Some key \<Longrightarrow>
          kread_u16_ne kr (sk + 0xA) = Inr (u16_from_be (key_dst_port key))"
    and pad: "getkey kr sk = Some key \<Longrightarrow> key_pad key = [0, 0, 0]"
begin

lemma agrees_up_to_protocol:
  assumes "getkey kr sk = Some key"
    and "kread_u32_ne kr (sk + 0x4) = Inr (key_src_ip key')"
    and "kread_u32_ne kr sk = Inr (key_dst_ip key')"
    and "kread_u16_ne kr (sk + 0xC) = Inr (u16_from_be (key_src_port key'))"
    and "kread_u16_ne kr (sk + 0xA) = Inr (u16_from_be (key_dst_port key'))"
    and "key_pad key' = [0, 0, 0]"
  shows "key' = key\<lparr>key_protocol := key_protocol key'\<rparr>"
proof -
  from assms src_ip [OF assms(1)] dst_ip [OF assms(1)]
  have "key_src_ip key' = key_src_ip key" and "key_dst_ip key' = key_dst_ip key" by simp_all
  moreover from assms src_port [OF assms(1)] dst_port [OF assms(1)]
  have "u16_from_be (key_src_port key') = u16_from_be (key_src_port key)"
    and "u16_from_be (key_dst_port key') = u16_from_be (key_dst_port key)" by simp_all
  then have "key_src_port key' = key_src_port key" and "key_dst_port key' = key_dst_port key"
    by (metis u16_from_be_involution)+
  ultimately show ?thesis
    using pad [OF assms(1)] assms(6) by (cases key; cases key') simp
qed

end

interpretation sock: key_extractor flow_key_from_sock
  by unfold_locales
    (auto simp: flow_key_from_sock_def u16_from_be_involution split: sum.splits)

interpretation sk: key_extractor flow_key_from_sk
  by unfold_locales
    (auto simp: flow_key_from_sk_def u16_from_be_involution split: sum.splits)

lemma sock_protocol: "flow_key_from_sock kr sk = Some key \<Longrightarrow> key_protocol key = 6"
  by (auto simp: flow_key_from_sock_def split: sum.splits)

lemma sk_protocol:
  "flow_key_from_sk kr sk = Some key \<Longrightarrow> kread_u8 kr (sk + 0x3) = Inr (key_protocol key)"
  by (auto simp: flow_key_from_sk_def split: sum.splits)

subsection \<open>Coherent kernel memory\<close>

text \<open>All reads of one invocation see the same memory \<open>mem\<close>.\<close>

definition kread_coherent :: "kreader \<Rightarrow> (u64 \<Rightarrow> u8) \<Rightarrow> bool" where
  "kread_coherent kr mem \<longleftrightarrow>
     (\<forall>a n bs. kr a n = Inr bs \<longrightarrow> bs = map (\<lambda>i. mem (a + of_nat i)) [0..<n])"

lemma coherent_u8:
  assumes "kread_coherent kr mem" and "kread_u8 kr a = Inr b"
  shows "b = mem a"
proof -
  from assms(2) obtain bs where "kr a 1 = Inr bs" and "b = bs ! 0"
    by (auto simp: kread_u8_def split: sum.splits)
  moreover from this(1) assms(1) have "bs = map (\<lambda>i. mem (a + of_nat i)) [0..<1]"
    unfolding kread_coherent_def by blast
  ultimately show ?thesis by simp
qed

lemma coherent_u32:
  assumes "kread_coherent kr mem" and "kread_u32_ne kr a = Inr w"
  shows "w = u32_from_ne_bytes [mem a, mem (a + 1), mem (a + 2), mem (a + 3)]"
proof -
  from assms(2) obtain bs where "kr a 4 = Inr bs" and w: "w = u32_from_ne_bytes bs"
    by (auto simp: kread_u32_ne_def split: sum.splits)
  with assms(1) have "bs = map (\<lambda>i. mem (a + of_nat i)) [0..<4]"
    by (auto simp: kread_coherent_def)
  also have "[0..<4] = [0, 1, 2, 3]" by (simp add: upt_rec)
  finally show ?thesis by (simp add: w)
qed

text \<open>
  The byte \<^verbatim>\<open>flow_key_from_sk\<close> takes for the protocol is the last octet of the destination
  address, which the same function reads as four bytes from offset 0.
\<close>

lemma sk_protocol_is_dst_octet:
  assumes "kread_coherent kr mem" and "flow_key_from_sk kr sk = Some key"
  shows "key_protocol key = byte_of 3 (key_dst_ip key)"
proof -
  have "key_protocol key = mem (sk + 3)"
    using coherent_u8 [OF assms(1) sk_protocol [OF assms(2)]] by simp
  also have "\<dots> = byte_of 3 (key_dst_ip key)"
    using coherent_u32 [OF assms(1) sk.dst_ip [OF assms(2)]]
    by (simp add: byte_of_from_ne_bytes)
  finally show ?thesis .
qed

lemma extractors_agree_up_to_protocol:
  assumes "flow_key_from_sock kr sk = Some key" and "flow_key_from_sk kr sk = Some key'"
  shows "key' = key\<lparr>key_protocol := key_protocol key'\<rparr>"
  using assms(1) by (rule sock.agrees_up_to_protocol)
    (simp_all add: sk.src_ip [OF assms(2)] sk.dst_ip [OF assms(2)] sk.src_port [OF assms(2)]
      sk.dst_port [OF assms(2)] sk.pad [OF assms(2)])

end
