(* ===== verification/Lifecycle.thy ===== *)
theory Lifecycle
  imports SockKey
begin

text \<open>
  \<^verbatim>\<open>flow-sensor-ebpf/src/tcp_lifecycle.rs\<close>: connect and accept open a row of the flow
  table, close turns the row into a \<^verbatim>\<open>FlowEvent\<close> and removes it, and the send, receive and
  reset hooks update the row in between. Each handler returns its \<^verbatim>\<open>Result<u32, i64>\<close> and
  the new state; the probe entry points drop the error.
\<close>

subsection \<open>Opening a row\<close>

definition set_comm_in_state :: "kcalls \<Rightarrow> FlowState \<Rightarrow> FlowState" where
  "set_comm_in_state k st = (case kc_comm k of None \<Rightarrow> st | Some comm \<Rightarrow> st\<lparr>st_comm := comm\<rparr>)"

definition fill_new_flow_state ::
  "kcalls \<Rightarrow> (u64 \<rightharpoonup> CausalCtx) \<Rightarrow> u8 \<Rightarrow> FlowState \<Rightarrow> FlowState" where
  "fill_new_flow_state k causal direction st =
     (let pid_tgid = kc_pid_tgid k;
          uid_gid = kc_uid_gid k;
          now = kc_ktime k 0;
          st = set_comm_in_state k st;
          (chain_id, parent_chain_id, chain_depth) =
            (case causal pid_tgid of
               Some ctx \<Rightarrow> (cc_chain_id ctx, cc_parent_chain_id ctx, cc_depth ctx)
             | None \<Rightarrow> (now, 0, 0))
      in st\<lparr>
        st_pid := ucast (drop_bit 32 pid_tgid),
        st_ppid := 0,
        st_uid := ucast uid_gid,
        st_gid := ucast (drop_bit 32 uid_gid),
        st_direction := direction,
        st_bytes_sent := 0,
        st_bytes_recv := 0,
        st_pkts_sent := 0,
        st_pkts_recv := 0,
        st_srtt_us_min := U32_MAX,
        st_srtt_us_max := 0,
        st_srtt_us_last := 0,
        st_rttvar_us_max := 0,
        st_cwnd_min := U32_MAX,
        st_cwnd_max := 0,
        st_ecn_signals := 0,
        st_retransmit_count := 0,
        st_retransmit_bytes := 0,
        st_retransmit_rto_count := 0,
        st_retransmit_fast_count := 0,
        st_retransmit_tlp_count := 0,
        st_sack_blocks_received := 0,
        st_http_status := 0,
        st_has_tls := 0,
        st_has_http := 0,
        st_ssl_write_ts_ns := 0,
        st_connect_ts_ns := now,
        st_first_byte_ts_ns := 0,
        st_first_recv_ts_ns := 0,
        st_tls_ready_ts_ns := 0,
        st_chain_id := chain_id,
        st_parent_chain_id := parent_chain_id,
        st_chain_depth := chain_depth,
        st_congestion_state_final := 0\<rparr>)"

definition init_flow_row :: "kcalls \<Rightarrow> FlowKey \<Rightarrow> u8 \<Rightarrow> sys \<Rightarrow> unit result \<times> sys" where
  "init_flow_row k key direction s =
     (case op_insert (kc_flow k) (flow_table s) key EMPTY_FLOW_STATE of
        Inl e \<Rightarrow> (Inl e, s)
      | Inr table \<Rightarrow>
          (let s = s\<lparr>flow_table := table\<rparr> in
           case flow_table s key of
             None \<Rightarrow> (Inl (- 1), s)
           | Some st \<Rightarrow>
               (let s = s\<lparr>flow_table :=
                      table(key \<mapsto> fill_new_flow_state k (causal_map s) direction st)\<rparr>
                in if direction = FlowDirection_u8 Outbound
                   then (Inr (), s\<lparr>tls_thread_flow :=
                          insert_ignore (kc_tls k) (tls_thread_flow s) (kc_pid_tgid k) key\<rparr>)
                   else (Inr (), s))))"

definition handle_tcp_connect :: "kcalls \<Rightarrow> probe \<Rightarrow> sys \<Rightarrow> u32 result \<times> sys" where
  "handle_tcp_connect k p s =
     (case arg0_ptr p of None \<Rightarrow> (Inl (- 1), s) | Some sk \<Rightarrow>
      (case flow_key_from_sock (kc_kread k) sk of None \<Rightarrow> (Inl (- 1), s) | Some key \<Rightarrow>
      (case init_flow_row k key (FlowDirection_u8 Outbound) s of
        (Inl e, s) \<Rightarrow> (Inl e, s)
      | (Inr _, s) \<Rightarrow> (Inr 0, s))))"

definition tcp_connect :: "kcalls \<Rightarrow> probe \<Rightarrow> sys \<Rightarrow> u32 \<times> sys" where
  "tcp_connect k p s = probe_ret (handle_tcp_connect k p s)"

definition handle_accept :: "kcalls \<Rightarrow> probe \<Rightarrow> sys \<Rightarrow> u32 result \<times> sys" where
  "handle_accept k p s =
     (case ret_ptr p of None \<Rightarrow> (Inl (- 1), s) | Some sk \<Rightarrow>
      if sk = 0 then (Inr 0, s) else
      (case flow_key_from_sock (kc_kread k) sk of None \<Rightarrow> (Inl (- 1), s) | Some key \<Rightarrow>
      (case init_flow_row k key (FlowDirection_u8 Inbound) s of
        (Inl e, s) \<Rightarrow> (Inl e, s)
      | (Inr _, s) \<Rightarrow> (Inr 0, s))))"

definition inet_csk_accept :: "kcalls \<Rightarrow> probe \<Rightarrow> sys \<Rightarrow> u32 \<times> sys" where
  "inet_csk_accept k p s = probe_ret (handle_accept k p s)"

subsection \<open>Closing: the row becomes an event\<close>

text \<open>The writes through \<^verbatim>\<open>e\<close> into the reserved entry, whatever that entry held before.\<close>

definition fill_event :: "FlowKey \<Rightarrow> FlowState \<Rightarrow> u64 \<Rightarrow> FlowEvent \<Rightarrow> FlowEvent" where
  "fill_event key state now e = e\<lparr>
     ev_pid := st_pid state,
     ev_ppid := st_ppid state,
     ev_uid := st_uid state,
     ev_gid := st_gid state,
     ev_comm := st_comm state,
     ev_cgroup := st_cgroup state,
     ev_src_ip := key_src_ip key,
     ev_dst_ip := key_dst_ip key,
     ev_src_port := key_src_port key,
     ev_dst_port := key_dst_port key,
     ev_protocol := key_protocol key,
     ev_direction := st_direction state,
     ev_bytes_sent := st_bytes_sent state,
     ev_bytes_recv := st_bytes_recv state,
     ev_pkts_sent := st_pkts_sent state,
     ev_pkts_recv := st_pkts_recv state,
     ev_srtt_us_min := (if st_srtt_us_min state = U32_MAX then 0 else st_srtt_us_min state),
     ev_srtt_us_max := st_srtt_us_max state,
     ev_srtt_us_final := st_srtt_us_last state,
     ev_rttvar_us_max := st_rttvar_us_max state,
     ev_retransmit_count := st_retransmit_count state,
     ev_retransmit_bytes := st_retransmit_bytes state,
     ev_retransmit_rto_count := st_retransmit_rto_count state,
     ev_retransmit_fast_count := st_retransmit_fast_count state,
     ev_retransmit_tlp_count := st_retransmit_tlp_count state,
     ev_sack_blocks_received := st_sack_blocks_received state,
     ev_cwnd_min := (if st_cwnd_min state = U32_MAX then 0 else st_cwnd_min state),
     ev_cwnd_max := st_cwnd_max state,
     ev_ecn_signals := st_ecn_signals state,
     ev_tls_sni := st_tls_sni state,
     ev_http_host := st_http_host state,
     ev_http_method := st_http_method state,
     ev_http_path := st_http_path state,
     ev_http_status := st_http_status state,
     ev_has_tls := st_has_tls state,
     ev_has_http := st_has_http state,
     ev_connect_ts_ns := st_connect_ts_ns state,
     ev_first_byte_ts_ns := st_first_byte_ts_ns state,
     ev_first_recv_ts_ns := st_first_recv_ts_ns state,
     ev_close_ts_ns := now,
     ev_duration_ns := saturating_sub now (st_connect_ts_ns state),
     ev_time_to_first_byte_ns := saturating_sub (st_first_byte_ts_ns state) (st_connect_ts_ns state),
     ev_tls_handshake_ns := (if 0 < st_tls_ready_ts_ns state
        then saturating_sub (st_tls_ready_ts_ns state) (st_connect_ts_ns state) else 0),
     ev_app_response_time_ns := (if 0 < st_first_recv_ts_ns state \<and> 0 < st_ssl_write_ts_ns state
        then saturating_sub (st_first_recv_ts_ns state) (st_ssl_write_ts_ns state) else 0),
     ev_close_reason := CloseReason_u8 LocalClose,
     ev_congestion_state_final := st_congestion_state_final state,
     ev_chain_id := st_chain_id state,
     ev_parent_chain_id := st_parent_chain_id state,
     ev_chain_depth := st_chain_depth state\<rparr>"

definition handle_tcp_close :: "kcalls \<Rightarrow> probe \<Rightarrow> sys \<Rightarrow> u32 result \<times> sys" where
  "handle_tcp_close k p s =
     (case arg0_ptr p of None \<Rightarrow> (Inl (- 1), s) | Some sk \<Rightarrow>
      (case flow_key_from_sock (kc_kread k) sk of None \<Rightarrow> (Inl (- 1), s) | Some key \<Rightarrow>
      (case flow_table s key of None \<Rightarrow> (Inr 0, s) | Some state \<Rightarrow>
      (let now = kc_ktime k 0 in
       case kc_ring_reserve k of None \<Rightarrow> (Inr 0, s) | Some entry \<Rightarrow>
       (let s = s\<lparr>flow_events := flow_events s @ [fill_event key state now entry]\<rparr> in
        case op_remove (kc_flow k) (flow_table s) key of
          Inl e \<Rightarrow> (Inl e, s)
        | Inr table \<Rightarrow> (Inr 0, s\<lparr>flow_table := table\<rparr>))))))"

definition tcp_close :: "kcalls \<Rightarrow> probe \<Rightarrow> sys \<Rightarrow> u32 \<times> sys" where
  "tcp_close k p s = probe_ret (handle_tcp_close k p s)"

subsection \<open>Resets\<close>

definition rst_row :: "FlowState \<Rightarrow> FlowState" where
  "rst_row st = st\<lparr>st_congestion_state_final := CloseReason_u8 Reset\<rparr>"

definition handle_rst :: "kcalls \<Rightarrow> probe \<Rightarrow> sys \<Rightarrow> u32 result \<times> sys" where
  "handle_rst k p s =
     (case arg0_ptr p of None \<Rightarrow> (Inl (- 1), s) | Some sk \<Rightarrow>
      (case flow_key_from_sock (kc_kread k) sk of None \<Rightarrow> (Inl (- 1), s) | Some key \<Rightarrow>
        (Inr 0, update_row key rst_row s)))"

definition tcp_send_active_reset :: "kcalls \<Rightarrow> probe \<Rightarrow> sys \<Rightarrow> u32 \<times> sys" where
  "tcp_send_active_reset k p s = probe_ret (handle_rst k p s)"

subsection \<open>Byte and packet counters\<close>

definition sendmsg_row :: "u64 \<Rightarrow> u64 \<Rightarrow> FlowState \<Rightarrow> FlowState" where
  "sendmsg_row len now st =
     (let st = st\<lparr>st_bytes_sent := saturating_add (st_bytes_sent st) len\<rparr>;
          st = st\<lparr>st_pkts_sent := saturating_add (st_pkts_sent st) 1\<rparr>
      in if st_first_byte_ts_ns st = 0 then st\<lparr>st_first_byte_ts_ns := now\<rparr> else st)"

lemma sendmsg_row_eq:
  "sendmsg_row len now st = st\<lparr>
     st_bytes_sent := saturating_add (st_bytes_sent st) len,
     st_pkts_sent := saturating_add (st_pkts_sent st) 1,
     st_first_byte_ts_ns := (if st_first_byte_ts_ns st = 0 then now else st_first_byte_ts_ns st)\<rparr>"
  by (simp add: sendmsg_row_def Let_def conditional_write)

definition handle_sendmsg :: "kcalls \<Rightarrow> probe \<Rightarrow> sys \<Rightarrow> u32 result \<times> sys" where
  "handle_sendmsg k p s =
     (case arg0_ptr p of None \<Rightarrow> (Inl (- 1), s) | Some sk \<Rightarrow>
      (case arg2_usize p of None \<Rightarrow> (Inl (- 1), s) | Some len \<Rightarrow>
      (case flow_key_from_sock (kc_kread k) sk of None \<Rightarrow> (Inl (- 1), s) | Some key \<Rightarrow>
        (Inr 0, update_row key (sendmsg_row len (kc_ktime k 0)) s))))"

definition tcp_sendmsg :: "kcalls \<Rightarrow> probe \<Rightarrow> sys \<Rightarrow> u32 \<times> sys" where
  "tcp_sendmsg k p s = probe_ret (handle_sendmsg k p s)"

definition handle_recvmsg_entry :: "kcalls \<Rightarrow> probe \<Rightarrow> sys \<Rightarrow> u32 result \<times> sys" where
  "handle_recvmsg_entry k p s =
     (let pid_tgid = kc_pid_tgid k in
      case arg0_ptr p of None \<Rightarrow> (Inr 0, s) | Some sk_addr \<Rightarrow>
        (Inr 0, s\<lparr>recvmsg_sock := insert_ignore (kc_recv k) (recvmsg_sock s) pid_tgid sk_addr\<rparr>))"

definition tcp_recvmsg_entry :: "kcalls \<Rightarrow> probe \<Rightarrow> sys \<Rightarrow> u32 \<times> sys" where
  "tcp_recvmsg_entry k p s = probe_ret (handle_recvmsg_entry k p s)"

definition recvmsg_row :: "u64 \<Rightarrow> u64 \<Rightarrow> FlowState \<Rightarrow> FlowState" where
  "recvmsg_row bytes now st =
     (let st = st\<lparr>st_bytes_recv := saturating_add (st_bytes_recv st) bytes\<rparr>;
          st = st\<lparr>st_pkts_recv := saturating_add (st_pkts_recv st) 1\<rparr>
      in if st_first_recv_ts_ns st = 0 then st\<lparr>st_first_recv_ts_ns := now\<rparr> else st)"

lemma recvmsg_row_eq:
  "recvmsg_row bytes now st = st\<lparr>
     st_bytes_recv := saturating_add (st_bytes_recv st) bytes,
     st_pkts_recv := saturating_add (st_pkts_recv st) 1,
     st_first_recv_ts_ns := (if st_first_recv_ts_ns st = 0 then now else st_first_recv_ts_ns st)\<rparr>"
  by (simp add: recvmsg_row_def Let_def conditional_write)

definition forget_sock :: "kcalls \<Rightarrow> sys \<Rightarrow> sys" where
  "forget_sock k s =
     s\<lparr>recvmsg_sock := remove_ignore (kc_recv k) (recvmsg_sock s) (kc_pid_tgid k)\<rparr>"

text \<open>\<^verbatim>\<open>bytes <= 0\<close> is the signed comparison of the \<^verbatim>\<open>i64\<close> return value.\<close>

definition handle_recvmsg :: "kcalls \<Rightarrow> probe \<Rightarrow> sys \<Rightarrow> u32 result \<times> sys" where
  "handle_recvmsg k p s =
     (let pid_tgid = kc_pid_tgid k in
      case ret_i64 p of None \<Rightarrow> (Inr 0, forget_sock k s) | Some bytes \<Rightarrow>
      if sint bytes \<le> 0 then (Inr 0, forget_sock k s) else
      (case recvmsg_sock s pid_tgid of None \<Rightarrow> (Inr 0, s) | Some sk \<Rightarrow>
      (case flow_key_from_sock (kc_kread k) sk of None \<Rightarrow> (Inr 0, forget_sock k s) | Some key \<Rightarrow>
        (Inr 0, forget_sock k (update_row key (recvmsg_row bytes (kc_ktime k 0)) s)))))"

definition tcp_recvmsg :: "kcalls \<Rightarrow> probe \<Rightarrow> sys \<Rightarrow> u32 \<times> sys" where
  "tcp_recvmsg k p s = probe_ret (handle_recvmsg k p s)"

section \<open>What the hooks do to the flow table\<close>

definition sock_key :: "kcalls \<Rightarrow> probe \<Rightarrow> FlowKey option" where
  "sock_key k p = Option.bind (arg0_ptr p) (flow_key_from_sock (kc_kread k))"

definition sendmsg_key :: "kcalls \<Rightarrow> probe \<Rightarrow> FlowKey option" where
  "sendmsg_key k p = (case arg2_usize p of None \<Rightarrow> None | Some _ \<Rightarrow> sock_key k p)"

definition recvmsg_key :: "kcalls \<Rightarrow> probe \<Rightarrow> sys \<Rightarrow> FlowKey option" where
  "recvmsg_key k p s =
     (case ret_i64 p of None \<Rightarrow> None | Some bytes \<Rightarrow>
      if sint bytes \<le> 0 then None
      else Option.bind (recvmsg_sock s (kc_pid_tgid k)) (flow_key_from_sock (kc_kread k)))"

lemma forget_sock_frame [simp]:
  "flow_table (forget_sock k s) = flow_table s"
  "flow_events (forget_sock k s) = flow_events s"
  "causal_map (forget_sock k s) = causal_map s"
  "tls_thread_flow (forget_sock k s) = tls_thread_flow s"
  "tls_uprobe_scratch (forget_sock k s) = tls_uprobe_scratch s"
  by (simp_all add: forget_sock_def)

lemmas lifecycle_defs [hook_defs] = tcp_connect_def handle_tcp_connect_def
  inet_csk_accept_def handle_accept_def tcp_close_def handle_tcp_close_def
  tcp_send_active_reset_def handle_rst_def tcp_sendmsg_def handle_sendmsg_def
  tcp_recvmsg_entry_def handle_recvmsg_entry_def tcp_recvmsg_def handle_recvmsg_def

interpretation rst: touch_hook "\<lambda>k p s. snd (tcp_send_active_reset k p s)"
  "\<lambda>k p s. sock_key k p" "\<lambda>k p s. rst_row"
  by unfold_locales
    (auto simp: tcp_send_active_reset_def handle_rst_def sock_key_def split: option.split)

interpretation sendmsg: touch_hook "\<lambda>k p s. snd (tcp_sendmsg k p s)"
  "\<lambda>k p s. sendmsg_key k p" "\<lambda>k p s. sendmsg_row (the (arg2_usize p)) (kc_ktime k 0)"
  by unfold_locales
    (auto simp: tcp_sendmsg_def handle_sendmsg_def sendmsg_key_def sock_key_def split: option.split)

interpretation recvmsg: touch_hook "\<lambda>k p s. snd (tcp_recvmsg k p s)"
  recvmsg_key "\<lambda>k p s. recvmsg_row (the (ret_i64 p)) (kc_ktime k 0)"
  by unfold_locales
    (auto simp: tcp_recvmsg_def handle_recvmsg_def recvmsg_key_def Let_def split: option.split)

interpretation recvmsg_entry: touch_hook "\<lambda>k p s. snd (tcp_recvmsg_entry k p s)"
  "\<lambda>k p s. None" "\<lambda>k p s st. st"
  by unfold_locales
    (auto simp: tcp_recvmsg_entry_def handle_recvmsg_entry_def Let_def split: option.split)

subsection \<open>Opening hooks\<close>

text \<open>
  \<open>opened\<close>: the key's row is the freshly filled one, and any other row is as before or was
  evicted to make room.
\<close>

definition opened ::
  "kcalls \<Rightarrow> (u64 \<rightharpoonup> CausalCtx) \<Rightarrow> FlowKey \<Rightarrow> u8 \<Rightarrow> (FlowKey \<rightharpoonup> FlowState) \<Rightarrow> (FlowKey \<rightharpoonup> FlowState) \<Rightarrow> bool" where
  "opened k causal key direction m m' \<longleftrightarrow>
     m' key = Some (fill_new_flow_state k causal direction EMPTY_FLOW_STATE) \<and>
     (\<forall>key'. key' \<noteq> key \<longrightarrow> m' key' = m key' \<or> m' key' = None)"

lemma init_flow_row_cases:
  assumes "lru_ok (kc_flow k)" and "init_flow_row k key direction s = (r, s')"
  obtains (failed) e where "r = Inl e" "s' = s"
  | (filled) "r = Inr ()" "opened k (causal_map s) key direction (flow_table s) (flow_table s')"
      "flow_events s' = flow_events s" "causal_map s' = causal_map s"
      "recvmsg_sock s' = recvmsg_sock s" "tls_uprobe_scratch s' = tls_uprobe_scratch s"
      "ssl_write_args s' = ssl_write_args s" "ssl_read_args s' = ssl_read_args s"
      "tls_thread_flow s' =
         (if direction = FlowDirection_u8 Outbound
          then insert_ignore (kc_tls k) (tls_thread_flow s) (kc_pid_tgid k) key
          else tls_thread_flow s)"
proof (cases "op_insert (kc_flow k) (flow_table s) key EMPTY_FLOW_STATE")
  case (Inl e)
  with assms(2) show ?thesis by (intro failed) (auto simp: init_flow_row_def)
next
  case (Inr m)
  with assms(1) have row: "m key = Some EMPTY_FLOW_STATE"
    and rest: "\<And>key'. key' \<noteq> key \<Longrightarrow> m key' = flow_table s key' \<or> m key' = None"
    by (auto simp: lru_ok_def)
  let ?st = "fill_new_flow_state k (causal_map s) direction EMPTY_FLOW_STATE"
  have "opened k (causal_map s) key direction (flow_table s) (m(key \<mapsto> ?st))"
    unfolding opened_def using rest by simp
  with assms(2) Inr row show ?thesis
    by (intro filled) (auto simp: init_flow_row_def Let_def split: if_splits)
qed

locale open_hook =
  fixes hook :: "kcalls \<Rightarrow> probe \<Rightarrow> sys \<Rightarrow> sys"
    and hkey :: "kcalls \<Rightarrow> probe \<Rightarrow> FlowKey option"
    and direction :: u8
  assumes open_cases: "lru_ok (kc_flow k) \<Longrightarrow>
      hook k p s = s \<or>
      (\<exists>key. hkey k p = Some key \<and> flow_events (hook k p s) = flow_events s \<and>
         tls_uprobe_scratch (hook k p s) = tls_uprobe_scratch s \<and>
         causal_map (hook k p s) = causal_map s \<and>
         opened k (causal_map s) key direction (flow_table s) (flow_table (hook k p s)))"
begin

lemma open_own_row:
  assumes "lru_ok (kc_flow k)" and "hook k p s \<noteq> s" and "hkey k p = Some key"
  shows "flow_table (hook k p s) key =
     Some (fill_new_flow_state k (causal_map s) direction EMPTY_FLOW_STATE)"
  using open_cases [OF assms(1), of p s] assms(2,3) by (auto simp: opened_def)

lemma open_other_rows:
  assumes "lru_ok (kc_flow k)" and "hkey k p \<noteq> Some key"
  shows "flow_table (hook k p s) key = flow_table s key \<or> flow_table (hook k p s) key = None"
  using open_cases [OF assms(1), of p s] assms(2) unfolding opened_def by metis

end

definition accept_key :: "kcalls \<Rightarrow> probe \<Rightarrow> FlowKey option" where
  "accept_key k p =
     Option.bind (ret_ptr p) (\<lambda>sk. if sk = 0 then None else flow_key_from_sock (kc_kread k) sk)"

interpretation connect: open_hook "\<lambda>k p s. snd (tcp_connect k p s)" sock_key
  "FlowDirection_u8 Outbound"
proof
  fix k :: kcalls and p :: probe and s :: sys
  assume ok: "lru_ok (kc_flow k)"
  show "snd (tcp_connect k p s) = s \<or>
      (\<exists>key. sock_key k p = Some key \<and> flow_events (snd (tcp_connect k p s)) = flow_events s \<and>
         tls_uprobe_scratch (snd (tcp_connect k p s)) = tls_uprobe_scratch s \<and>
         causal_map (snd (tcp_connect k p s)) = causal_map s \<and>
         opened k (causal_map s) key (FlowDirection_u8 Outbound) (flow_table s)
           (flow_table (snd (tcp_connect k p s))))"
  proof (cases "sock_key k p")
    case None
    then show ?thesis
      by (auto simp: tcp_connect_def handle_tcp_connect_def sock_key_def split: option.split)
  next
    case (Some key)
    obtain r s' where init: "init_flow_row k key (FlowDirection_u8 Outbound) s = (r, s')" by fastforce
    with Some have s': "snd (tcp_connect k p s) = s'"
      by (auto simp: tcp_connect_def handle_tcp_connect_def sock_key_def bind_eq_Some_conv
          split: sum.split)
    from ok init show ?thesis
      by (cases rule: init_flow_row_cases) (simp_all only: s' Some, auto)
  qed
qed

interpretation accept: open_hook "\<lambda>k p s. snd (inet_csk_accept k p s)" accept_key
  "FlowDirection_u8 Inbound"
proof
  fix k :: kcalls and p :: probe and s :: sys
  assume ok: "lru_ok (kc_flow k)"
  show "snd (inet_csk_accept k p s) = s \<or>
      (\<exists>key. accept_key k p = Some key \<and> flow_events (snd (inet_csk_accept k p s)) = flow_events s \<and>
         tls_uprobe_scratch (snd (inet_csk_accept k p s)) = tls_uprobe_scratch s \<and>
         causal_map (snd (inet_csk_accept k p s)) = causal_map s \<and>
         opened k (causal_map s) key (FlowDirection_u8 Inbound) (flow_table s)
           (flow_table (snd (inet_csk_accept k p s))))"
  proof (cases "accept_key k p")
    case None
    then show ?thesis
      by (auto simp: inet_csk_accept_def handle_accept_def accept_key_def split: option.split)
  next
    case (Some key)
    obtain r s' where init: "init_flow_row k key (FlowDirection_u8 Inbound) s = (r, s')" by fastforce
    with Some have s': "snd (inet_csk_accept k p s) = s'"
      by (auto simp: inet_csk_accept_def handle_accept_def accept_key_def bind_eq_Some_conv
          split: sum.split if_splits)
    from ok init show ?thesis
      by (cases rule: init_flow_row_cases) (simp_all only: s' Some, auto)
  qed
qed

lemma sock_key_protocol: "sock_key k p = Some key \<Longrightarrow> key_protocol key = 6"
  by (auto simp: sock_key_def bind_eq_Some_conv sock_protocol)

lemma accept_key_protocol: "accept_key k p = Some key \<Longrightarrow> key_protocol key = 6"
  by (auto simp: accept_key_def bind_eq_Some_conv sock_protocol split: if_splits)

subsection \<open>The closing hook\<close>

lemma tcp_close_cases:
  assumes "remove_ok (kc_flow k)"
  obtains (idle) "snd (tcp_close k p s) = s"
  | (emit) key st entry m where "sock_key k p = Some key" "flow_table s key = Some st"
      "kc_ring_reserve k = Some entry"
      "snd (tcp_close k p s) =
         s\<lparr>flow_events := flow_events s @ [fill_event key st (kc_ktime k 0) entry], flow_table := m\<rparr>"
      "m = flow_table s \<or> m = (flow_table s)(key := None)"
proof -
  consider "snd (tcp_close k p s) = s" | key st entry where "sock_key k p = Some key"
      "flow_table s key = Some st" "kc_ring_reserve k = Some entry"
  proof (cases "sock_key k p")
    case None
    then show ?thesis
      by (intro that(1)) (auto simp: tcp_close_def handle_tcp_close_def sock_key_def split: option.split)
  next
    case (Some key)
    show ?thesis
    proof (cases "flow_table s key = None \<or> kc_ring_reserve k = None")
      case True
      with Some show ?thesis
        by (intro that(1)) (auto simp: tcp_close_def handle_tcp_close_def sock_key_def Let_def
            bind_eq_Some_conv split: option.split)
    next
      case False
      with Some show ?thesis using that(2) by auto
    qed
  qed
  then show ?thesis
  proof cases
    case 2
    let ?s = "s\<lparr>flow_events := flow_events s @ [fill_event key st (kc_ktime k 0) entry]\<rparr>"
    from 2 have "snd (tcp_close k p s) =
        (case op_remove (kc_flow k) (flow_table s) key of
           Inl e \<Rightarrow> ?s | Inr m \<Rightarrow> ?s\<lparr>flow_table := m\<rparr>)"
      by (auto simp: tcp_close_def handle_tcp_close_def sock_key_def Let_def bind_eq_Some_conv
          split: sum.split)
    moreover have "m = (flow_table s)(key := None)"
      if "op_remove (kc_flow k) (flow_table s) key = Inr m" for m
      using that assms by (simp add: remove_ok_def)
    ultimately show ?thesis
      using 2 by (cases "op_remove (kc_flow k) (flow_table s) key") (auto intro!: emit [of key st entry])
  qed (rule idle)
qed

text \<open>The fields of the event.\<close>

lemma fill_event_fields [simp]:
  "ev_pid (fill_event key state now e) = st_pid state"
  "ev_ppid (fill_event key state now e) = st_ppid state"
  "ev_uid (fill_event key state now e) = st_uid state"
  "ev_gid (fill_event key state now e) = st_gid state"
  "ev_comm (fill_event key state now e) = st_comm state"
  "ev_cgroup (fill_event key state now e) = st_cgroup state"
  "ev_src_ip (fill_event key state now e) = key_src_ip key"
  "ev_dst_ip (fill_event key state now e) = key_dst_ip key"
  "ev_src_port (fill_event key state now e) = key_src_port key"
  "ev_dst_port (fill_event key state now e) = key_dst_port key"
  "ev_protocol (fill_event key state now e) = key_protocol key"
  "ev_direction (fill_event key state now e) = st_direction state"
  "ev_bytes_sent (fill_event key state now e) = st_bytes_sent state"
  "ev_bytes_recv (fill_event key state now e) = st_bytes_recv state"
  "ev_pkts_sent (fill_event key state now e) = st_pkts_sent state"
  "ev_pkts_recv (fill_event key state now e) = st_pkts_recv state"
  "ev_srtt_us_min (fill_event key state now e) = (if st_srtt_us_min state = U32_MAX then 0 else st_srtt_us_min state)"
  "ev_srtt_us_max (fill_event key state now e) = st_srtt_us_max state"
  "ev_srtt_us_final (fill_event key state now e) = st_srtt_us_last state"
  "ev_rttvar_us_max (fill_event key state now e) = st_rttvar_us_max state"
  "ev_retransmit_count (fill_event key state now e) = st_retransmit_count state"
  "ev_retransmit_bytes (fill_event key state now e) = st_retransmit_bytes state"
  "ev_retransmit_rto_count (fill_event key state now e) = st_retransmit_rto_count state"
  "ev_retransmit_fast_count (fill_event key state now e) = st_retransmit_fast_count state"
  "ev_retransmit_tlp_count (fill_event key state now e) = st_retransmit_tlp_count state"
  "ev_sack_blocks_received (fill_event key state now e) = st_sack_blocks_received state"
  "ev_cwnd_min (fill_event key state now e) = (if st_cwnd_min state = U32_MAX then 0 else st_cwnd_min state)"
  "ev_cwnd_max (fill_event key state now e) = st_cwnd_max state"
  "ev_ecn_signals (fill_event key state now e) = st_ecn_signals state"
  "ev_tls_sni (fill_event key state now e) = st_tls_sni state"
  "ev_http_host (fill_event key state now e) = st_http_host state"
  "ev_http_method (fill_event key state now e) = st_http_method state"
  "ev_http_path (fill_event key state now e) = st_http_path state"
  "ev_http_status (fill_event key state now e) = st_http_status state"
  "ev_has_tls (fill_event key state now e) = st_has_tls state"
  "ev_has_http (fill_event key state now e) = st_has_http state"
  "ev_connect_ts_ns (fill_event key state now e) = st_connect_ts_ns state"
  "ev_first_byte_ts_ns (fill_event key state now e) = st_first_byte_ts_ns state"
  "ev_first_recv_ts_ns (fill_event key state now e) = st_first_recv_ts_ns state"
  "ev_close_ts_ns (fill_event key state now e) = now"
  "ev_duration_ns (fill_event key state now e) = saturating_sub now (st_connect_ts_ns state)"
  "ev_time_to_first_byte_ns (fill_event key state now e) = saturating_sub (st_first_byte_ts_ns state) (st_connect_ts_ns state)"
  "ev_tls_handshake_ns (fill_event key state now e) = (if 0 < st_tls_ready_ts_ns state then saturating_sub (st_tls_ready_ts_ns state) (st_connect_ts_ns state) else 0)"
  "ev_app_response_time_ns (fill_event key state now e) = (if 0 < st_first_recv_ts_ns state \<and> 0 < st_ssl_write_ts_ns state then saturating_sub (st_first_recv_ts_ns state) (st_ssl_write_ts_ns state) else 0)"
  "ev_close_reason (fill_event key state now e) = CloseReason_u8 LocalClose"
  "ev_congestion_state_final (fill_event key state now e) = st_congestion_state_final state"
  "ev_chain_id (fill_event key state now e) = st_chain_id state"
  "ev_parent_chain_id (fill_event key state now e) = st_parent_chain_id state"
  "ev_chain_depth (fill_event key state now e) = st_chain_depth state"
  by (simp_all add: fill_event_def)

text \<open>Every field of the event is written, so nothing of the reserved memory shows.\<close>

lemma fill_event_total: "fill_event key st now e = fill_event key st now e'"
  by (simp add: fill_event_def)

end
