(* ===== verification/Quality.thy ===== *)
theory Quality
  imports SockKey
begin

text \<open>
  \<^verbatim>\<open>flow-sensor-ebpf/src/tcp_quality.rs\<close>: the per-ACK quality sample and the three
  congestion hooks. All of them find the row by \<^verbatim>\<open>flow_key_from_sk\<close>.
\<close>

definition TCP_SRTT_US_OFFSET :: u64 where "TCP_SRTT_US_OFFSET = 0x1E0"
definition TCP_RTTVAR_US_OFFSET :: u64 where "TCP_RTTVAR_US_OFFSET = 0x1E4"
definition TCP_SND_CWND_OFFSET :: u64 where "TCP_SND_CWND_OFFSET = 0x1AC"
definition TCP_ICSK_CA_STATE_OFFSET :: u64 where "TCP_ICSK_CA_STATE_OFFSET = 0x164"

subsection \<open>The quality sample\<close>

definition quality_row :: "u32 \<Rightarrow> u32 \<Rightarrow> u32 \<Rightarrow> u8 \<Rightarrow> FlowState \<Rightarrow> FlowState" where
  "quality_row srtt_us rttvar_us cwnd ca_state s =
     (let s = (if 0 < srtt_us then
                 let s = (if srtt_us < st_srtt_us_min s then s\<lparr>st_srtt_us_min := srtt_us\<rparr> else s);
                     s = (if st_srtt_us_max s < srtt_us then s\<lparr>st_srtt_us_max := srtt_us\<rparr> else s)
                 in s\<lparr>st_srtt_us_last := srtt_us\<rparr>
               else s);
          s = (if st_rttvar_us_max s < rttvar_us then s\<lparr>st_rttvar_us_max := rttvar_us\<rparr> else s);
          s = (if cwnd < st_cwnd_min s then s\<lparr>st_cwnd_min := cwnd\<rparr> else s);
          s = (if st_cwnd_max s < cwnd then s\<lparr>st_cwnd_max := cwnd\<rparr> else s)
      in s\<lparr>st_congestion_state_final := ca_state\<rparr>)"

text \<open>The sample as one record update.\<close>

lemma quality_row_eq:
  "quality_row srtt rttvar cwnd ca s = s\<lparr>
     st_srtt_us_min := (if 0 < srtt \<and> srtt < st_srtt_us_min s then srtt else st_srtt_us_min s),
     st_srtt_us_max := (if 0 < srtt \<and> st_srtt_us_max s < srtt then srtt else st_srtt_us_max s),
     st_srtt_us_last := (if 0 < srtt then srtt else st_srtt_us_last s),
     st_rttvar_us_max := (if st_rttvar_us_max s < rttvar then rttvar else st_rttvar_us_max s),
     st_cwnd_min := (if cwnd < st_cwnd_min s then cwnd else st_cwnd_min s),
     st_cwnd_max := (if st_cwnd_max s < cwnd then cwnd else st_cwnd_max s),
     st_congestion_state_final := ca\<rparr>"
  by (cases "0 < srtt") (simp_all add: quality_row_def Let_def conditional_write)

definition handle_rcv_established :: "kcalls \<Rightarrow> probe \<Rightarrow> sys \<Rightarrow> u32 result \<times> sys" where
  "handle_rcv_established k p s =
     (case arg0_ptr p of None \<Rightarrow> (Inl (- 1), s) | Some sk \<Rightarrow>
      (case kread_u32_ne (kc_kread k) (sk + TCP_SRTT_US_OFFSET) of Inl e \<Rightarrow> (Inl e, s) | Inr srtt_us_raw \<Rightarrow>
      (case kread_u32_ne (kc_kread k) (sk + TCP_RTTVAR_US_OFFSET) of Inl e \<Rightarrow> (Inl e, s) | Inr rttvar_us_raw \<Rightarrow>
      (case kread_u32_ne (kc_kread k) (sk + TCP_SND_CWND_OFFSET) of Inl e \<Rightarrow> (Inl e, s) | Inr cwnd \<Rightarrow>
      (let srtt_us = drop_bit 3 srtt_us_raw;
           rttvar_us = drop_bit 2 rttvar_us_raw
       in case flow_key_from_sk (kc_kread k) sk of None \<Rightarrow> (Inl (- 1), s) | Some key \<Rightarrow>
          (let ca_state = unwrap_or0 (kread_u8 (kc_kread k) (sk + TCP_ICSK_CA_STATE_OFFSET))
           in (Inr 0, update_row key (quality_row srtt_us rttvar_us cwnd ca_state) s)))))))"

definition tcp_rcv_established :: "kcalls \<Rightarrow> probe \<Rightarrow> sys \<Rightarrow> u32 \<times> sys" where
  "tcp_rcv_established k p s = probe_ret (handle_rcv_established k p s)"

subsection \<open>Congestion signals\<close>

definition ecn_row :: "FlowState \<Rightarrow> FlowState" where
  "ecn_row st = st\<lparr>st_ecn_signals := saturating_add (st_ecn_signals st) 1\<rparr>"

definition handle_ecn :: "kcalls \<Rightarrow> probe \<Rightarrow> sys \<Rightarrow> u32 result \<times> sys" where
  "handle_ecn k p s =
     (case arg0_ptr p of None \<Rightarrow> (Inl (- 1), s) | Some sk \<Rightarrow>
      (case flow_key_from_sk (kc_kread k) sk of None \<Rightarrow> (Inl (- 1), s) | Some key \<Rightarrow>
        (Inr 0, update_row key ecn_row s)))"

definition tcp_enter_cwr :: "kcalls \<Rightarrow> probe \<Rightarrow> sys \<Rightarrow> u32 \<times> sys" where
  "tcp_enter_cwr k p s = probe_ret (handle_ecn k p s)"

definition enter_loss_row :: "FlowState \<Rightarrow> FlowState" where
  "enter_loss_row st = st\<lparr>st_congestion_state_final := CongestionState_u8 Loss\<rparr>"

definition handle_enter_loss :: "kcalls \<Rightarrow> probe \<Rightarrow> sys \<Rightarrow> u32 result \<times> sys" where
  "handle_enter_loss k p s =
     (case arg0_ptr p of None \<Rightarrow> (Inl (- 1), s) | Some sk \<Rightarrow>
      (case flow_key_from_sk (kc_kread k) sk of None \<Rightarrow> (Inl (- 1), s) | Some key \<Rightarrow>
        (Inr 0, update_row key enter_loss_row s)))"

definition tcp_enter_loss :: "kcalls \<Rightarrow> probe \<Rightarrow> sys \<Rightarrow> u32 \<times> sys" where
  "tcp_enter_loss k p s = probe_ret (handle_enter_loss k p s)"

definition enter_recovery_row :: "FlowState \<Rightarrow> FlowState" where
  "enter_recovery_row st = st\<lparr>st_congestion_state_final := CongestionState_u8 Recovery\<rparr>"

definition handle_enter_recovery :: "kcalls \<Rightarrow> probe \<Rightarrow> sys \<Rightarrow> u32 result \<times> sys" where
  "handle_enter_recovery k p s =
     (case arg0_ptr p of None \<Rightarrow> (Inl (- 1), s) | Some sk \<Rightarrow>
      (case flow_key_from_sk (kc_kread k) sk of None \<Rightarrow> (Inl (- 1), s) | Some key \<Rightarrow>
        (Inr 0, update_row key enter_recovery_row s)))"

definition tcp_enter_recovery :: "kcalls \<Rightarrow> probe \<Rightarrow> sys \<Rightarrow> u32 \<times> sys" where
  "tcp_enter_recovery k p s = probe_ret (handle_enter_recovery k p s)"

section \<open>What the hooks do to the flow table\<close>

definition sk_key :: "kcalls \<Rightarrow> probe \<Rightarrow> FlowKey option" where
  "sk_key k p = Option.bind (arg0_ptr p) (flow_key_from_sk (kc_kread k))"

text \<open>The sample of one ACK: shifted round-trip time and variance, window, congestion state.\<close>

definition sample :: "kreader \<Rightarrow> u64 \<Rightarrow> (u32 \<times> u32 \<times> u32 \<times> u8) option" where
  "sample kr sk =
     (case kread_u32_ne kr (sk + TCP_SRTT_US_OFFSET) of Inl _ \<Rightarrow> None | Inr srtt \<Rightarrow>
      (case kread_u32_ne kr (sk + TCP_RTTVAR_US_OFFSET) of Inl _ \<Rightarrow> None | Inr rttvar \<Rightarrow>
      (case kread_u32_ne kr (sk + TCP_SND_CWND_OFFSET) of Inl _ \<Rightarrow> None | Inr cwnd \<Rightarrow>
        Some (drop_bit 3 srtt, drop_bit 2 rttvar, cwnd,
          unwrap_or0 (kread_u8 kr (sk + TCP_ICSK_CA_STATE_OFFSET))))))"

definition quality_key :: "kcalls \<Rightarrow> probe \<Rightarrow> FlowKey option" where
  "quality_key k p =
     Option.bind (arg0_ptr p) (\<lambda>sk. Option.bind (sample (kc_kread k) sk)
       (\<lambda>_. flow_key_from_sk (kc_kread k) sk))"

definition quality_upd :: "kcalls \<Rightarrow> probe \<Rightarrow> FlowState \<Rightarrow> FlowState" where
  "quality_upd k p =
     (case sample (kc_kread k) (the (arg0_ptr p)) of
        None \<Rightarrow> id | Some (srtt, rttvar, cwnd, ca) \<Rightarrow> quality_row srtt rttvar cwnd ca)"

lemma sample_Some:
  assumes "sample kr sk = Some (srtt, rttvar, cwnd, ca)"
  shows "\<exists>a. srtt = drop_bit 3 a" and "\<exists>b. rttvar = drop_bit 2 b"
  using assms by (auto simp: sample_def split: sum.splits)

interpretation quality: touch_hook "\<lambda>k p s. snd (tcp_rcv_established k p s)"
  "\<lambda>k p s. quality_key k p" "\<lambda>k p s. quality_upd k p"
  by unfold_locales
    (auto simp: tcp_rcv_established_def handle_rcv_established_def quality_key_def quality_upd_def
      sample_def Let_def split: option.split sum.split)

interpretation ecn: touch_hook "\<lambda>k p s. snd (tcp_enter_cwr k p s)"
  "\<lambda>k p s. sk_key k p" "\<lambda>k p s. ecn_row"
  by unfold_locales (auto simp: tcp_enter_cwr_def handle_ecn_def sk_key_def split: option.split)

interpretation loss: touch_hook "\<lambda>k p s. snd (tcp_enter_loss k p s)"
  "\<lambda>k p s. sk_key k p" "\<lambda>k p s. enter_loss_row"
  by unfold_locales (auto simp: tcp_enter_loss_def handle_enter_loss_def sk_key_def split: option.split)

interpretation recovery: touch_hook "\<lambda>k p s. snd (tcp_enter_recovery k p s)"
  "\<lambda>k p s. sk_key k p" "\<lambda>k p s. enter_recovery_row"
  by unfold_locales
    (auto simp: tcp_enter_recovery_def handle_enter_recovery_def sk_key_def split: option.split)

lemma quality_key_sk_key: "quality_key k p = Some key \<Longrightarrow> sk_key k p = Some key"
  by (auto simp: quality_key_def sk_key_def bind_eq_Some_conv)

end
