(* ===== verification/Retransmit.thy ===== *)
theory Retransmit
  imports Quality
begin

text \<open>
  \<^verbatim>\<open>flow-sensor-ebpf/src/retransmit.rs\<close>: three probes share one handler, each with the
  reason its attachment point stands for, and one probe counts SACK blocks.
\<close>

definition TCP_SND_UNA_OFFSET :: u64 where "TCP_SND_UNA_OFFSET = 0x188"
definition TCP_SND_NXT_OFFSET :: u64 where "TCP_SND_NXT_OFFSET = 0x18C"

definition retransmit_row :: "RetransmitReason \<Rightarrow> u64 \<Rightarrow> FlowState \<Rightarrow> FlowState" where
  "retransmit_row reason bytes_in_flight s =
     (let s = s\<lparr>st_retransmit_count := saturating_add (st_retransmit_count s) 1\<rparr>;
          s = s\<lparr>st_retransmit_bytes := saturating_add (st_retransmit_bytes s) bytes_in_flight\<rparr>
      in case reason of
           Rto \<Rightarrow> s\<lparr>st_retransmit_rto_count := saturating_add (st_retransmit_rto_count s) 1\<rparr>
         | FastRetransmit \<Rightarrow> s\<lparr>st_retransmit_fast_count := saturating_add (st_retransmit_fast_count s) 1\<rparr>
         | Tlp \<Rightarrow> s\<lparr>st_retransmit_tlp_count := saturating_add (st_retransmit_tlp_count s) 1\<rparr>
         | _ \<Rightarrow> s)"

lemma retransmit_row_eq:
  "retransmit_row reason flight s = s\<lparr>
     st_retransmit_count := saturating_add (st_retransmit_count s) 1,
     st_retransmit_bytes := saturating_add (st_retransmit_bytes s) flight,
     st_retransmit_rto_count := (if reason = Rto then saturating_add (st_retransmit_rto_count s) 1
        else st_retransmit_rto_count s),
     st_retransmit_fast_count := (if reason = FastRetransmit
        then saturating_add (st_retransmit_fast_count s) 1 else st_retransmit_fast_count s),
     st_retransmit_tlp_count := (if reason = Tlp then saturating_add (st_retransmit_tlp_count s) 1
        else st_retransmit_tlp_count s)\<rparr>"
  by (cases reason) (simp_all add: retransmit_row_def Let_def)

text \<open>\<^verbatim>\<open>snd_nxt.wrapping_sub(snd_una) as u64\<close>: sequence numbers wrap at 32 bits.\<close>

definition bytes_in_flight :: "kreader \<Rightarrow> u64 \<Rightarrow> u64" where
  "bytes_in_flight kr sk =
     (let snd_una = unwrap_or0 (kread_u32_ne kr (sk + TCP_SND_UNA_OFFSET));
          snd_nxt = unwrap_or0 (kread_u32_ne kr (sk + TCP_SND_NXT_OFFSET))
      in ucast (snd_nxt - snd_una))"

definition handle_retransmit :: "RetransmitReason \<Rightarrow> kcalls \<Rightarrow> probe \<Rightarrow> sys \<Rightarrow> u32 result \<times> sys" where
  "handle_retransmit reason k p s =
     (case arg0_ptr p of None \<Rightarrow> (Inl (- 1), s) | Some sk \<Rightarrow>
      (case flow_key_from_sk (kc_kread k) sk of None \<Rightarrow> (Inr 0, s) | Some key \<Rightarrow>
        (Inr 0, update_row key (retransmit_row reason (bytes_in_flight (kc_kread k) sk)) s)))"

definition tcp_retransmit_skb :: "kcalls \<Rightarrow> probe \<Rightarrow> sys \<Rightarrow> u32 \<times> sys" where
  "tcp_retransmit_skb k p s = probe_ret (handle_retransmit Rto k p s)"

definition tcp_send_loss_probe :: "kcalls \<Rightarrow> probe \<Rightarrow> sys \<Rightarrow> u32 \<times> sys" where
  "tcp_send_loss_probe k p s = probe_ret (handle_retransmit Tlp k p s)"

definition tcp_fast_retransmit :: "kcalls \<Rightarrow> probe \<Rightarrow> sys \<Rightarrow> u32 \<times> sys" where
  "tcp_fast_retransmit k p s = probe_ret (handle_retransmit FastRetransmit k p s)"

definition sack_row :: "FlowState \<Rightarrow> FlowState" where
  "sack_row st = st\<lparr>st_sack_blocks_received := saturating_add (st_sack_blocks_received st) 1\<rparr>"

definition handle_sack :: "kcalls \<Rightarrow> probe \<Rightarrow> sys \<Rightarrow> u32 result \<times> sys" where
  "handle_sack k p s =
     (case arg0_ptr p of None \<Rightarrow> (Inl (- 1), s) | Some sk \<Rightarrow>
      (case flow_key_from_sk (kc_kread k) sk of None \<Rightarrow> (Inr 0, s) | Some key \<Rightarrow>
        (Inr 0, update_row key sack_row s)))"

definition tcp_sacktag :: "kcalls \<Rightarrow> probe \<Rightarrow> sys \<Rightarrow> u32 \<times> sys" where
  "tcp_sacktag k p s = probe_ret (handle_sack k p s)"

section \<open>What the hooks do to the flow table\<close>

definition retransmit_upd :: "RetransmitReason \<Rightarrow> kcalls \<Rightarrow> probe \<Rightarrow> FlowState \<Rightarrow> FlowState" where
  "retransmit_upd reason k p =
     retransmit_row reason (bytes_in_flight (kc_kread k) (the (arg0_ptr p)))"

lemma handle_retransmit_touch:
  "snd (handle_retransmit reason k p s) =
     (case sk_key k p of None \<Rightarrow> s | Some key \<Rightarrow> update_row key (retransmit_upd reason k p) s)"
  by (auto simp: handle_retransmit_def sk_key_def retransmit_upd_def split: option.split)

interpretation rto: touch_hook "\<lambda>k p s. snd (tcp_retransmit_skb k p s)"
  "\<lambda>k p s. sk_key k p" "\<lambda>k p s. retransmit_upd Rto k p"
  by unfold_locales (auto simp: tcp_retransmit_skb_def handle_retransmit_touch split: option.split)

interpretation tlp: touch_hook "\<lambda>k p s. snd (tcp_send_loss_probe k p s)"
  "\<lambda>k p s. sk_key k p" "\<lambda>k p s. retransmit_upd Tlp k p"
  by unfold_locales (auto simp: tcp_send_loss_probe_def handle_retransmit_touch split: option.split)

interpretation fast: touch_hook "\<lambda>k p s. snd (tcp_fast_retransmit k p s)"
  "\<lambda>k p s. sk_key k p" "\<lambda>k p s. retransmit_upd FastRetransmit k p"
  by unfold_locales (auto simp: tcp_fast_retransmit_def handle_retransmit_touch split: option.split)

interpretation sack: touch_hook "\<lambda>k p s. snd (tcp_sacktag k p s)"
  "\<lambda>k p s. sk_key k p" "\<lambda>k p s. sack_row"
  by unfold_locales (auto simp: tcp_sacktag_def handle_sack_def sk_key_def split: option.split)

end
