(* ===== verification/Causal.thy ===== *)
theory Causal
  imports SockKey
begin

text \<open>
  \<^verbatim>\<open>flow-sensor-ebpf/src/causal.rs\<close>: a new task inherits the causal chain of the task that
  creates it, and an exiting task's entry is removed. \<^verbatim>\<open>depth + 1\<close> wraps at 32 bits (the
  release profile has no overflow checks).
\<close>

definition TASK_PID_OFFSET :: u64 where "TASK_PID_OFFSET = 0x560"

definition parent_ctx :: "kcalls \<Rightarrow> (u64 \<rightharpoonup> CausalCtx) \<Rightarrow> CausalCtx" where
  "parent_ctx k causal =
     (case causal (kc_pid_tgid k) of
        Some c \<Rightarrow> c
      | None \<Rightarrow> \<lparr>cc_chain_id = kc_ktime k 0, cc_parent_chain_id = 0, cc_depth = 0,
          cc_origin_pid = ucast (drop_bit 32 (kc_pid_tgid k)), cc_origin_ts_ns = kc_ktime k 1\<rparr>)"

definition child_ctx :: "CausalCtx \<Rightarrow> CausalCtx" where
  "child_ctx parent =
     \<lparr>cc_chain_id = cc_chain_id parent, cc_parent_chain_id = cc_chain_id parent,
      cc_depth = cc_depth parent + 1, cc_origin_pid = cc_origin_pid parent,
      cc_origin_ts_ns = cc_origin_ts_ns parent\<rparr>"

definition child_key :: "u32 \<Rightarrow> u64" where
  "child_key child_pid = push_bit 32 (ucast child_pid) OR ucast child_pid"

definition handle_new_task :: "kcalls \<Rightarrow> probe \<Rightarrow> sys \<Rightarrow> u32 result \<times> sys" where
  "handle_new_task k p s =
     (let parent = parent_ctx k (causal_map s) in
      case arg0_ptr p of None \<Rightarrow> (Inl (- 1), s) | Some child_task \<Rightarrow>
        (let child_pid = unwrap_or0 (kread_u32_ne (kc_kread k) (child_task + TASK_PID_OFFSET))
         in (Inr 0, s\<lparr>causal_map :=
               insert_ignore (kc_causal k) (causal_map s) (child_key child_pid) (child_ctx parent)\<rparr>)))"

definition on_new_task :: "kcalls \<Rightarrow> probe \<Rightarrow> sys \<Rightarrow> u32 \<times> sys" where
  "on_new_task k p s = probe_ret (handle_new_task k p s)"

definition on_exit :: "kcalls \<Rightarrow> probe \<Rightarrow> sys \<Rightarrow> u32 \<times> sys" where
  "on_exit k p s =
     (0, s\<lparr>causal_map := remove_ignore (kc_causal k) (causal_map s) (kc_pid_tgid k)\<rparr>)"

section \<open>What the hooks do to the flow table\<close>

interpretation new_task: touch_hook "\<lambda>k p s. snd (on_new_task k p s)"
  "\<lambda>k p s. None" "\<lambda>k p s st. st"
  by unfold_locales (auto simp: on_new_task_def handle_new_task_def Let_def split: option.split)

interpretation exiting: touch_hook "\<lambda>k p s. snd (on_exit k p s)"
  "\<lambda>k p s. None" "\<lambda>k p s st. st"
  by unfold_locales (simp_all add: on_exit_def)

section \<open>Chains\<close>

lemma not_bit_u32 [simp]: "32 \<le> n \<Longrightarrow> \<not> bit (x :: u32) n"
  using bit_imp_le_length [of x n] by auto

lemma child_key_halves:
  "drop_bit 32 (child_key pid) = ucast pid" "take_bit 32 (child_key pid) = ucast pid"
proof -
  have b: "bit pid n \<Longrightarrow> n < 32" for n
    using bit_imp_le_length [of pid n] by simp
  show "drop_bit 32 (child_key pid) = ucast pid" "take_bit 32 (child_key pid) = ucast pid"
    unfolding child_key_def by (auto intro!: bit_word_eqI simp: bit_simps dest: b)
qed

lemma child_key_inject: "child_key a = child_key b \<longleftrightarrow> a = b"
proof
  assume "child_key a = child_key b"
  then have "drop_bit 32 (child_key a) = drop_bit 32 (child_key b)" by simp
  then have "(ucast a :: u64) = ucast b" by (simp add: child_key_halves)
  then have eq: "bit (ucast a :: u64) n = bit (ucast b :: u64) n" for n by simp
  show "a = b"
  proof (rule bit_word_eqI)
    fix n assume "n < LENGTH(32)"
    with eq [of n] show "bit a n = bit b n" by (simp add: bit_simps)
  qed
qed simp

text \<open>The entry written for a new task, when the insert succeeds.\<close>

lemma new_task_entry:
  assumes "hash_ok (kc_causal k)" and "arg0_ptr p = Some task"
    and "kread_u32_ne (kc_kread k) (task + TASK_PID_OFFSET) = Inr pid"
    and "op_insert (kc_causal k) (causal_map s) (child_key pid) (child_ctx (parent_ctx k (causal_map s))) = Inr m"
  shows "causal_map (snd (on_new_task k p s)) =
     (causal_map s)(child_key pid \<mapsto> child_ctx (parent_ctx k (causal_map s)))"
  using assms
  by (auto simp: on_new_task_def handle_new_task_def unwrap_or0_def insert_ignore_def hash_ok_def)

end
