(* ===== verification/TlsProbes.thy ===== *)
theory TlsProbes
  imports TlsParse SockKey
begin

text \<open>
  The uprobes of \<^verbatim>\<open>flow-sensor-ebpf/src/tls.rs\<close>: the entry probes of \<^verbatim>\<open>SSL_write\<close> and
  \<^verbatim>\<open>SSL_read\<close> save the call's arguments per thread, the return probes read the plaintext
  into the CPU's scratch entry, parse it, and merge what they find into the row of the
  thread's last outbound flow. A return probe yields \<open>None\<close> when a parser would access
  memory outside its buffers.
\<close>

subsection \<open>Entry probes\<close>

definition ssl_args :: "kcalls \<Rightarrow> u64 \<Rightarrow> u32 \<Rightarrow> SslArgs" where
  "ssl_args k buf_ptr len =
     \<lparr>sa_buf_ptr = buf_ptr, sa_len = len, sa_pad = 0, sa_ts_ns = kc_ktime k 0\<rparr>"

definition handle_ssl_write_entry :: "kcalls \<Rightarrow> probe \<Rightarrow> sys \<Rightarrow> u32 result \<times> sys" where
  "handle_ssl_write_entry k p s =
     (case arg1_u64 p of None \<Rightarrow> (Inl (- 1), s) | Some buf_ptr \<Rightarrow>
      (case arg2_u32 p of None \<Rightarrow> (Inl (- 1), s) | Some len \<Rightarrow>
      (case op_insert (kc_wargs k) (ssl_write_args s) (kc_pid_tgid k) (ssl_args k buf_ptr len) of
         Inl e \<Rightarrow> (Inl e, s)
       | Inr m \<Rightarrow> (Inr 0, s\<lparr>ssl_write_args := m\<rparr>))))"

definition ssl_write_entry :: "kcalls \<Rightarrow> probe \<Rightarrow> sys \<Rightarrow> u32 \<times> sys" where
  "ssl_write_entry k p s = probe_ret (handle_ssl_write_entry k p s)"

definition handle_ssl_read_entry :: "kcalls \<Rightarrow> probe \<Rightarrow> sys \<Rightarrow> u32 result \<times> sys" where
  "handle_ssl_read_entry k p s =
     (case arg1_u64 p of None \<Rightarrow> (Inl (- 1), s) | Some buf_ptr \<Rightarrow>
      (case arg2_u32 p of None \<Rightarrow> (Inl (- 1), s) | Some len \<Rightarrow>
      (case op_insert (kc_rargs k) (ssl_read_args s) (kc_pid_tgid k) (ssl_args k buf_ptr len) of
         Inl e \<Rightarrow> (Inl e, s)
       | Inr m \<Rightarrow> (Inr 0, s\<lparr>ssl_read_args := m\<rparr>))))"

definition ssl_read_entry :: "kcalls \<Rightarrow> probe \<Rightarrow> sys \<Rightarrow> u32 \<times> sys" where
  "ssl_read_entry k p s = probe_ret (handle_ssl_read_entry k p s)"

subsection \<open>Reading the plaintext into the scratch entry\<close>

text \<open>
  \<^verbatim>\<open>bpf_probe_read_user(dst, read_len, buf_ptr)\<close>: on success the first \<open>read_len\<close> bytes of
  the CPU's \<^verbatim>\<open>data\<close> array are the user's, the others keep what an earlier probe left there.
\<close>

definition scratch_read :: "kcalls \<Rightarrow> u64 \<Rightarrow> nat \<Rightarrow> bytes \<Rightarrow> bytes option \<times> bytes" where
  "scratch_read k buf_ptr read_len data =
     (case kc_uread k buf_ptr read_len of
        Inl _ \<Rightarrow> (None, kc_uread_fault k data)
      | Inr bs \<Rightarrow> (let data = bs @ drop read_len data in (Some data, data)))"

subsection \<open>\<^verbatim>\<open>SSL_write\<close> return\<close>

definition tls_detected :: "bytes \<Rightarrow> nat \<Rightarrow> u8 \<Rightarrow> bool" where
  "tls_detected data len has_sni =
     (if has_sni \<noteq> 0 then True
      else if 6 \<le> len then rd data len 0 = 0x16 \<and> rd data len 5 = 0x01
      else False)"

definition ssl_write_row :: "bytes \<Rightarrow> nat \<Rightarrow> u64 \<Rightarrow> u64 \<Rightarrow> FlowState \<Rightarrow> FlowState option" where
  "ssl_write_row data read_len now ts_ns st =
     Option.bind (parse_tls_clienthello_sni data read_len (st_tls_sni st)) (\<lambda>(has_sni, sni).
     (let st = st\<lparr>st_tls_sni := sni\<rparr> in
      Option.bind
        (parse_http_request data read_len
           \<lparr>ho_host = st_http_host st, ho_method = st_http_method st,
            ho_path = st_http_path st, ho_has_http = 0\<rparr>) (\<lambda>out.
     (let st = st\<lparr>st_http_host := ho_host out, st_http_method := ho_method out,
                  st_http_path := ho_path out\<rparr>;
          has_http = ho_has_http out \<noteq> 0;
          has_tls = tls_detected data read_len has_sni;
          st = (if has_tls
                then let st = st\<lparr>st_has_tls := 1\<rparr>
                     in if st_tls_ready_ts_ns st = 0 then st\<lparr>st_tls_ready_ts_ns := now\<rparr> else st
                else st);
          st = (if has_http then st\<lparr>st_has_http := 1\<rparr> else st)
      in Some (if has_http \<or> has_tls then st\<lparr>st_ssl_write_ts_ns := ts_ns\<rparr> else st)))))"

definition forget_write :: "kcalls \<Rightarrow> sys \<Rightarrow> sys" where
  "forget_write k s =
     s\<lparr>ssl_write_args := remove_ignore (kc_wargs k) (ssl_write_args s) (kc_pid_tgid k)\<rparr>"

definition ssl_write_return :: "kcalls \<Rightarrow> probe \<Rightarrow> sys \<Rightarrow> (u32 \<times> sys) option" where
  "ssl_write_return k p s =
     (let pid_tgid = kc_pid_tgid k in
      case ret_i32 p of None \<Rightarrow> Some (0, s) | Some ret \<Rightarrow>
      if sint ret \<le> 0 then Some (0, forget_write k s) else
      (case ssl_write_args s pid_tgid of None \<Rightarrow> Some (0, s) | Some args \<Rightarrow>
      (let s = forget_write k s in
      (case tls_thread_flow s pid_tgid of None \<Rightarrow> Some (0, s) | Some flow_key \<Rightarrow>
      (case flow_table s flow_key of None \<Rightarrow> Some (0, s) | Some st \<Rightarrow>
      (let read_len = min (unat (sa_len args)) TLS_SCRATCH_LEN in
      (case tls_uprobe_scratch s (kc_cpu k) of None \<Rightarrow> Some (0, s) | Some scratch \<Rightarrow>
      (case scratch_read k (sa_buf_ptr args) read_len scratch of
         (None, scratch') \<Rightarrow>
           Some (0, s\<lparr>tls_uprobe_scratch := (tls_uprobe_scratch s)(kc_cpu k \<mapsto> scratch')\<rparr>)
       | (Some data, scratch') \<Rightarrow>
           (let s = s\<lparr>tls_uprobe_scratch := (tls_uprobe_scratch s)(kc_cpu k \<mapsto> scratch')\<rparr> in
            map_option (\<lambda>st'. (0, s\<lparr>flow_table := (flow_table s)(flow_key \<mapsto> st')\<rparr>))
              (ssl_write_row data read_len (kc_ktime k 0) (sa_ts_ns args) st))))))))))"

subsection \<open>\<^verbatim>\<open>SSL_read\<close> return\<close>

definition ssl_read_row :: "u16 \<Rightarrow> FlowState \<Rightarrow> FlowState" where
  "ssl_read_row status st = st\<lparr>st_http_status := status\<rparr>"

definition forget_read :: "kcalls \<Rightarrow> sys \<Rightarrow> sys" where
  "forget_read k s =
     s\<lparr>ssl_read_args := remove_ignore (kc_rargs k) (ssl_read_args s) (kc_pid_tgid k)\<rparr>"

definition ssl_read_return :: "kcalls \<Rightarrow> probe \<Rightarrow> sys \<Rightarrow> u32 \<times> sys" where
  "ssl_read_return k p s =
     (let pid_tgid = kc_pid_tgid k in
      case ret_i32 p of None \<Rightarrow> (0, s) | Some ret \<Rightarrow>
      if sint ret \<le> 0 then (0, forget_read k s) else
      (case ssl_read_args s pid_tgid of None \<Rightarrow> (0, s) | Some args \<Rightarrow>
      (let s = forget_read k s;
           read_len = min (unat ret) TLS_SCRATCH_LEN in
      (case tls_uprobe_scratch s (kc_cpu k) of None \<Rightarrow> (0, s) | Some scratch \<Rightarrow>
      (case scratch_read k (sa_buf_ptr args) read_len scratch of
         (None, scratch') \<Rightarrow>
           (0, s\<lparr>tls_uprobe_scratch := (tls_uprobe_scratch s)(kc_cpu k \<mapsto> scratch')\<rparr>)
       | (Some data, scratch') \<Rightarrow>
           (let s = s\<lparr>tls_uprobe_scratch := (tls_uprobe_scratch s)(kc_cpu k \<mapsto> scratch')\<rparr> in
            (case tls_thread_flow s pid_tgid of None \<Rightarrow> (0, s) | Some flow_key \<Rightarrow>
             (let status = parse_http_status data read_len in
              if status = 0 then (0, s)
              else (0, update_row flow_key (ssl_read_row status) s)))))))))"

section \<open>What the hooks do to the flow table\<close>

lemma forget_write_frame [simp]:
  "flow_table (forget_write k s) = flow_table s"
  "flow_events (forget_write k s) = flow_events s"
  "tls_thread_flow (forget_write k s) = tls_thread_flow s"
  "tls_uprobe_scratch (forget_write k s) = tls_uprobe_scratch s"
  by (simp_all add: forget_write_def)

lemma forget_read_frame [simp]:
  "flow_table (forget_read k s) = flow_table s"
  "flow_events (forget_read k s) = flow_events s"
  "tls_thread_flow (forget_read k s) = tls_thread_flow s"
  "tls_uprobe_scratch (forget_read k s) = tls_uprobe_scratch s"
  by (simp_all add: forget_read_def)

interpretation write_entry: touch_hook "\<lambda>k p s. snd (ssl_write_entry k p s)"
  "\<lambda>k p s. None" "\<lambda>k p s st. st"
  by unfold_locales
    (auto simp: ssl_write_entry_def handle_ssl_write_entry_def split: option.split sum.split)

interpretation read_entry: touch_hook "\<lambda>k p s. snd (ssl_read_entry k p s)"
  "\<lambda>k p s. None" "\<lambda>k p s st. st"
  by unfold_locales
    (auto simp: ssl_read_entry_def handle_ssl_read_entry_def split: option.split sum.split)

text \<open>The plaintext a return probe gets to see, the row it concerns and the status it finds.\<close>

definition read_plain :: "kcalls \<Rightarrow> probe \<Rightarrow> sys \<Rightarrow> (nat \<times> bytes) option" where
  "read_plain k p s =
     (case ret_i32 p of None \<Rightarrow> None | Some ret \<Rightarrow>
      if sint ret \<le> 0 then None
      else Option.bind (ssl_read_args s (kc_pid_tgid k)) (\<lambda>args.
           Option.bind (tls_uprobe_scratch s (kc_cpu k)) (\<lambda>scratch.
             let n = min (unat ret) TLS_SCRATCH_LEN
             in map_option (\<lambda>data. (n, data)) (fst (scratch_read k (sa_buf_ptr args) n scratch)))))"

definition read_status :: "kcalls \<Rightarrow> probe \<Rightarrow> sys \<Rightarrow> u16" where
  "read_status k p s =
     (case read_plain k p s of None \<Rightarrow> 0 | Some (n, data) \<Rightarrow> parse_http_status data n)"

definition read_key :: "kcalls \<Rightarrow> probe \<Rightarrow> sys \<Rightarrow> FlowKey option" where
  "read_key k p s =
     (if read_status k p s = 0 then None else tls_thread_flow s (kc_pid_tgid k))"

interpretation read_return: touch_hook "\<lambda>k p s. snd (ssl_read_return k p s)"
  read_key "\<lambda>k p s. ssl_read_row (read_status k p s)"
  by unfold_locales
    (auto simp: ssl_read_return_def read_key_def read_status_def read_plain_def Let_def
      split: option.split prod.split)

lemma read_status_range: "unat (read_status k p s) \<le> 999"
  by (auto simp: read_status_def parse_http_status_range split: option.split)

text \<open>\<^verbatim>\<open>SSL_write\<close>: either the row stays, or it is rewritten by \<open>ssl_write_row\<close>.\<close>

definition write_plain :: "kcalls \<Rightarrow> probe \<Rightarrow> sys \<Rightarrow> (nat \<times> bytes \<times> u64) option" where
  "write_plain k p s =
     (case ret_i32 p of None \<Rightarrow> None | Some ret \<Rightarrow>
      if sint ret \<le> 0 then None
      else Option.bind (ssl_write_args s (kc_pid_tgid k)) (\<lambda>args.
           Option.bind (tls_uprobe_scratch s (kc_cpu k)) (\<lambda>scratch.
             let n = min (unat (sa_len args)) TLS_SCRATCH_LEN
             in map_option (\<lambda>data. (n, data, sa_ts_ns args))
                  (fst (scratch_read k (sa_buf_ptr args) n scratch)))))"

text \<open>The stages of a completed call: given up early, a faulting read, or a merged row.\<close>

lemma ssl_write_return_stages:
  assumes "ssl_write_return k p s = Some (r, s')"
  obtains (early) "r = 0" "s' = s \<or> s' = forget_write k s"
  | (fault) n a scratch scratch' where "r = 0" "n \<le> TLS_SCRATCH_LEN"
      "tls_uprobe_scratch s (kc_cpu k) = Some scratch"
      "scratch_read k a n scratch = (None, scratch')"
      "s' = (forget_write k s)\<lparr>tls_uprobe_scratch := (tls_uprobe_scratch s)(kc_cpu k \<mapsto> scratch')\<rparr>"
  | (parsed) args :: SslArgs and key st n scratch data scratch' st' where "r = 0" "n \<le> TLS_SCRATCH_LEN"
      "tls_thread_flow s (kc_pid_tgid k) = Some key" "flow_table s key = Some st"
      "tls_uprobe_scratch s (kc_cpu k) = Some scratch"
      "scratch_read k (sa_buf_ptr args) n scratch = (Some data, scratch')"
      "write_plain k p s = Some (n, data, sa_ts_ns args)"
      "ssl_write_row data n (kc_ktime k 0) (sa_ts_ns args) st = Some st'"
      "s' = (forget_write k s)\<lparr>tls_uprobe_scratch := (tls_uprobe_scratch s)(kc_cpu k \<mapsto> scratch'),
              flow_table := (flow_table s)(key \<mapsto> st')\<rparr>"
proof (cases "ret_i32 p")
  case None
  with assms show ?thesis by (intro early) (auto simp: ssl_write_return_def)
next
  case ret: (Some ret)
  show ?thesis
  proof (cases "sint ret \<le> 0 \<or> ssl_write_args s (kc_pid_tgid k) = None \<or>
      tls_thread_flow s (kc_pid_tgid k) = None")
    case True
    with assms ret show ?thesis
      by (intro early) (auto simp: ssl_write_return_def Let_def split: if_splits option.splits)
  next
    case False
    then obtain args :: SslArgs and key where args: "\<not> sint ret \<le> 0" "ssl_write_args s (kc_pid_tgid k) = Some args"
      "tls_thread_flow s (kc_pid_tgid k) = Some key" by auto
    show ?thesis
    proof (cases "flow_table s key = None \<or> tls_uprobe_scratch s (kc_cpu k) = None")
      case True
      with assms ret args show ?thesis
        by (intro early) (auto simp: ssl_write_return_def Let_def split: option.splits)
    next
      case False
      then obtain st scratch where st: "flow_table s key = Some st"
        "tls_uprobe_scratch s (kc_cpu k) = Some scratch" by auto
      let ?n = "min (unat (sa_len args)) TLS_SCRATCH_LEN"
      obtain od scratch' where rd: "scratch_read k (sa_buf_ptr args) ?n scratch = (od, scratch')"
        by fastforce
      show ?thesis
      proof (cases od)
        case None
        with assms ret args st rd show ?thesis
          by (intro fault [of ?n scratch "sa_buf_ptr args" scratch'])
            (auto simp: ssl_write_return_def Let_def)
      next
        case (Some data)
        with ret args st rd have "write_plain k p s = Some (?n, data, sa_ts_ns args)"
          by (simp add: write_plain_def Let_def)
        with assms ret args st rd Some show ?thesis
          by (auto simp: ssl_write_return_def Let_def intro!: parsed [of ?n key st scratch args data])
      qed
    qed
  qed
qed

lemma ssl_write_return_cases:
  assumes "ssl_write_return k p s = Some (r, s')"
  obtains (quiet) "flow_table s' = flow_table s" "flow_events s' = flow_events s"
  | (merge) key st n data ts st' where "tls_thread_flow s (kc_pid_tgid k) = Some key"
      "flow_table s key = Some st" "write_plain k p s = Some (n, data, ts)"
      "ssl_write_row data n (kc_ktime k 0) ts st = Some st'"
      "flow_table s' = (flow_table s)(key \<mapsto> st')" "flow_events s' = flow_events s"
  using assms
proof (cases rule: ssl_write_return_stages)
  case (parsed args key st n scratch data scratch' st')
  show ?thesis by (rule merge [OF parsed(3,4,7,8)]) (simp_all add: parsed(9))
qed (auto intro: quiet)

lemma ssl_write_return_None:
  assumes "ssl_write_return k p s = None"
  obtains key st n data ts where "tls_thread_flow s (kc_pid_tgid k) = Some key"
    "flow_table s key = Some st" "write_plain k p s = Some (n, data, ts)"
    "ssl_write_row data n (kc_ktime k 0) ts st = None"
  using assms
  by (auto simp: ssl_write_return_def write_plain_def Let_def
      split: option.splits if_splits prod.splits)

text \<open>The scratch entry after a successful read: 256 bytes, the first \<open>n\<close> of them the user's.\<close>

lemma scratch_read_Some:
  assumes "kern_ok k" and "n \<le> TLS_SCRATCH_LEN" and "length scratch = TLS_SCRATCH_LEN"
    and "fst (scratch_read k a n scratch) = Some data"
  shows "length data = TLS_SCRATCH_LEN" and "kc_uread k a n = Inr (take n data)"
  using assms kern_okD(3) [OF assms(1), of a n]
  by (auto simp: scratch_read_def Let_def split: sum.splits)

lemma scratch_read_length:
  assumes "kern_ok k" and "n \<le> TLS_SCRATCH_LEN" and "length scratch = TLS_SCRATCH_LEN"
  shows "length (snd (scratch_read k a n scratch)) = TLS_SCRATCH_LEN"
  using assms kern_okD(3) [OF assms(1), of a n] kern_okD(4) [OF assms(1), of scratch]
  by (auto simp: scratch_read_def Let_def split: sum.splits)

definition wf_scratch :: "sys \<Rightarrow> bool" where
  "wf_scratch s \<longleftrightarrow> (\<forall>c data. tls_uprobe_scratch s c = Some data \<longrightarrow> length data = TLS_SCRATCH_LEN)"

lemma write_plain_Some:
  assumes "kern_ok k" and "wf_scratch s" and "write_plain k p s = Some (n, data, ts)"
  shows "length data = TLS_SCRATCH_LEN" and "n \<le> TLS_SCRATCH_LEN"
    and "\<exists>args. ssl_write_args s (kc_pid_tgid k) = Some args \<and> ts = sa_ts_ns args \<and>
           kc_uread k (sa_buf_ptr args) n = Inr (take n data)"
proof -
  from assms(3) obtain args scratch where a: "ssl_write_args s (kc_pid_tgid k) = Some args"
    "tls_uprobe_scratch s (kc_cpu k) = Some scratch" "ts = sa_ts_ns args"
    "n = min (unat (sa_len args)) TLS_SCRATCH_LEN"
    "fst (scratch_read k (sa_buf_ptr args) n scratch) = Some data"
    by (auto simp: write_plain_def Let_def bind_eq_Some_conv split: option.splits if_splits)
  then have "n \<le> TLS_SCRATCH_LEN" "length scratch = TLS_SCRATCH_LEN"
    using assms(2) by (auto simp: wf_scratch_def)
  with scratch_read_Some [OF assms(1) this a(5)] a
  show "length data = TLS_SCRATCH_LEN" and "n \<le> TLS_SCRATCH_LEN"
    and "\<exists>args. ssl_write_args s (kc_pid_tgid k) = Some args \<and> ts = sa_ts_ns args \<and>
           kc_uread k (sa_buf_ptr args) n = Inr (take n data)" by auto
qed

lemma wf_scratch_upd:
  assumes "kern_ok k" and "wf_scratch s" and "n \<le> TLS_SCRATCH_LEN"
    and "tls_uprobe_scratch s c = Some scratch"
    and "scratch_read k a n scratch = (od, scratch')"
    and "tls_uprobe_scratch s' = (tls_uprobe_scratch s)(c \<mapsto> scratch')"
  shows "wf_scratch s'"
proof -
  have "length scratch = TLS_SCRATCH_LEN" using assms(2,4) by (auto simp: wf_scratch_def)
  then have "length scratch' = TLS_SCRATCH_LEN"
    using scratch_read_length [OF assms(1,3), of scratch a] assms(5) by simp
  with assms(2,6) show ?thesis by (auto simp: wf_scratch_def)
qed

lemma wf_scratch_cong:
  "tls_uprobe_scratch s' = tls_uprobe_scratch s \<Longrightarrow> wf_scratch s' = wf_scratch s"
  by (simp add: wf_scratch_def)

lemma ssl_write_return_scratch:
  assumes "kern_ok k" and "wf_scratch s" and "ssl_write_return k p s = Some (r, s')"
  shows "wf_scratch s'"
  using assms(3)
proof (cases rule: ssl_write_return_stages)
  case early
  then show ?thesis using assms(2) by (auto simp: wf_scratch_def)
next
  case (fault n a scratch scratch')
  then show ?thesis by (intro wf_scratch_upd [OF assms(1,2) fault(2-4)]) simp
next
  case (parsed args key st n scratch data scratch' st')
  then show ?thesis by (intro wf_scratch_upd [OF assms(1,2) parsed(2,5,6)]) simp
qed

lemma ssl_read_return_scratch:
  assumes "kern_ok k" and "wf_scratch s"
  shows "wf_scratch (snd (ssl_read_return k p s))"
proof -
  have upd: "wf_scratch (s'\<lparr>tls_uprobe_scratch := (tls_uprobe_scratch s)(kc_cpu k \<mapsto> scratch')\<rparr>)"
    if "tls_uprobe_scratch s (kc_cpu k) = Some scratch"
      "scratch_read k a (min n TLS_SCRATCH_LEN) scratch = (od, scratch')"
    for s' :: sys and n a scratch scratch' od
    using that by (intro wf_scratch_upd [OF assms _ that]) simp_all
  have frame: "wf_scratch (update_row key f s') = wf_scratch s'" for key f and s' :: sys
    by (rule wf_scratch_cong) simp
  have "wf_scratch (forget_read k s)" using assms(2) by (simp add: wf_scratch_def)
  with assms(2) upd show ?thesis
    unfolding ssl_read_return_def Let_def
    by (simp add: frame split: option.split prod.split)
qed

section \<open>What a completed \<^verbatim>\<open>SSL_write\<close> does to its row\<close>

lemma ssl_write_row_eq:
  assumes "parse_tls_clienthello_sni data n (st_tls_sni st) = Some (has_sni, sni)"
    and "parse_http_request data n \<lparr>ho_host = st_http_host st, ho_method = st_http_method st,
       ho_path = st_http_path st, ho_has_http = 0\<rparr> = Some out"
  shows "ssl_write_row data n now ts st = (let tls = tls_detected data n has_sni;
       http = ho_has_http out \<noteq> 0
     in Some (st\<lparr>st_tls_sni := sni, st_http_host := ho_host out, st_http_method := ho_method out,
       st_http_path := ho_path out,
       st_has_tls := (if tls then 1 else st_has_tls st),
       st_tls_ready_ts_ns := (if tls \<and> st_tls_ready_ts_ns st = 0 then now else st_tls_ready_ts_ns st),
       st_has_http := (if http then 1 else st_has_http st),
       st_ssl_write_ts_ns := (if http \<or> tls then ts else st_ssl_write_ts_ns st)\<rparr>))"
proof -
  have id: "st\<lparr>st_tls_sni := a, st_http_host := b, st_http_method := c, st_http_path := d,
      st_has_tls := st_has_tls st, st_tls_ready_ts_ns := st_tls_ready_ts_ns st,
      st_has_http := st_has_http st, st_ssl_write_ts_ns := st_ssl_write_ts_ns st\<rparr> =
    st\<lparr>st_tls_sni := a, st_http_host := b, st_http_method := c, st_http_path := d\<rparr>" for a b c d
    by (cases st) simp
  show ?thesis
    using assms
    by (cases "tls_detected data n has_sni"; cases "ho_has_http out = 0")
      (simp_all add: ssl_write_row_def Let_def conditional_write id)
qed

lemma parse_sni_written:
  assumes "n \<le> length data" and "length sni = HOST_LEN"
  shows "\<exists>has_sni sni'. parse_tls_clienthello_sni data n sni = Some (has_sni, sni') \<and>
    (sni' = sni \<or> (\<exists>xs. xs \<noteq> [] \<and> length xs \<le> 123 \<and> sni' = overwrite xs sni \<and> has_sni \<noteq> 0))"
proof -
  consider "parse_tls_clienthello_sni data n sni = Some (0, sni)"
    | q m where "0 < m" "m \<le> 123" "q + m \<le> n"
        "parse_tls_clienthello_sni data n sni = Some (1, overwrite (take m (drop q data)) sni)"
    using parse_sni_effect [OF assms] by blast
  then show ?thesis
  proof cases
    case (2 q m)
    then have "take m (drop q data) \<noteq> []" "length (take m (drop q data)) \<le> 123"
      using assms(1) by auto
    with 2(4) show ?thesis by (intro exI conjI disjI2) auto
  qed simp
qed

lemma ssl_write_row_effect:
  assumes "length data = TLS_SCRATCH_LEN" and "n \<le> TLS_SCRATCH_LEN" and "wf_state st"
  obtains sni xh xm xp tls http where
    "ssl_write_row data n now ts st = Some (st\<lparr>st_tls_sni := sni,
       st_http_host := overwrite xh (st_http_host st),
       st_http_method := overwrite xm (st_http_method st),
       st_http_path := overwrite xp (st_http_path st),
       st_has_tls := (if tls then 1 else st_has_tls st),
       st_tls_ready_ts_ns := (if tls \<and> st_tls_ready_ts_ns st = 0 then now else st_tls_ready_ts_ns st),
       st_has_http := (if http then 1 else st_has_http st),
       st_ssl_write_ts_ns := (if http \<or> tls then ts else st_ssl_write_ts_ns st)\<rparr>)"
    "sni = st_tls_sni st \<or> (\<exists>xs. xs \<noteq> [] \<and> length xs \<le> 123 \<and> sni = overwrite xs (st_tls_sni st) \<and> tls)"
    "length xh \<le> 250" "length xm \<le> 7" "length xp \<le> 255"
    "http \<or> (xh = [] \<and> xm = [] \<and> xp = [])"
proof -
  let ?out = "\<lparr>ho_host = st_http_host st, ho_method = st_http_method st,
    ho_path = st_http_path st, ho_has_http = 0\<rparr>"
  have wf: "n \<le> length data" "n \<le> 256" "length (st_tls_sni st) = HOST_LEN" "http_wf ?out"
    using assms by (simp_all add: wf_state_def http_wf_def TLS_SCRATCH_LEN_def)
  obtain has_sni sni where sni: "parse_tls_clienthello_sni data n (st_tls_sni st) = Some (has_sni, sni)"
    "sni = st_tls_sni st \<or> (\<exists>xs. xs \<noteq> [] \<and> length xs \<le> 123 \<and> sni = overwrite xs (st_tls_sni st) \<and>
       has_sni \<noteq> 0)"
    using parse_sni_written [OF wf(1,3)] by blast
  let ?tls = "tls_detected data n has_sni"
  have sni': "sni = st_tls_sni st \<or>
      (\<exists>xs. xs \<noteq> [] \<and> length xs \<le> 123 \<and> sni = overwrite xs (st_tls_sni st) \<and> ?tls)"
    using sni(2) by (auto simp: tls_detected_def)
  from wf(1,4) show ?thesis
  proof (cases rule: parse_http_effect)
    case no_http
    then show ?thesis using sni'
      by (intro that [where sni = sni and xh = "[]" and xm = "[]" and xp = "[]" and tls = ?tls and http = False])
        (simp_all add: ssl_write_row_eq [OF sni(1)] Let_def)
  next
    case (http qh mh mm qp mp)
    then show ?thesis using sni' wf(2)
      by (intro that [where sni = sni and xh = "take mh (drop qh data)" and xm = "take mm data"
            and xp = "take mp (drop qp data)" and tls = ?tls and http = True])
        (auto simp: ssl_write_row_eq [OF sni(1)] Let_def)
  qed
qed

end
