(* ===== verification/Sensor.thy ===== *)
theory Sensor
  imports Lifecycle Retransmit Causal TlsProbes
begin

text \<open>
  The kernel side as one state machine: every probe program of the library crate is a
  \<open>hook\<close>, a run is any sequence of probe invocations whose kernel answers satisfy
  \<open>kern_ok\<close> and whose clock does not go back. Invocations are atomic; the races of two CPUs
  on one row are outside the model. The second half states what a step may do to the flow
  table and the ring buffer (\<open>table_step\<close>), shows that every hook does only that, and proves
  once (locale \<open>row_invariant\<close>) that a predicate kept by the row updates holds of every row
  and of every emitted event.
\<close>

subsection \<open>The programs\<close>

datatype hook =
    TcpConnect | InetCskAccept | TcpClose | TcpSendActiveReset | TcpSendmsg
  | TcpRecvmsgEntry | TcpRecvmsg
  | TcpRcvEstablished | TcpEnterCwr | TcpEnterLoss | TcpEnterRecovery
  | TcpRetransmitSkb | TcpSendLossProbe | TcpFastRetransmit | TcpSacktag
  | OnNewTask | OnExit
  | SslWriteEntry | SslWriteReturn | SslReadEntry | SslReadReturn

text \<open>\<open>None\<close>: the program accessed memory outside its buffers.\<close>

fun run_hook :: "hook \<Rightarrow> kcalls \<Rightarrow> probe \<Rightarrow> sys \<Rightarrow> (u32 \<times> sys) option" where
  "run_hook TcpConnect k p s = Some (tcp_connect k p s)"
| "run_hook InetCskAccept k p s = Some (inet_csk_accept k p s)"
| "run_hook TcpClose k p s = Some (tcp_close k p s)"
| "run_hook TcpSendActiveReset k p s = Some (tcp_send_active_reset k p s)"
| "run_hook TcpSendmsg k p s = Some (tcp_sendmsg k p s)"
| "run_hook TcpRecvmsgEntry k p s = Some (tcp_recvmsg_entry k p s)"
| "run_hook TcpRecvmsg k p s = Some (tcp_recvmsg k p s)"
| "run_hook TcpRcvEstablished k p s = Some (tcp_rcv_established k p s)"
| "run_hook TcpEnterCwr k p s = Some (tcp_enter_cwr k p s)"
| "run_hook TcpEnterLoss k p s = Some (tcp_enter_loss k p s)"
| "run_hook TcpEnterRecovery k p s = Some (tcp_enter_recovery k p s)"
| "run_hook TcpRetransmitSkb k p s = Some (tcp_retransmit_skb k p s)"
| "run_hook TcpSendLossProbe k p s = Some (tcp_send_loss_probe k p s)"
| "run_hook TcpFastRetransmit k p s = Some (tcp_fast_retransmit k p s)"
| "run_hook TcpSacktag k p s = Some (tcp_sacktag k p s)"
| "run_hook OnNewTask k p s = Some (on_new_task k p s)"
| "run_hook OnExit k p s = Some (on_exit k p s)"
| "run_hook SslWriteEntry k p s = Some (ssl_write_entry k p s)"
| "run_hook SslWriteReturn k p s = ssl_write_return k p s"
| "run_hook SslReadEntry k p s = Some (ssl_read_entry k p s)"
| "run_hook SslReadReturn k p s = Some (ssl_read_return k p s)"

text \<open>All clock readings of the invocation lie between \<open>t\<close> and \<open>t'\<close>.\<close>

definition clock_between :: "u64 \<Rightarrow> kcalls \<Rightarrow> u64 \<Rightarrow> bool" where
  "clock_between t k t' \<longleftrightarrow> (\<forall>n. t \<le> kc_ktime k n \<and> kc_ktime k n \<le> t')"

text \<open>
  \<open>reach Q t s\<close>: the sensor is in state \<open>s\<close> at time \<open>t\<close>, after invocations that satisfy the
  side condition \<open>Q\<close> besides \<open>kern_ok\<close>.
\<close>

inductive reach :: "(kcalls \<Rightarrow> bool) \<Rightarrow> u64 \<Rightarrow> sys \<Rightarrow> bool" for Q where
  start: "reach Q t (init_sys ncpu)"
| invoke: "reach Q t s \<Longrightarrow> kern_ok k \<Longrightarrow> Q k \<Longrightarrow> clock_between t k t' \<Longrightarrow>
    run_hook h k p s = Some (r, s') \<Longrightarrow> reach Q t' s'"

definition any_kernel :: "kcalls \<Rightarrow> bool" where
  "any_kernel k = True"

text \<open>All kernel reads of one invocation see one memory.\<close>

definition coherent_kernel :: "kcalls \<Rightarrow> bool" where
  "coherent_kernel k \<longleftrightarrow> (\<exists>mem. kread_coherent (kc_kread k) mem)"

subsection \<open>The abstract transitions of the flow table\<close>

text \<open>The updates a live row can undergo, with the key the hook found it by.\<close>

inductive row_step :: "kcalls \<Rightarrow> FlowKey \<Rightarrow> FlowState \<Rightarrow> FlowState \<Rightarrow> bool" for k where
  rs_rst: "row_step k key st (rst_row st)"
| rs_send: "row_step k key st (sendmsg_row len (kc_ktime k 0) st)"
| rs_recv: "row_step k key st (recvmsg_row len (kc_ktime k 0) st)"
| rs_quality: "flow_key_from_sk (kc_kread k) sk = Some key \<Longrightarrow>
    row_step k key st (quality_row (drop_bit 3 srtt) (drop_bit 2 rttvar) cwnd ca st)"
| rs_ecn: "flow_key_from_sk (kc_kread k) sk = Some key \<Longrightarrow> row_step k key st (ecn_row st)"
| rs_loss: "flow_key_from_sk (kc_kread k) sk = Some key \<Longrightarrow> row_step k key st (enter_loss_row st)"
| rs_recovery: "flow_key_from_sk (kc_kread k) sk = Some key \<Longrightarrow> row_step k key st (enter_recovery_row st)"
| rs_retransmit: "flow_key_from_sk (kc_kread k) sk = Some key \<Longrightarrow>
    reason = Rto \<or> reason = FastRetransmit \<or> reason = Tlp \<Longrightarrow>
    row_step k key st (retransmit_row reason flight st)"
| rs_sack: "flow_key_from_sk (kc_kread k) sk = Some key \<Longrightarrow> row_step k key st (sack_row st)"
| rs_write: "length data = TLS_SCRATCH_LEN \<Longrightarrow> n \<le> TLS_SCRATCH_LEN \<Longrightarrow>
    ssl_write_row data n (kc_ktime k 0) ts st = Some st' \<Longrightarrow> row_step k key st st'"
| rs_read: "unat status \<le> 999 \<Longrightarrow> row_step k key st (ssl_read_row status st)"

type_synonym flows = "(FlowKey \<rightharpoonup> FlowState) \<times> FlowEvent list"

definition flows_of :: "sys \<Rightarrow> flows" where
  "flows_of s = (flow_table s, flow_events s)"

inductive table_step :: "kcalls \<Rightarrow> flows \<Rightarrow> flows \<Rightarrow> bool" for k where
  ts_skip: "table_step k (m, es) (m, es)"
| ts_open: "opened k causal key direction m m' \<Longrightarrow> key_protocol key = 6 \<Longrightarrow>
    direction = 1 \<or> direction = 2 \<Longrightarrow> table_step k (m, es) (m', es)"
| ts_touch: "m key = Some st \<Longrightarrow> row_step k key st st' \<Longrightarrow>
    table_step k (m, es) (m(key \<mapsto> st'), es)"
| ts_close: "m key = Some st \<Longrightarrow> m' = m \<or> m' = m(key := None) \<Longrightarrow>
    table_step k (m, es) (m', es @ [fill_event key st (kc_ktime k 0) e])"

inductive_cases table_stepE: "table_step k (m, es) (m', es')"

subsection \<open>Every hook refines an abstract transition\<close>

context touch_hook
begin

text \<open>A hook that touches one row does so by a \<open>row_step\<close>.\<close>

lemma hook_table_step:
  assumes "\<And>key st. hkey k p s = Some key \<Longrightarrow> row_step k key st (hupd k p s st)"
  shows "table_step k (flows_of s) (flows_of (hook k p s))"
  using assms hook_events [of k p s]
  by (auto simp: hook_table flows_of_def touch_def split: option.split intro: ts_skip ts_touch)

end

context open_hook
begin

lemma open_table_step:
  assumes "lru_ok (kc_flow k)" and "\<And>key. hkey k p = Some key \<Longrightarrow> key_protocol key = 6"
    and "direction = 1 \<or> direction = 2"
  shows "table_step k (flows_of s) (flows_of (hook k p s))"
  using open_cases [OF assms(1), of p s] assms(2,3)
  by (auto simp: flows_of_def intro: ts_skip ts_open)

end

lemma quality_upd_step:
  assumes "quality_key k p = Some key"
  shows "row_step k key st (quality_upd k p st)"
proof -
  from assms obtain sk x where sk: "arg0_ptr p = Some sk" "sample (kc_kread k) sk = Some x"
    "flow_key_from_sk (kc_kread k) sk = Some key"
    by (auto simp: quality_key_def bind_eq_Some_conv)
  obtain srtt rttvar cwnd ca where x: "x = (srtt, rttvar, cwnd, ca)" by (cases x)
  with sk sample_Some obtain a b where "srtt = drop_bit 3 a" "rttvar = drop_bit 2 b" by metis
  with sk x show ?thesis by (simp add: quality_upd_def rs_quality)
qed

lemma sk_key_sk: "sk_key k p = Some key \<Longrightarrow> \<exists>sk. flow_key_from_sk (kc_kread k) sk = Some key"
  by (auto simp: sk_key_def bind_eq_Some_conv)

lemma retransmit_upd_step:
  assumes "sk_key k p = Some key" and "reason = Rto \<or> reason = FastRetransmit \<or> reason = Tlp"
  shows "row_step k key st (retransmit_upd reason k p st)"
  using sk_key_sk [OF assms(1)] assms(2) by (auto simp: retransmit_upd_def intro: rs_retransmit)

lemma sk_row_steps:
  assumes "sk_key k p = Some key"
  shows "row_step k key st (ecn_row st)" and "row_step k key st (sack_row st)"
    and "row_step k key st (enter_loss_row st)" and "row_step k key st (enter_recovery_row st)"
  using sk_key_sk [OF assms] by (auto intro: rs_ecn rs_sack rs_loss rs_recovery)

lemma close_table_step:
  assumes "kern_ok k"
  shows "table_step k (flows_of s) (flows_of (snd (tcp_close k p s)))"
proof -
  have "remove_ok (kc_flow k)" using assms by (simp add: kern_ok_def)
  then show ?thesis
    by (cases rule: tcp_close_cases [where p = p and s = s])
      (auto simp: flows_of_def intro: ts_skip ts_close)
qed

lemma write_table_step:
  assumes "kern_ok k" and "wf_scratch s" and "ssl_write_return k p s = Some (r, s')"
  shows "table_step k (flows_of s) (flows_of s')"
  using assms(3)
proof (cases rule: ssl_write_return_cases)
  case quiet
  then show ?thesis by (simp add: flows_of_def ts_skip)
next
  case (merge key st n data ts st')
  then have "row_step k key st st'"
    using write_plain_Some(1,2) [OF assms(1,2) merge(3)] by (intro rs_write)
  with merge show ?thesis by (simp add: flows_of_def ts_touch)
qed

text \<open>The steps of the hooks that touch one row, of those that touch none, and of the two that open one.\<close>

lemmas touch_table_steps =
  rst.hook_table_step [OF rs_rst] sendmsg.hook_table_step [OF rs_send]
  recvmsg.hook_table_step [OF rs_recv] quality.hook_table_step [OF quality_upd_step]
  ecn.hook_table_step [OF sk_row_steps(1)] sack.hook_table_step [OF sk_row_steps(2)]
  loss.hook_table_step [OF sk_row_steps(3)] recovery.hook_table_step [OF sk_row_steps(4)]
  rto.hook_table_step [OF retransmit_upd_step [OF _ disjI1 [OF refl]]]
  fast.hook_table_step [OF retransmit_upd_step [OF _ disjI2 [OF disjI1 [OF refl]]]]
  tlp.hook_table_step [OF retransmit_upd_step [OF _ disjI2 [OF disjI2 [OF refl]]]]
  read_return.hook_table_step [OF rs_read [OF read_status_range]]

lemmas silent_table_steps =
  recvmsg_entry.hook_table_step new_task.hook_table_step exiting.hook_table_step
  write_entry.hook_table_step read_entry.hook_table_step

lemmas open_table_steps =
  connect.open_table_step [OF _ sock_key_protocol] accept.open_table_step [OF _ accept_key_protocol]

lemma hook_refines_table_step:
  assumes "kern_ok k" and "wf_scratch s" and "run_hook h k p s = Some x"
  shows "table_step k (flows_of s) (flows_of (snd x))"
proof (cases "h = SslWriteReturn")
  case True
  with assms(3) show ?thesis by (cases x) (auto intro: write_table_step [OF assms(1,2)])
next
  case False
  have "lru_ok (kc_flow k)" using assms(1) by (simp add: kern_ok_def)
  note steps = touch_table_steps silent_table_steps close_table_step [OF assms(1)]
    open_table_steps [OF this]
  show ?thesis using False assms(3) by (cases h) (auto intro: steps)
qed

subsection \<open>The scratch entries keep their size\<close>

lemma hook_scratch:
  assumes "kern_ok k" and "wf_scratch s" and "run_hook h k p s = Some x"
  shows "wf_scratch (snd x)"
proof -
  have lru: "lru_ok (kc_flow k)" "remove_ok (kc_flow k)" using assms(1) by (simp_all add: kern_ok_def)
  have same: "wf_scratch (snd x)" if "tls_uprobe_scratch (snd x) = tls_uprobe_scratch s"
    using that assms(2) wf_scratch_cong by blast
  show ?thesis
  proof (cases h)
    case SslWriteReturn
    with assms(3) show ?thesis by (cases x) (auto intro: ssl_write_return_scratch [OF assms(1,2)])
  next
    case SslReadReturn
    with assms(3) ssl_read_return_scratch [OF assms(1,2)] show ?thesis by auto
  next
    case TcpConnect
    with assms(3) connect.open_cases [OF lru(1), of p s] show ?thesis by (intro same) auto
  next
    case InetCskAccept
    with assms(3) accept.open_cases [OF lru(1), of p s] show ?thesis by (intro same) auto
  next
    case TcpClose
    have "tls_uprobe_scratch (snd (tcp_close k p s)) = tls_uprobe_scratch s"
      by (cases rule: tcp_close_cases [OF lru(2), of p s]) simp_all
    with TcpClose assms(3) show ?thesis by (intro same) auto
  next
    case TcpRcvEstablished
    with assms(3) show ?thesis
      by (intro same) (auto simp: tcp_rcv_established_def handle_rcv_established_def Let_def
          split: option.split sum.split)
  next
    case OnExit
    with assms(3) show ?thesis by (intro same) (auto simp: on_exit_def)
  qed (use assms(3) in \<open>intro same; auto simp: tcp_send_active_reset_def handle_rst_def
      tcp_sendmsg_def handle_sendmsg_def tcp_recvmsg_entry_def handle_recvmsg_entry_def
      tcp_recvmsg_def handle_recvmsg_def tcp_enter_cwr_def handle_ecn_def tcp_enter_loss_def
      handle_enter_loss_def tcp_enter_recovery_def handle_enter_recovery_def
      tcp_retransmit_skb_def tcp_send_loss_probe_def tcp_fast_retransmit_def handle_retransmit_touch
      tcp_sacktag_def handle_sack_def on_new_task_def handle_new_task_def ssl_write_entry_def
      handle_ssl_write_entry_def ssl_read_entry_def handle_ssl_read_entry_def Let_def
      split: option.split sum.split\<close>)+
qed

lemma reach_scratch: "reach Q t s \<Longrightarrow> wf_scratch s"
proof (induction rule: reach.induct)
  case (start t ncpu)
  show ?case by (auto simp: wf_scratch_def init_sys_def split: if_splits)
next
  case (invoke t s k t' h p r s')
  then show ?case using hook_scratch by (metis snd_conv)
qed

lemma reach_any: "reach Q t s \<Longrightarrow> reach any_kernel t s"
proof (induction rule: reach.induct)
  case (start t ncpu)
  show ?case by (rule reach.start)
next
  case (invoke t s k t' h p r s')
  then show ?case by (intro reach.invoke [of any_kernel t s k t' h p r s']) (assumption | simp add: any_kernel_def)+
qed

lemma reach_table_step:
  "reach Q t s \<Longrightarrow> kern_ok k \<Longrightarrow> run_hook h k p s = Some (r, s') \<Longrightarrow>
   table_step k (flows_of s) (flows_of s')"
  using hook_refines_table_step [OF _ reach_scratch] by (metis snd_conv)

subsection \<open>Row invariants\<close>

text \<open>
  \<open>I t key st\<close>: what holds at time \<open>t\<close> of the row \<open>st\<close> under \<open>key\<close>. If fresh rows satisfy it,
  row updates keep it and time passing keeps it, then every row of a reachable state
  satisfies it, and so did the row of every emitted event at the moment of the close.
\<close>

locale row_invariant =
  fixes Q :: "kcalls \<Rightarrow> bool"
    and I :: "u64 \<Rightarrow> FlowKey \<Rightarrow> FlowState \<Rightarrow> bool"
  assumes later: "I t key st \<Longrightarrow> t \<le> t' \<Longrightarrow> I t' key st"
    and fresh: "kern_ok k \<Longrightarrow> key_protocol key = 6 \<Longrightarrow> direction = 1 \<or> direction = 2 \<Longrightarrow>
          I (kc_ktime k 0) key (fill_new_flow_state k causal direction EMPTY_FLOW_STATE)"
    and step: "kern_ok k \<Longrightarrow> Q k \<Longrightarrow> row_step k key st st' \<Longrightarrow> t \<le> kc_ktime k 0 \<Longrightarrow>
          I t key st \<Longrightarrow> I (kc_ktime k 0) key st'"
begin

definition holds :: "u64 \<Rightarrow> flows \<Rightarrow> bool" where
  "holds t f \<longleftrightarrow>
     (\<forall>key st. fst f key = Some st \<longrightarrow> I t key st) \<and>
     (\<forall>e \<in> set (snd f). \<exists>key st now e0. e = fill_event key st now e0 \<and> I now key st \<and> now \<le> t)"

lemma holds_step:
  assumes "kern_ok k" and "Q k" and "clock_between t k t'" and "table_step k f f'" and "holds t f"
  shows "holds t' f'"
proof -
  have t: "t \<le> kc_ktime k 0" "kc_ktime k 0 \<le> t'" using assms(3) by (auto simp: clock_between_def)
  then have tt: "t \<le> t'" by simp
  from assms(5) have rows: "\<And>key st. fst f key = Some st \<Longrightarrow> I t key st"
    and evs: "\<And>e. e \<in> set (snd f) \<Longrightarrow>
      \<exists>key st now e0. e = fill_event key st now e0 \<and> I now key st \<and> now \<le> t'"
    using tt by (force simp: holds_def)+
  from assms(4) show ?thesis
  proof (cases rule: table_step.cases)
    case ts_skip
    then show ?thesis using rows evs later [OF _ tt] by (auto simp: holds_def)
  next
    case (ts_open causal key direction m m' es)
    have "I t' key (fill_new_flow_state k causal direction EMPTY_FLOW_STATE)"
      using fresh [OF assms(1) ts_open(4,5)] later t(2) by blast
    moreover have "m key' = Some st" if "m' key' = Some st" "key' \<noteq> key" for key' st
      using that ts_open(3) unfolding opened_def by (metis option.distinct(1))
    ultimately have "I t' key' st" if "m' key' = Some st" for key' st
      using that ts_open(1,3) rows [THEN later [OF _ tt]] unfolding opened_def
      by (cases "key' = key") auto
    then show ?thesis using ts_open evs by (auto simp: holds_def)
  next
    case (ts_touch m key st st' es)
    have "I t' key st'"
      using step [OF assms(1,2) ts_touch(4) t(1)] rows ts_touch later t(2) by auto
    then show ?thesis using ts_touch rows [THEN later [OF _ tt]] evs by (auto simp: holds_def)
  next
    case (ts_close m key st m' es e)
    have "I t key st" using rows ts_close by simp
    then have "I (kc_ktime k 0) key st" by (rule later [OF _ t(1)])
    then have "\<exists>key st now e0. fill_event key' st' n e' = fill_event key st now e0 \<and> I now key st \<and> now \<le> t'"
      if "key' = key" "st' = st" "n = kc_ktime k 0" for key' st' n e'
      using that t(2) by blast
    moreover have "I t' key' st'" if "m' key' = Some st'" for key' st'
      using that ts_close rows [THEN later [OF _ tt]] by (auto split: if_splits)
    ultimately show ?thesis using ts_close evs by (auto simp: holds_def)
  qed
qed

lemma reach_holds: "reach Q t s \<Longrightarrow> holds t (flows_of s)"
proof (induction rule: reach.induct)
  case (start t ncpu)
  show ?case by (simp add: holds_def flows_of_def init_sys_def)
next
  case (invoke t s k t' h p r s')
  have "table_step k (flows_of s) (flows_of s')"
    using invoke by (intro reach_table_step)
  with invoke show ?case using holds_step by blast
qed

lemma reach_row: "reach Q t s \<Longrightarrow> flow_table s key = Some st \<Longrightarrow> I t key st"
  using reach_holds by (force simp: holds_def flows_of_def)

lemma reach_event:
  assumes "reach Q t s" and "e \<in> set (flow_events s)"
  obtains key st now e0 where "e = fill_event key st now e0" "I now key st" "now \<le> t"
  using reach_holds [OF assms(1)] assms(2) by (force simp: holds_def flows_of_def)

end

end
