(* ===== verification/Invariants.thy ===== *)
theory Invariants
  imports Sensor
begin

text \<open>
  The invariants of the flow table, each an instance of \<open>row_invariant\<close>: buffer sizes and
  their zero tails, flags, the round-trip and window extrema, the retransmit counters, the
  time stamps, and what the key mismatch between the two extractors implies.
\<close>

lemmas row_defs [row_updates] = rst_row_def sendmsg_row_eq recvmsg_row_eq quality_row_eq ecn_row_def
  enter_loss_row_def enter_recovery_row_def retransmit_row_eq sack_row_def ssl_read_row_def

lemmas fresh_defs [row_updates] = fill_new_flow_state_def set_comm_in_state_def EMPTY_FLOW_STATE_def

section \<open>Buffers\<close>

text \<open>
  Sizes, and tails the parsers never write: a server name has at most 123 bytes, a method 7,
  a host 250 and a path 255, so every string field keeps a terminating zero. Nothing writes
  the cgroup or the parent pid.
\<close>

definition buffers_ok :: "FlowState \<Rightarrow> bool" where
  "buffers_ok st \<longleftrightarrow> wf_state st \<and>
     drop 123 (st_tls_sni st) = replicate 133 0 \<and> drop 250 (st_http_host st) = replicate 6 0 \<and>
     drop 7 (st_http_method st) = [0] \<and> drop 255 (st_http_path st) = [0] \<and>
     st_cgroup st = replicate CGROUP_LEN 0 \<and> st_ppid st = 0"

lemma drop_overwrite: "length xs \<le> n \<Longrightarrow> drop n (overwrite xs out) = drop n out"
  by (simp add: overwrite_def)

lemma fresh_buffers_ok:
  assumes "kern_ok k"
  shows "buffers_ok (fill_new_flow_state k causal direction EMPTY_FLOW_STATE)"
  using kern_okD(1) [OF assms]
  by (auto simp: buffers_ok_def wf_state_def fresh_defs len_defs Let_def split: option.split)

lemma write_buffers_ok:
  assumes "length data = TLS_SCRATCH_LEN" and "n \<le> TLS_SCRATCH_LEN" and "buffers_ok st"
    and "ssl_write_row data n now ts st = Some st'"
  shows "buffers_ok st'"
proof -
  have wf: "wf_state st" using assms(3) by (simp add: buffers_ok_def)
  from assms(1,2) wf show ?thesis
  proof (cases rule: ssl_write_row_effect [where now = now and ts = ts])
    case (1 sni xh xm xp tls http)
    with assms(3,4) show ?thesis
      by (auto simp: buffers_ok_def wf_state_def drop_overwrite len_defs)
  qed
qed

lemma row_step_buffers_ok:
  assumes "row_step k key st st'" and "buffers_ok st"
  shows "buffers_ok st'"
  using assms
proof (cases rule: row_step.cases)
  case (rs_write data n ts)
  with assms(2) write_buffers_ok show ?thesis by blast
qed (simp_all add: buffers_ok_def row_defs wf_state_def)

interpretation buffers: row_invariant any_kernel "\<lambda>t key st. buffers_ok st"
  by unfold_locales (auto intro: fresh_buffers_ok row_step_buffers_ok)

text \<open>The form of a row after a write, and the locale's rule with \<open>buffers_ok\<close> at hand.\<close>

lemma write_row_cases:
  assumes "length data = TLS_SCRATCH_LEN" and "n \<le> TLS_SCRATCH_LEN" and "buffers_ok st"
    and "ssl_write_row data n now ts st = Some st'"
  obtains sni :: bytes and xh xm xp :: bytes and tls http :: bool where
    "st' = st\<lparr>st_tls_sni := sni,
       st_http_host := overwrite xh (st_http_host st),
       st_http_method := overwrite xm (st_http_method st),
       st_http_path := overwrite xp (st_http_path st),
       st_has_tls := (if tls then 1 else st_has_tls st),
       st_tls_ready_ts_ns := (if tls \<and> st_tls_ready_ts_ns st = 0 then now else st_tls_ready_ts_ns st),
       st_has_http := (if http then 1 else st_has_http st),
       st_ssl_write_ts_ns := (if http \<or> tls then ts else st_ssl_write_ts_ns st)\<rparr>"
    "sni = st_tls_sni st \<or> tls" "http \<or> (xh = [] \<and> xm = [] \<and> xp = [])"
proof -
  have wf: "wf_state st" using assms(3) by (simp add: buffers_ok_def)
  from assms(1,2) wf show ?thesis
  proof (cases rule: ssl_write_row_effect [where now = now and ts = ts])
    case (1 sni xh xm xp tls http)
    then show ?thesis using assms(4) by (intro that [where sni = sni and xh = xh and xm = xm and xp = xp and tls = tls and http = http]) auto
  qed
qed

locale buffered_invariant =
  fixes Q :: "kcalls \<Rightarrow> bool"
    and J :: "u64 \<Rightarrow> FlowKey \<Rightarrow> FlowState \<Rightarrow> bool"
  assumes J_later: "J t key st \<Longrightarrow> t \<le> t' \<Longrightarrow> J t' key st"
    and J_fresh: "kern_ok k \<Longrightarrow> key_protocol key = 6 \<Longrightarrow> direction = 1 \<or> direction = 2 \<Longrightarrow>
          J (kc_ktime k 0) key (fill_new_flow_state k causal direction EMPTY_FLOW_STATE)"
    and J_step: "kern_ok k \<Longrightarrow> Q k \<Longrightarrow> row_step k key st st' \<Longrightarrow> t \<le> kc_ktime k 0 \<Longrightarrow>
          buffers_ok st \<Longrightarrow> J t key st \<Longrightarrow> J (kc_ktime k 0) key st'"

sublocale buffered_invariant \<subseteq> row_invariant Q "\<lambda>t key st. buffers_ok st \<and> J t key st"
  by unfold_locales (auto intro: J_later J_fresh J_step fresh_buffers_ok row_step_buffers_ok)

section \<open>Path statistics\<close>

text \<open>
  Before the first sample the extrema hold their sentinels. From the first sample on
  \<open>min \<le> last \<le> max\<close>, and the shift by 3 (by 2) bounds them by \<open>2 ^ 29\<close> (\<open>2 ^ 30\<close>).
\<close>

definition rtt_ok :: "FlowState \<Rightarrow> bool" where
  "rtt_ok st \<longleftrightarrow> st_rttvar_us_max st < 2 ^ 30 \<and>
     ((st_srtt_us_min st = U32_MAX \<and> st_srtt_us_max st = 0 \<and> st_srtt_us_last st = 0) \<or>
      (0 < st_srtt_us_min st \<and> st_srtt_us_min st \<le> st_srtt_us_last st \<and>
       st_srtt_us_last st \<le> st_srtt_us_max st \<and> st_srtt_us_max st < 2 ^ 29))"

definition cwnd_ok :: "FlowState \<Rightarrow> bool" where
  "cwnd_ok st \<longleftrightarrow>
     (st_cwnd_min st = U32_MAX \<and> st_cwnd_max st = 0) \<or> st_cwnd_min st \<le> st_cwnd_max st"

text \<open>Every retransmission carries one of three reasons, so the total is their sum, up to saturation.\<close>

definition retransmits_ok :: "FlowState \<Rightarrow> bool" where
  "retransmits_ok st \<longleftrightarrow>
     unat (st_retransmit_count st) =
     min (2 ^ 32 - 1) (unat (st_retransmit_rto_count st) + unat (st_retransmit_fast_count st) +
       unat (st_retransmit_tlp_count st))"

definition stats_ok :: "FlowState \<Rightarrow> bool" where
  "stats_ok st \<longleftrightarrow> rtt_ok st \<and> cwnd_ok st \<and> retransmits_ok st"

lemma drop_bit_bounds: "drop_bit 3 (x :: u32) < 2 ^ 29" "drop_bit 2 (x :: u32) < 2 ^ 30"
  using unsigned_less [of x, where ?'a = nat]
  by (simp_all add: word_less_nat_alt drop_bit_eq_div unat_div_distrib)

lemma quality_row_rtt_ok:
  assumes "rtt_ok st"
  shows "rtt_ok (quality_row (drop_bit 3 srtt) (drop_bit 2 rttvar) cwnd ca st)"
  using assms drop_bit_bounds [of srtt] drop_bit_bounds [of rttvar]
  by (auto simp: rtt_ok_def quality_row_eq U32_MAX_def not_less)

lemma quality_row_cwnd_ok:
  "cwnd_ok st \<Longrightarrow> cwnd_ok (quality_row srtt rttvar cwnd ca st)"
  by (auto simp: cwnd_ok_def quality_row_eq U32_MAX_def not_less)

lemma retransmit_row_ok:
  assumes "retransmits_ok st" and "reason = Rto \<or> reason = FastRetransmit \<or> reason = Tlp"
  shows "retransmits_ok (retransmit_row reason flight st)"
  using assms by (auto simp: retransmits_ok_def retransmit_row_eq unat_saturating_add)

lemma row_step_stats_ok:
  assumes "row_step k key st st'" and "buffers_ok st" and "stats_ok st"
  shows "stats_ok st'"
  using assms(1)
proof (cases rule: row_step.cases)
  case (rs_quality sk srtt rttvar cwnd ca)
  then show ?thesis
    using assms(3) quality_row_rtt_ok quality_row_cwnd_ok
    by (auto simp: stats_ok_def retransmits_ok_def quality_row_eq)
next
  case (rs_retransmit sk reason flight)
  then show ?thesis
    using assms(3) retransmit_row_ok [of st reason flight]
    by (auto simp: stats_ok_def rtt_ok_def cwnd_ok_def retransmit_row_eq)
next
  case (rs_write data n ts)
  show ?thesis
    by (rule write_row_cases [OF rs_write(1,2) assms(2) rs_write(3)])
      (insert assms(3), hypsubst, simp add: stats_ok_def rtt_ok_def cwnd_ok_def retransmits_ok_def)
qed (use assms(3) in \<open>simp_all add: stats_ok_def rtt_ok_def cwnd_ok_def retransmits_ok_def row_defs\<close>)

lemma fresh_stats_ok: "stats_ok (fill_new_flow_state k causal direction EMPTY_FLOW_STATE)"
  by (auto simp: stats_ok_def rtt_ok_def cwnd_ok_def retransmits_ok_def fresh_defs U32_MAX_def Let_def
      split: option.split)

interpretation stats: buffered_invariant any_kernel "\<lambda>t key st. stats_ok st"
  by unfold_locales (auto intro: row_step_stats_ok fresh_stats_ok)

section \<open>Time stamps\<close>

text \<open>
  At time \<open>t\<close> the connection opened at or before \<open>t\<close>, and each later stamp is unset or
  lies between the opening and \<open>t\<close>.
\<close>

definition stamp_ok :: "u64 \<Rightarrow> u64 \<Rightarrow> u64 \<Rightarrow> bool" where
  "stamp_ok opening t ts \<longleftrightarrow> ts = 0 \<or> (opening \<le> ts \<and> ts \<le> t)"

definition times_ok :: "u64 \<Rightarrow> FlowState \<Rightarrow> bool" where
  "times_ok t st \<longleftrightarrow> st_connect_ts_ns st \<le> t \<and>
     stamp_ok (st_connect_ts_ns st) t (st_first_byte_ts_ns st) \<and>
     stamp_ok (st_connect_ts_ns st) t (st_first_recv_ts_ns st) \<and>
     stamp_ok (st_connect_ts_ns st) t (st_tls_ready_ts_ns st)"

lemma stamp_set [simp]: "opening \<le> t \<Longrightarrow> stamp_ok opening t t" "stamp_ok opening t 0"
  by (simp_all add: stamp_ok_def)

lemma times_ok_later: "times_ok t st \<Longrightarrow> t \<le> t' \<Longrightarrow> times_ok t' st"
  unfolding times_ok_def stamp_ok_def by (meson order_trans)

lemma fresh_times_ok: "times_ok (kc_ktime k 0) (fill_new_flow_state k causal direction EMPTY_FLOW_STATE)"
  by (auto simp: times_ok_def stamp_ok_def fresh_defs Let_def split: option.split)

lemma row_step_times_ok:
  assumes "row_step k key st st'" and "buffers_ok st" and "times_ok t st" and "t \<le> kc_ktime k 0"
  shows "times_ok (kc_ktime k 0) st'"
  using assms(1)
proof (cases rule: row_step.cases)
  case (rs_write data n ts)
  show ?thesis
    by (rule write_row_cases [OF rs_write(1,2) assms(2) rs_write(3)])
      (insert times_ok_later [OF assms(3,4)], hypsubst, simp add: times_ok_def)
qed (use times_ok_later [OF assms(3,4)] in \<open>simp_all add: times_ok_def row_defs\<close>)

interpretation times: buffered_invariant any_kernel "\<lambda>t key st. times_ok t st"
  by unfold_locales (auto intro: row_step_times_ok fresh_times_ok times_ok_later)

section \<open>Flags and empty fields\<close>

definition flags_ok :: "FlowState \<Rightarrow> bool" where
  "flags_ok st \<longleftrightarrow>
     (st_direction st = 1 \<or> st_direction st = 2) \<and> unat (st_http_status st) \<le> 999 \<and>
     (st_has_tls st = 1 \<or>
        st_has_tls st = 0 \<and> st_tls_sni st = replicate HOST_LEN 0 \<and> st_tls_ready_ts_ns st = 0) \<and>
     (st_has_http st = 1 \<or>
        st_has_http st = 0 \<and> st_http_host st = replicate HOST_LEN 0 \<and>
        st_http_method st = replicate 8 0 \<and> st_http_path st = replicate PATH_LEN 0) \<and>
     (st_pkts_sent st = 0 \<longrightarrow> st_bytes_sent st = 0 \<and> st_first_byte_ts_ns st = 0) \<and>
     (st_pkts_recv st = 0 \<longrightarrow> st_bytes_recv st = 0 \<and> st_first_recv_ts_ns st = 0)"

lemma saturating_add_1_nonzero [simp]: "saturating_add (x :: u64) 1 \<noteq> 0"
proof -
  have "unat (saturating_add x 1) \<noteq> 0" by (simp add: unat_saturating_add)
  then show ?thesis by (metis unat_0)
qed

lemma fresh_flags_ok:
  "direction = 1 \<or> direction = 2 \<Longrightarrow>
   flags_ok (fill_new_flow_state k causal direction EMPTY_FLOW_STATE)"
  by (auto simp: flags_ok_def fresh_defs Let_def split: option.split)

lemma row_step_flags_ok:
  assumes "row_step k key st st'" and "buffers_ok st" and "flags_ok st"
  shows "flags_ok st'"
  using assms(1)
proof (cases rule: row_step.cases)
  case (rs_write data n ts)
  show ?thesis
    by (rule write_row_cases [OF rs_write(1,2) assms(2) rs_write(3)])
      (insert assms(3), hypsubst, auto simp: flags_ok_def)
qed (use assms(3) in \<open>simp_all add: flags_ok_def row_defs\<close>)

interpretation flags: buffered_invariant any_kernel "\<lambda>t key st. flags_ok st"
  by unfold_locales (auto intro: row_step_flags_ok fresh_flags_ok)

section \<open>Which rows the socket-statistics hooks can reach\<close>

text \<open>
  Every row is stored under a key with protocol 6. The hooks that use \<^verbatim>\<open>flow_key_from_sk\<close>
  look rows up under a key whose protocol is the last octet of the destination address.
  When that octet is not 6 they find nothing, and the row keeps the values of a new row.
\<close>

definition stats_untouched :: "FlowState \<Rightarrow> bool" where
  "stats_untouched st \<longleftrightarrow>
     st_srtt_us_min st = U32_MAX \<and> st_srtt_us_max st = 0 \<and> st_srtt_us_last st = 0 \<and>
     st_rttvar_us_max st = 0 \<and> st_cwnd_min st = U32_MAX \<and> st_cwnd_max st = 0 \<and>
     st_ecn_signals st = 0 \<and> st_sack_blocks_received st = 0 \<and>
     st_retransmit_count st = 0 \<and> st_retransmit_bytes st = 0 \<and>
     st_retransmit_rto_count st = 0 \<and> st_retransmit_fast_count st = 0 \<and>
     st_retransmit_tlp_count st = 0 \<and>
     (st_congestion_state_final st = 0 \<or> st_congestion_state_final st = CloseReason_u8 Reset)"

definition unreachable_ok :: "FlowKey \<Rightarrow> FlowState \<Rightarrow> bool" where
  "unreachable_ok key st \<longleftrightarrow> key_protocol key = 6 \<and>
     (byte_of 3 (key_dst_ip key) \<noteq> 6 \<longrightarrow> stats_untouched st)"

lemma sk_found_octet:
  assumes "coherent_kernel k" and "flow_key_from_sk (kc_kread k) sk = Some key"
    and "key_protocol key = 6"
  shows "byte_of 3 (key_dst_ip key) = 6"
  using assms sk_protocol_is_dst_octet unfolding coherent_kernel_def by metis

lemma fresh_unreachable_ok:
  "key_protocol key = 6 \<Longrightarrow>
   unreachable_ok key (fill_new_flow_state k causal direction EMPTY_FLOW_STATE)"
  by (auto simp: unreachable_ok_def stats_untouched_def fresh_defs Let_def split: option.split)

lemma row_step_unreachable_ok:
  assumes "row_step k key st st'" and "coherent_kernel k" and "buffers_ok st"
    and "unreachable_ok key st"
  shows "unreachable_ok key st'"
proof -
  have p: "key_protocol key = 6" using assms(4) by (simp add: unreachable_ok_def)
  have sk: "byte_of 3 (key_dst_ip key) = 6" if "flow_key_from_sk (kc_kread k) sk = Some key" for sk
    using sk_found_octet [OF assms(2) that p] .
  from assms(1) show ?thesis
  proof (cases rule: row_step.cases)
    case (rs_write data n ts)
    show ?thesis
      by (rule write_row_cases [OF rs_write(1,2) assms(3) rs_write(3)])
        (insert assms(4), hypsubst, simp add: unreachable_ok_def stats_untouched_def)
  qed (use p assms(4) in \<open>auto simp: unreachable_ok_def stats_untouched_def row_defs dest!: sk\<close>)
qed

interpretation unreachable: buffered_invariant coherent_kernel "\<lambda>t key st. unreachable_ok key st"
  by unfold_locales (auto intro: row_step_unreachable_ok fresh_unreachable_ok)

end
