(* ===== verification/Runs.thy ===== *)
theory Runs
  imports Invariants
begin

text \<open>
  Executable runs: a list of probe invocations played from a state, and a concrete kernel to
  play them on (unbounded maps, one memory image, a clock that stands still during an
  invocation). It shows that \<open>kern_ok\<close> and \<open>coherent_kernel\<close> are satisfiable together and
  gives the concrete inputs of the witnesses.
\<close>

subsection \<open>Playing a list of invocations\<close>

type_synonym invocation = "hook \<times> kcalls \<times> probe"

fun play :: "invocation list \<Rightarrow> sys \<Rightarrow> sys option" where
  "play [] s = Some s"
| "play ((h, k, p) # xs) s = Option.bind (run_hook h k p s) (\<lambda>(_, s'). play xs s')"

fun playable :: "(kcalls \<Rightarrow> bool) \<Rightarrow> u64 \<Rightarrow> invocation list \<Rightarrow> bool" where
  "playable Q t [] = True"
| "playable Q t ((h, k, p) # xs) =
     (kern_ok k \<and> Q k \<and> clock_between t k (kc_ktime k 0) \<and> playable Q (kc_ktime k 0) xs)"

fun play_end :: "u64 \<Rightarrow> invocation list \<Rightarrow> u64" where
  "play_end t [] = t"
| "play_end t ((h, k, p) # xs) = play_end (kc_ktime k 0) xs"

lemma play_reach:
  "reach Q t s \<Longrightarrow> playable Q t xs \<Longrightarrow> play xs s = Some s' \<Longrightarrow> reach Q (play_end t xs) s'"
proof (induction xs arbitrary: t s)
  case (Cons x xs)
  obtain h k p where x: "x = (h, k, p)" by (cases x)
  with Cons.prems(3) obtain r s1 where "run_hook h k p s = Some (r, s1)" "play xs s1 = Some s'"
    by (auto simp: bind_eq_Some_conv)
  with Cons x show ?case using reach.invoke [of Q t s k "kc_ktime k 0" h p r s1] by simp
qed simp

lemma play_init: "playable Q t xs \<Longrightarrow> play xs (init_sys n) = Some s \<Longrightarrow> reach Q (play_end t xs) s"
  by (rule play_reach [OF reach.start])

subsection \<open>A kernel with unbounded maps\<close>

definition plain_ops :: "('k, 'v) bpf_ops" where
  "plain_ops = \<lparr>op_insert = (\<lambda>m k v. Inr (m(k \<mapsto> v))), op_remove = (\<lambda>m k. Inr (m(k := None)))\<rparr>"

lemma plain_ops_ok: "hash_ok plain_ops" "lru_ok plain_ops"
  by (simp_all add: hash_ok_def lru_ok_def remove_ok_def plain_ops_def)

text \<open>\<open>pid\<close> is \<^verbatim>\<open>pid_tgid\<close>, \<open>mem\<close> the kernel memory, \<open>user\<close> what user reads return.\<close>

definition demo_kernel :: "u64 \<Rightarrow> u64 \<Rightarrow> (u64 \<Rightarrow> u8) \<Rightarrow> bytes \<Rightarrow> kcalls" where
  "demo_kernel pid now mem user = \<lparr>
     kc_pid_tgid = pid, kc_uid_gid = 0, kc_ktime = (\<lambda>_. now), kc_comm = Some (replicate COMM_LEN 97),
     kc_kread = (\<lambda>a n. Inr (map (\<lambda>i. mem (a + of_nat i)) [0..<n])),
     kc_uread = (\<lambda>a n. Inr (take n (user @ replicate n 0))),
     kc_uread_fault = id, kc_ring_reserve = Some zeroed_FlowEvent, kc_cpu = 0,
     kc_flow = plain_ops, kc_recv = plain_ops, kc_tls = plain_ops, kc_causal = plain_ops,
     kc_wargs = plain_ops, kc_rargs = plain_ops\<rparr>"

lemma demo_kernel_ok: "kern_ok (demo_kernel pid now mem user)"
  by (auto simp: kern_ok_def demo_kernel_def plain_ops_ok len_defs mono_def)

lemma demo_kernel_coherent: "coherent_kernel (demo_kernel pid now mem user)"
  by (auto simp: coherent_kernel_def kread_coherent_def demo_kernel_def)

lemma demo_kernel_clock: "clock_between t (demo_kernel pid now mem user) now \<longleftrightarrow> t \<le> now"
  by (simp add: clock_between_def demo_kernel_def)

lemma demo_kernel_ktime: "kc_ktime (demo_kernel pid now mem user) n = now"
  by (simp add: demo_kernel_def)

lemmas demo_simps = demo_kernel_ok demo_kernel_coherent demo_kernel_clock demo_kernel_ktime any_kernel_def

text \<open>
  A \<^verbatim>\<open>struct sock\<close> at address \<open>0x1000\<close>: 192.168.0.1 port 40000 to 10.0.0.\<open>d\<close> port 443,
  with a smoothed round-trip time of 1000 us and a window of 10.
\<close>

definition demo_sock :: "u8 \<Rightarrow> u64 \<Rightarrow> u8" where
  "demo_sock d a = (let i = a - 0x1000 in
     if i = 0 then 10 else if i = 3 then d else
     if i = 4 then 192 else if i = 5 then 168 else if i = 7 then 1 else
     if i = 0xA then 1 else if i = 0xB then 187 else
     if i = 0xC then 156 else if i = 0xD then 64 else
     if i = 0x1E0 then 64 else if i = 0x1E1 then 31 else
     if i = 0x1AC then 10 else 0)"

definition demo_probe :: probe where
  "demo_probe = \<lparr>arg0_ptr = Some 0x1000, arg1_u64 = Some 0x2000, arg2_u32 = Some 200,
     arg2_usize = Some 200, ret_ptr = Some 0x1000, ret_i64 = Some 500, ret_i32 = Some 200\<rparr>"

definition demo_call :: "hook \<Rightarrow> u64 \<Rightarrow> u8 \<Rightarrow> bytes \<Rightarrow> invocation" where
  "demo_call h now d user = (h, demo_kernel 7 now (demo_sock d) user, demo_probe)"

text \<open>Connect, send, an ACK sample, a retransmission, receive, close.\<close>

definition demo_trace :: "u8 \<Rightarrow> invocation list" where
  "demo_trace d = [
     demo_call TcpConnect 100 d [], demo_call TcpSendmsg 150 d [],
     demo_call TcpRcvEstablished 160 d [], demo_call TcpRetransmitSkb 170 d [],
     demo_call TcpRecvmsgEntry 180 d [], demo_call TcpRecvmsg 190 d [],
     demo_call TcpClose 300 d []]"

definition demo_end :: "u8 \<Rightarrow> sys" where
  "demo_end d = the (play (demo_trace d) (init_sys 1))"

lemma demo_playable: "playable Q 0 (demo_trace d)" if "\<And>pid now user. Q (demo_kernel pid now (demo_sock d) user)"
  using that by (simp add: demo_trace_def demo_call_def demo_simps)

definition demo_key :: "u8 \<Rightarrow> FlowKey" where
  "demo_key d = \<lparr>key_src_ip = 0x0100A8C0, key_dst_ip = u32_from_ne_bytes [10, 0, 0, d],
     key_src_port = 40000, key_dst_port = 443, key_protocol = 6, key_pad = [0, 0, 0]\<rparr>"

lemma demo_reads:
  "kread_u32_ne (kc_kread (demo_kernel pid now mem user)) a =
     Inr (u32_from_ne_bytes [mem a, mem (a + 1), mem (a + 2), mem (a + 3)])"
  "kread_u16_ne (kc_kread (demo_kernel pid now mem user)) a =
     Inr (u16_from_ne_bytes [mem a, mem (a + 1)])"
  "kread_u8 (kc_kread (demo_kernel pid now mem user)) a = Inr (mem a)"
  by (simp_all add: kread_u32_ne_def kread_u16_ne_def kread_u8_def demo_kernel_def upt_rec)

lemma demo_constants:
  "u32_from_ne_bytes [192, 168, 0, 1] = 0x0100A8C0"
  "u16_from_be (u16_from_ne_bytes [156, 64]) = 40000" "u16_from_be (u16_from_ne_bytes [1, 187]) = 443"
  "drop_bit 3 (u32_from_ne_bytes [64, 31, 0, 0]) = 1000" "u32_from_ne_bytes [10, 0, 0, 0] = 10"
  "u32_from_ne_bytes [0, 0, 0, 0] = 0"
  by code_simp+

lemma demo_sock_key:
  "flow_key_from_sock (kc_kread (demo_kernel pid now (demo_sock d) user)) 0x1000 = Some (demo_key d)"
  by (simp add: flow_key_from_sock_def demo_reads demo_sock_def demo_key_def demo_constants)

lemma demo_sk_key:
  "flow_key_from_sk (kc_kread (demo_kernel pid now (demo_sock d) user)) 0x1000 =
     Some ((demo_key d)\<lparr>key_protocol := d\<rparr>)"
  by (simp add: flow_key_from_sk_def demo_reads demo_sock_def demo_key_def demo_constants)

lemma demo_sample:
  "sample (kc_kread (demo_kernel pid now (demo_sock d) user)) 0x1000 = Some (1000, 0, 10, 0)"
  by (simp add: sample_def demo_reads demo_sock_def demo_constants unwrap_or0_def
     TCP_SRTT_US_OFFSET_def TCP_RTTVAR_US_OFFSET_def TCP_SND_CWND_OFFSET_def TCP_ICSK_CA_STATE_OFFSET_def)

lemma demo_keys:
  "sock_key (demo_kernel pid now (demo_sock d) user) demo_probe = Some (demo_key d)"
  "sk_key (demo_kernel pid now (demo_sock d) user) demo_probe = Some ((demo_key d)\<lparr>key_protocol := d\<rparr>)"
  "quality_key (demo_kernel pid now (demo_sock d) user) demo_probe = Some ((demo_key d)\<lparr>key_protocol := d\<rparr>)"
  "quality_upd (demo_kernel pid now (demo_sock d) user) demo_probe = quality_row 1000 0 10 0"
  by (simp_all add: sock_key_def sk_key_def quality_key_def quality_upd_def demo_probe_def demo_sock_key demo_sk_key demo_sample)

lemma demo_key_6 [simp]: "(demo_key d)\<lparr>key_protocol := 6\<rparr> = demo_key d"
  by (simp add: demo_key_def)

lemma demo_key_neq [simp]: "d \<noteq> 6 \<Longrightarrow> (demo_key d)\<lparr>key_protocol := d\<rparr> \<noteq> demo_key d"
  "d \<noteq> 6 \<Longrightarrow> demo_key d \<noteq> (demo_key d)\<lparr>key_protocol := d\<rparr>"
  by (simp_all add: demo_key_def)

definition demo_row :: "u8 \<Rightarrow> FlowState" where
  "demo_row d =
     (let fresh = fill_new_flow_state (demo_kernel 7 100 (demo_sock d) []) Map.empty 1 EMPTY_FLOW_STATE;
          st = sendmsg_row 200 150 fresh;
          st = (if d = 6 then retransmit_row Rto 0 (quality_row 1000 0 10 0 st) else st)
      in recvmsg_row 500 190 st)"


lemma play_step: "run_hook h k p s = Some x \<Longrightarrow> play ((h, k, p) # xs) s = play xs (snd x)"
  by (cases x) simp

lemma demo_kernel_simps [simp]:
  "kc_flow (demo_kernel pid now mem user) = plain_ops"
  "kc_recv (demo_kernel pid now mem user) = plain_ops"
  "kc_tls (demo_kernel pid now mem user) = plain_ops"
  "kc_pid_tgid (demo_kernel pid now mem user) = pid"
  "kc_ring_reserve (demo_kernel pid now mem user) = Some zeroed_FlowEvent"
  by (simp_all add: demo_kernel_def)

lemma plain_ops_simps [simp]:
  "op_insert plain_ops m x v = Inr (m(x \<mapsto> v))" "op_remove plain_ops m x = Inr (m(x := None))"
  "insert_ignore plain_ops m x v = m(x \<mapsto> v)" "remove_ignore plain_ops m x = m(x := None)"
  by (simp_all add: plain_ops_def insert_ignore_def remove_ignore_def)

lemma demo_fields:
  "arg0_ptr demo_probe = Some 0x1000" "arg2_usize demo_probe = Some 200" "ret_i64 demo_probe = Some 500"
  by (simp_all add: demo_probe_def)


lemma quality_touch:
  "snd (tcp_rcv_established k p s) =
     (case quality_key k p of None \<Rightarrow> s | Some key \<Rightarrow> update_row key (quality_upd k p) s)"
  by (auto simp: tcp_rcv_established_def handle_rcv_established_def quality_key_def quality_upd_def
      sample_def Let_def split: option.split sum.split)

lemma demo_flight: "retransmit_upd Rto (demo_kernel pid now (demo_sock d) user) demo_probe = retransmit_row Rto 0"
  by (simp add: retransmit_upd_def demo_fields bytes_in_flight_def demo_reads demo_sock_def unwrap_or0_def
    TCP_SND_UNA_OFFSET_def TCP_SND_NXT_OFFSET_def)

text \<open>The samples reach the row only when the destination's last octet is 6.\<close>

lemma demo_play:
  "map_option flow_events (play (demo_trace d) (init_sys 1)) =
     Some [fill_event (demo_key d) (demo_row d) 300 zeroed_FlowEvent]"
  by (cases "d = 6") (simp_all add: demo_trace_def demo_call_def play_step tcp_connect_def
      handle_tcp_connect_def init_flow_row_def tcp_sendmsg_def handle_sendmsg_def quality_touch demo_keys demo_flight demo_fields demo_sock_key demo_kernel_ktime update_row_def touch_def
      tcp_retransmit_skb_def handle_retransmit_touch tcp_recvmsg_entry_def handle_recvmsg_entry_def tcp_recvmsg_def handle_recvmsg_def forget_sock_def
      tcp_close_def handle_tcp_close_def demo_row_def Let_def init_sys_def del: play.simps(2))

lemma demo_events: "flow_events (demo_end d) = [fill_event (demo_key d) (demo_row d) 300 zeroed_FlowEvent]"
  using demo_play [of d] by (auto simp: demo_end_def)

lemma demo_reach:
  "reach any_kernel (play_end 0 (demo_trace d)) (demo_end d)"
  "reach coherent_kernel (play_end 0 (demo_trace d)) (demo_end d)"
  using demo_play [of d] play_init [OF demo_playable, of _ d 1 "demo_end d"]
  by (auto simp: demo_end_def demo_simps)

lemma demo_end_time: "play_end 0 (demo_trace d) = 300"
  by (simp add: demo_trace_def demo_call_def demo_simps)

text \<open>Selected fields of the demonstration row.\<close>

lemma row_fields:
  "st_retransmit_rto_count (recvmsg_row n t st) = st_retransmit_rto_count st"
  "st_retransmit_rto_count (quality_row a b c ca st) = st_retransmit_rto_count st"
  "st_retransmit_rto_count (sendmsg_row n t st) = st_retransmit_rto_count st"
  "st_retransmit_rto_count (retransmit_row Rto f st) = saturating_add (st_retransmit_rto_count st) 1"
  "st_retransmit_fast_count (recvmsg_row n t st) = st_retransmit_fast_count st"
  "st_retransmit_fast_count (quality_row a b c ca st) = st_retransmit_fast_count st"
  "st_retransmit_fast_count (sendmsg_row n t st) = st_retransmit_fast_count st"
  "st_retransmit_fast_count (retransmit_row Rto f st) = st_retransmit_fast_count st"
  "st_retransmit_tlp_count (recvmsg_row n t st) = st_retransmit_tlp_count st"
  "st_retransmit_tlp_count (quality_row a b c ca st) = st_retransmit_tlp_count st"
  "st_retransmit_tlp_count (sendmsg_row n t st) = st_retransmit_tlp_count st"
  "st_retransmit_tlp_count (retransmit_row Rto f st) = st_retransmit_tlp_count st"
  "st_srtt_us_min (recvmsg_row n t st) = st_srtt_us_min st"
  "st_srtt_us_min (sendmsg_row n t st) = st_srtt_us_min st"
  "st_srtt_us_min (retransmit_row Rto f st) = st_srtt_us_min st"
  "st_srtt_us_min (quality_row a b c ca st) =
     (if 0 < a \<and> a < st_srtt_us_min st then a else st_srtt_us_min st)"
  "st_comm (recvmsg_row n t st) = st_comm st" "st_comm (quality_row a b c ca st) = st_comm st"
  "st_comm (sendmsg_row n t st) = st_comm st" "st_comm (retransmit_row Rto f st) = st_comm st"
  "st_has_tls (recvmsg_row n t st) = st_has_tls st" "st_has_tls (quality_row a b c ca st) = st_has_tls st"
  "st_has_tls (sendmsg_row n t st) = st_has_tls st" "st_has_tls (retransmit_row Rto f st) = st_has_tls st"
  "st_bytes_sent (recvmsg_row n t st) = st_bytes_sent st"
  "st_bytes_sent (quality_row a b c ca st) = st_bytes_sent st"
  "st_bytes_sent (retransmit_row Rto f st) = st_bytes_sent st"
  "st_bytes_sent (sendmsg_row n t st) = saturating_add (st_bytes_sent st) n"
  by (simp_all add: recvmsg_row_eq quality_row_eq sendmsg_row_eq retransmit_row_eq)

lemma fresh_fields:
  "st_retransmit_rto_count (fill_new_flow_state k causal d st) = 0"
  "st_retransmit_fast_count (fill_new_flow_state k causal d st) = 0"
  "st_retransmit_tlp_count (fill_new_flow_state k causal d st) = 0"
  "st_srtt_us_min (fill_new_flow_state k causal d st) = U32_MAX"
  "st_has_tls (fill_new_flow_state k causal d st) = 0"
  "st_bytes_sent (fill_new_flow_state k causal d st) = 0"
  by (auto simp: fill_new_flow_state_def Let_def split: option.split)

lemma demo_row_fields:
  "st_retransmit_rto_count (demo_row 6) = 1" "st_retransmit_fast_count (demo_row 6) = 0"
  "st_retransmit_tlp_count (demo_row 6) = 0" "st_srtt_us_min (demo_row 6) = 1000"
  "st_has_tls (demo_row 6) = 0" "st_bytes_sent (demo_row 6) = 200"
  by (simp_all add: demo_row_def Let_def row_fields fresh_fields U32_MAX_def saturating_add_def)

end
