(* ===== verification/Between.thy ===== *)
theory Between
  imports Runs
begin

text \<open>
  What happens to one row while other programs run. \<open>along C xs s\<close>: the invocations \<open>xs\<close> can be
  played from \<open>s\<close> and each satisfies the condition \<open>C\<close> in the state it starts in. The locale
  \<open>row_guard\<close> turns what one invocation keeps of a row into what a whole sequence keeps of it;
  it is interpreted for the congestion state of a row, the text of its HTTP request and its
  direction.
\<close>

section \<open>Sequences of invocations under a condition\<close>

fun along :: "(hook \<Rightarrow> kcalls \<Rightarrow> probe \<Rightarrow> sys \<Rightarrow> bool) \<Rightarrow> invocation list \<Rightarrow> sys \<Rightarrow> bool" where
  "along C [] s = True"
| "along C ((h, k, p) # xs) s =
     (kern_ok k \<and> C h k p s \<and>
      (case run_hook h k p s of None \<Rightarrow> False | Some (_, s') \<Rightarrow> along C xs s'))"

text \<open>
  \<open>leaves_row key\<close>: the invocation neither opens a row under \<open>key\<close> nor closes it, and the row is
  not evicted to make room for another one.
\<close>

definition leaves_row :: "FlowKey \<Rightarrow> hook \<Rightarrow> kcalls \<Rightarrow> probe \<Rightarrow> sys \<Rightarrow> bool" where
  "leaves_row key h k p s \<longleftrightarrow>
     (h = TcpConnect \<longrightarrow> sock_key k p \<noteq> Some key) \<and>
     (h = InetCskAccept \<longrightarrow> accept_key k p \<noteq> Some key) \<and>
     (h = TcpClose \<longrightarrow> sock_key k p \<noteq> Some key) \<and>
     (case run_hook h k p s of None \<Rightarrow> False | Some (_, s') \<Rightarrow> flow_table s' key \<noteq> None)"

text \<open>Programs that write no congestion state into the row under \<open>key\<close>.\<close>

definition leaves_congestion :: "FlowKey \<Rightarrow> hook \<Rightarrow> kcalls \<Rightarrow> probe \<Rightarrow> sys \<Rightarrow> bool" where
  "leaves_congestion key h k p s \<longleftrightarrow> leaves_row key h k p s \<and>
     (h = TcpRcvEstablished \<longrightarrow> quality_key k p \<noteq> Some key) \<and>
     (h = TcpEnterLoss \<longrightarrow> sk_key k p \<noteq> Some key) \<and>
     (h = TcpEnterRecovery \<longrightarrow> sk_key k p \<noteq> Some key)"

text \<open>Programs that complete no \<^verbatim>\<open>SSL_write\<close> of a thread bound to \<open>key\<close>.\<close>

definition leaves_request :: "FlowKey \<Rightarrow> hook \<Rightarrow> kcalls \<Rightarrow> probe \<Rightarrow> sys \<Rightarrow> bool" where
  "leaves_request key h k p s \<longleftrightarrow> leaves_row key h k p s \<and>
     (h = SslWriteReturn \<longrightarrow> tls_thread_flow s (kc_pid_tgid k) \<noteq> Some key)"

section \<open>From one invocation to a sequence\<close>

locale row_guard =
  fixes C :: "FlowKey \<Rightarrow> hook \<Rightarrow> kcalls \<Rightarrow> probe \<Rightarrow> sys \<Rightarrow> bool"
    and P :: "'a \<Rightarrow> FlowState \<Rightarrow> bool"
  assumes keeps: "kern_ok k \<Longrightarrow> C key h k p s \<Longrightarrow> run_hook h k p s = Some (r, s') \<Longrightarrow>
      flow_table s key = Some st \<Longrightarrow> P x st \<Longrightarrow> \<exists>st'. flow_table s' key = Some st' \<and> P x st'"
begin

lemma kept_along:
  assumes "along (C key) xs s" and "play xs s = Some s'" and "flow_table s key = Some st" and "P x st"
  shows "\<exists>st'. flow_table s' key = Some st' \<and> P x st'"
  using assms
proof (induction xs arbitrary: s st)
  case (Cons a xs)
  obtain h k p where a: "a = (h, k, p)" by (cases a)
  with Cons.prems(2) obtain r s1 where run: "run_hook h k p s = Some (r, s1)" "play xs s1 = Some s'"
    by (auto simp: bind_eq_Some_conv)
  with Cons.prems(1) a have c: "kern_ok k" "C key h k p s" "along (C key) xs s1" by simp_all
  from keeps [OF c(1,2) run(1) Cons.prems(3,4)]
  obtain st1 where "flow_table s1 key = Some st1" "P x st1" by blast
  then show ?case by (rule Cons.IH [OF c(3) run(2)])
qed simp

end

text \<open>One invocation of a touching hook.\<close>

context touch_hook
begin

lemma hook_keeps:
  assumes "flow_table s key = Some st" and "P st"
    and "hkey k p s = Some key \<Longrightarrow> P (hupd k p s st)"
  shows "\<exists>st'. flow_table (hook k p s) key = Some st' \<and> P st'"
  using assms by (cases "hkey k p s = Some key") (auto simp: hook_own_row hook_other_rows)

end

lemma open_keeps:
  assumes "kern_ok k" and "leaves_row key h k p s" and "h = TcpConnect \<or> h = InetCskAccept"
    and "run_hook h k p s = Some (r, s')"
  shows "flow_table s' key = flow_table s key"
proof -
  have lru: "lru_ok (kc_flow k)" using assms(1) by (simp add: kern_ok_def)
  show ?thesis
    using assms(2-4) connect.open_other_rows [OF lru, of p key s]
      accept.open_other_rows [OF lru, of p key s]
    by (auto simp: leaves_row_def)
qed

lemma close_keeps:
  assumes "kern_ok k" and "leaves_row key TcpClose k p s" and "run_hook TcpClose k p s = Some (r, s')"
  shows "flow_table s' key = flow_table s key"
proof -
  have "remove_ok (kc_flow k)" using assms(1) by (simp add: kern_ok_def)
  then show ?thesis
    using assms(2,3)
    by (cases rule: tcp_close_cases [where p = p and s = s]) (auto simp: leaves_row_def)
qed

text \<open>
  What a condition must keep: the rows of the updates it lets through. The remaining programs
  do not write the row.
\<close>

lemma row_guard_by_updates:
  assumes "kern_ok k" and "leaves_row key h k p s" and "run_hook h k p s = Some (r, s')"
    and "flow_table s key = Some st" and "P st"
    and "P (rst_row st)" and "\<And>n t. P (sendmsg_row n t st)" and "\<And>n t. P (recvmsg_row n t st)"
    and "h = TcpRcvEstablished \<Longrightarrow> quality_key k p = Some key \<Longrightarrow> P (quality_upd k p st)"
    and "P (ecn_row st)" and "h = TcpEnterLoss \<Longrightarrow> sk_key k p = Some key \<Longrightarrow> P (enter_loss_row st)"
    and "h = TcpEnterRecovery \<Longrightarrow> sk_key k p = Some key \<Longrightarrow> P (enter_recovery_row st)"
    and "\<And>reason n. P (retransmit_row reason n st)" and "P (sack_row st)"
    and "\<And>n. P (ssl_read_row n st)"
    and "\<And>data n now ts st'. h = SslWriteReturn \<Longrightarrow> tls_thread_flow s (kc_pid_tgid k) = Some key \<Longrightarrow>
          ssl_write_row data n now ts st = Some st' \<Longrightarrow> P st'"
  shows "\<exists>st'. flow_table s' key = Some st' \<and> P st'"
proof (cases h)
  case SslWriteReturn
  then have "ssl_write_return k p s = Some (r, s')" using assms(3) by simp
  then show ?thesis
  proof (cases rule: ssl_write_return_cases)
    case (merge key' st1 n data ts st')
    then show ?thesis using assms(4,5,16) SslWriteReturn by (cases "key' = key") auto
  qed (use assms(4,5) in auto)
next
  case TcpConnect
  then show ?thesis using open_keeps [OF assms(1,2) _ assms(3)] assms(4,5) by simp
next
  case InetCskAccept
  then show ?thesis using open_keeps [OF assms(1,2) _ assms(3)] assms(4,5) by simp
next
  case TcpClose
  then show ?thesis using close_keeps assms(1-5) by auto
next
  case TcpRcvEstablished
  then show ?thesis using assms(3,9) quality.hook_keeps [of s key st P k p, OF assms(4,5)] by auto
next
  case TcpEnterLoss
  then show ?thesis using assms(3,11) loss.hook_keeps [of s key st P k p, OF assms(4,5)] by auto
next
  case TcpEnterRecovery
  then show ?thesis using assms(3,12) recovery.hook_keeps [of s key st P k p, OF assms(4,5)] by auto
qed (use assms(3,6-8,10,13-15)
    rst.hook_keeps [of s key st P k p, OF assms(4,5)] sendmsg.hook_keeps [of s key st P k p, OF assms(4,5)]
    recvmsg.hook_keeps [of s key st P k p, OF assms(4,5)] recvmsg_entry.hook_keeps [of s key st P k p, OF assms(4,5)]
    ecn.hook_keeps [of s key st P k p, OF assms(4,5)] rto.hook_keeps [of s key st P k p, OF assms(4,5)]
    tlp.hook_keeps [of s key st P k p, OF assms(4,5)] fast.hook_keeps [of s key st P k p, OF assms(4,5)]
    sack.hook_keeps [of s key st P k p, OF assms(4,5)] new_task.hook_keeps [of s key st P k p, OF assms(4,5)]
    exiting.hook_keeps [of s key st P k p, OF assms(4,5)] write_entry.hook_keeps [of s key st P k p, OF assms(4,5)]
    read_entry.hook_keeps [of s key st P k p, OF assms(4,5)] read_return.hook_keeps [of s key st P k p, OF assms(4,5)]
    in \<open>auto simp: retransmit_upd_def\<close>)

section \<open>The congestion state of a row\<close>

lemma write_row_congestion:
  "ssl_write_row data n now ts st = Some st' \<Longrightarrow>
   st_congestion_state_final st' = st_congestion_state_final st"
  by (auto simp: ssl_write_row_def Let_def bind_eq_Some_conv split: if_splits)

text \<open>The value the reset hook stores stays, since no other program is let through that writes the field.\<close>

interpretation congestion: row_guard leaves_congestion
  "\<lambda>_ :: unit. \<lambda>st. st_congestion_state_final st = CloseReason_u8 Reset"
proof
  fix k key h p s r s' st
  assume ok: "kern_ok k" "leaves_congestion key h k p s" "run_hook h k p s = Some (r, s')"
    and row: "flow_table s key = Some st" "st_congestion_state_final st = CloseReason_u8 Reset"
  from ok(2) have "leaves_row key h k p s"
    "h = TcpRcvEstablished \<Longrightarrow> quality_key k p \<noteq> Some key"
    "h = TcpEnterLoss \<Longrightarrow> sk_key k p \<noteq> Some key" "h = TcpEnterRecovery \<Longrightarrow> sk_key k p \<noteq> Some key"
    by (simp_all add: leaves_congestion_def)
  with ok(1,3) row show "\<exists>st'. flow_table s' key = Some st' \<and> st_congestion_state_final st' = CloseReason_u8 Reset"
    by (intro row_guard_by_updates [where h = h and k = k and p = p and s = s])
      (auto simp: rst_row_def sendmsg_row_eq recvmsg_row_eq ecn_row_def retransmit_row_eq sack_row_def
        ssl_read_row_def write_row_congestion)
qed

section \<open>The request of a row\<close>

text \<open>Host, method, path and the two flags: what the application context is built from.\<close>

definition request_fields :: "FlowState \<Rightarrow> bytes \<times> bytes \<times> bytes \<times> u8 \<times> u8" where
  "request_fields st =
     (st_http_host st, st_http_method st, st_http_path st, st_has_http st, st_has_tls st)"

lemma request_fields_update:
  "request_fields (rst_row st) = request_fields st"
  "request_fields (sendmsg_row n t st) = request_fields st"
  "request_fields (recvmsg_row n t st) = request_fields st"
  "request_fields (quality_upd k p st) = request_fields st"
  "request_fields (ecn_row st) = request_fields st"
  "request_fields (enter_loss_row st) = request_fields st"
  "request_fields (enter_recovery_row st) = request_fields st"
  "request_fields (retransmit_row reason n st) = request_fields st"
  "request_fields (sack_row st) = request_fields st"
  "request_fields (ssl_read_row status st) = request_fields st"
  by (auto simp: request_fields_def rst_row_def sendmsg_row_eq recvmsg_row_eq ecn_row_def retransmit_row_eq
      sack_row_def ssl_read_row_def enter_loss_row_def enter_recovery_row_def quality_upd_def quality_row_eq
      split: option.split)

interpretation request: row_guard leaves_request "\<lambda>x st. request_fields st = x"
proof
  fix k key h p s r s' st and x :: "bytes \<times> bytes \<times> bytes \<times> u8 \<times> u8"
  assume ok: "kern_ok k" "leaves_request key h k p s" "run_hook h k p s = Some (r, s')"
    and row: "flow_table s key = Some st" "request_fields st = x"
  from ok(2) have "leaves_row key h k p s"
    "h = SslWriteReturn \<Longrightarrow> tls_thread_flow s (kc_pid_tgid k) \<noteq> Some key"
    by (simp_all add: leaves_request_def)
  with ok(1,3) row show "\<exists>st'. flow_table s' key = Some st' \<and> request_fields st' = x"
    by (intro row_guard_by_updates [where h = h and k = k and p = p and s = s])
      (auto simp: request_fields_update)
qed

section \<open>The direction of a row\<close>

text \<open>Only the opening hooks write it, so every program that leaves the row keeps it.\<close>

lemma st_direction_update:
  "st_direction (rst_row st) = st_direction st"
  "st_direction (sendmsg_row n t st) = st_direction st"
  "st_direction (recvmsg_row n t st) = st_direction st"
  "st_direction (quality_upd k p st) = st_direction st"
  "st_direction (ecn_row st) = st_direction st"
  "st_direction (enter_loss_row st) = st_direction st"
  "st_direction (enter_recovery_row st) = st_direction st"
  "st_direction (retransmit_row reason n st) = st_direction st"
  "st_direction (sack_row st) = st_direction st"
  "st_direction (ssl_read_row status st) = st_direction st"
  by (auto simp: rst_row_def sendmsg_row_eq recvmsg_row_eq ecn_row_def retransmit_row_eq
      sack_row_def ssl_read_row_def enter_loss_row_def enter_recovery_row_def quality_upd_def quality_row_eq
      split: option.split)

lemma write_row_direction:
  "ssl_write_row data n now ts st = Some st' \<Longrightarrow> st_direction st' = st_direction st"
  by (auto simp: ssl_write_row_def Let_def bind_eq_Some_conv split: if_splits)

interpretation direction: row_guard leaves_row "\<lambda>d st. st_direction st = d"
proof
  fix k key h p s r s' st and d :: u8
  assume "kern_ok k" "leaves_row key h k p s" "run_hook h k p s = Some (r, s')"
    "flow_table s key = Some st" "st_direction st = d"
  then show "\<exists>st'. flow_table s' key = Some st' \<and> st_direction st' = d"
    by (intro row_guard_by_updates [where h = h and k = k and p = p and s = s])
      (auto simp: st_direction_update write_row_direction)
qed

text \<open>The concrete run of a send and an acknowledgement on a demonstration connection.\<close>

lemma demo_calls_leave:
  assumes "flow_table s (demo_key 6) = Some st"
  shows "along (leaves_congestion (demo_key 6)) [demo_call TcpSendmsg t 6 []] s"
    and "along (leaves_request (demo_key 6)) [demo_call TcpSendmsg t 6 []] s"
    and "along (leaves_row (demo_key 6)) [demo_call TcpSendmsg t 6 []] s"
  using assms
  by (simp_all add: demo_call_def leaves_congestion_def leaves_request_def leaves_row_def demo_kernel_ok
      tcp_sendmsg_def handle_sendmsg_def demo_fields demo_sock_key update_row_def touch_def probe_ret_def)

end
