(* ===== verification/SensorProps.thy ===== *)
theory SensorProps
  imports TlsFormat Between
begin

text \<open>
  What the kernel side guarantees as a whole: no program faults, what a thread's entry maps
  hold, when a row may disappear, and what an emitted event tells about its connection.
\<close>

section \<open>No program faults\<close>

lemma fst_probe_ret_zero: "(\<And>v s'. res = (Inr v, s') \<Longrightarrow> v = 0) \<Longrightarrow> fst (probe_ret res) = 0"
  by (cases res) (auto simp: probe_ret_def split: sum.split)

lemma handlers_return_zero:
  "fst (tcp_connect k p s) = 0" "fst (inet_csk_accept k p s) = 0" "fst (tcp_close k p s) = 0"
  "fst (tcp_send_active_reset k p s) = 0" "fst (tcp_sendmsg k p s) = 0"
  "fst (tcp_recvmsg_entry k p s) = 0" "fst (tcp_recvmsg k p s) = 0"
  "fst (tcp_rcv_established k p s) = 0" "fst (tcp_enter_cwr k p s) = 0"
  "fst (tcp_enter_loss k p s) = 0" "fst (tcp_enter_recovery k p s) = 0"
  "fst (tcp_retransmit_skb k p s) = 0" "fst (tcp_send_loss_probe k p s) = 0"
  "fst (tcp_fast_retransmit k p s) = 0" "fst (tcp_sacktag k p s) = 0"
  "fst (on_new_task k p s) = 0" "fst (on_exit k p s) = 0"
  "fst (ssl_write_entry k p s) = 0" "fst (ssl_read_entry k p s) = 0"
  "fst (ssl_read_return k p s) = 0"
  by (auto simp: probe_ret_def tcp_connect_def handle_tcp_connect_def inet_csk_accept_def handle_accept_def
      tcp_close_def handle_tcp_close_def tcp_send_active_reset_def handle_rst_def
      tcp_sendmsg_def handle_sendmsg_def tcp_recvmsg_entry_def handle_recvmsg_entry_def
      tcp_recvmsg_def handle_recvmsg_def tcp_rcv_established_def handle_rcv_established_def
      tcp_enter_cwr_def handle_ecn_def tcp_enter_loss_def handle_enter_loss_def
      tcp_enter_recovery_def handle_enter_recovery_def tcp_retransmit_skb_def tcp_send_loss_probe_def
      tcp_fast_retransmit_def handle_retransmit_def tcp_sacktag_def handle_sack_def
      on_new_task_def handle_new_task_def on_exit_def ssl_write_entry_def handle_ssl_write_entry_def
      ssl_read_entry_def handle_ssl_read_entry_def ssl_read_return_def Let_def
      split: option.split sum.split prod.split)

lemma write_return_zero: "ssl_write_return k p s = Some (r, s') \<Longrightarrow> r = 0"
  by (auto simp: ssl_write_return_def Let_def split: option.splits if_splits prod.splits)

lemma hook_returns_zero: "run_hook h k p s = Some (r, s') \<Longrightarrow> r = 0"
  using write_return_zero by (cases h) (auto simp: handlers_return_zero prod_eq_iff)

lemma write_return_total:
  assumes "reach Q t s" and "kern_ok k"
  shows "ssl_write_return k p s \<noteq> None"
proof
  assume none: "ssl_write_return k p s = None"
  then show False
  proof (rule ssl_write_return_None)
    fix key st n data ts
    assume a: "flow_table s key = Some st" "write_plain k p s = Some (n, data, ts)"
      "ssl_write_row data n (kc_ktime k 0) ts st = None"
    have wf: "wf_state st"
      using buffers.reach_row [OF reach_any [OF assms(1)] a(1)] by (simp add: buffers_ok_def)
    note len = write_plain_Some(1,2) [OF assms(2) reach_scratch [OF assms(1)] a(2)]
    show False
      using a(3) by (rule_tac ssl_write_row_effect [OF len wf, of "kc_ktime k 0" ts]) simp
  qed
qed

text \<open>
  C1. Memory safety and totality of the eBPF side: in every reachable state every program
  finishes without accessing memory outside its buffers (a fault would be \<open>None\<close>), returns 0,
  and leaves the scratch entries at their 256 bytes.
\<close>

theorem programs_never_fault:
  assumes "reach Q t s" and "kern_ok k"
  shows "\<exists>s'. run_hook h k p s = Some (0, s') \<and> wf_scratch s'"
proof -
  have "run_hook h k p s \<noteq> None"
    using write_return_total [OF assms] by (cases h) simp_all
  then obtain r s' where run: "run_hook h k p s = Some (r, s')" by auto
  with hook_returns_zero have "r = 0" by blast
  with run hook_scratch [OF assms(2) reach_scratch [OF assms(1)] run] show ?thesis by auto
qed

theorem programs_never_fault_witness:
  "\<exists>s'. run_hook SslWriteReturn (demo_kernel 7 400 (demo_sock 6) []) demo_probe (demo_end 6) = Some (0, s') \<and>
     wf_scratch s'"
  by (rule programs_never_fault [OF demo_reach(1) demo_kernel_ok])

section \<open>Threads do not disturb each other\<close>

text \<open>The maps keyed by \<^verbatim>\<open>pid_tgid\<close>, read at one thread.\<close>

definition thread_view :: "u64 \<Rightarrow> sys \<Rightarrow> u64 option \<times> FlowKey option \<times> SslArgs option \<times> SslArgs option" where
  "thread_view tid s = (recvmsg_sock s tid, tls_thread_flow s tid, ssl_write_args s tid, ssl_read_args s tid)"

lemma insert_ignore_other: "hash_ok ops \<Longrightarrow> x \<noteq> y \<Longrightarrow> insert_ignore ops m x v y = m y"
  using hash_insert_ignore [of ops m x v] by auto

lemma remove_ignore_other: "hash_ok ops \<Longrightarrow> x \<noteq> y \<Longrightarrow> remove_ignore ops m x y = m y"
  using remove_ignore_cases [of ops m x] by auto

lemma op_insert_other: "hash_ok ops \<Longrightarrow> op_insert ops m x v = Inr m' \<Longrightarrow> x \<noteq> y \<Longrightarrow> m' y = m y"
  unfolding hash_ok_def by (metis fun_upd_other)

lemma update_row_view [simp]: "thread_view tid (update_row key f s) = thread_view tid s"
  by (simp add: thread_view_def)

lemma init_flow_row_view:
  assumes "hash_ok (kc_tls k)" and "kc_pid_tgid k \<noteq> tid"
  shows "thread_view tid (snd (init_flow_row k key direction s)) = thread_view tid s"
  using insert_ignore_other [OF assms]
  by (auto simp: init_flow_row_def thread_view_def Let_def split: sum.split option.split)

lemma hook_view:
  assumes ok: "kern_ok k" and tid: "kc_pid_tgid k \<noteq> tid" and run: "run_hook h k p s = Some x"
  shows "thread_view tid (snd x) = thread_view tid s"
proof -
  note ops = kern_okD(7-11) [OF ok]
  note other = insert_ignore_other [OF _ tid] remove_ignore_other [OF _ tid] op_insert_other [OF _ _ tid]
  have sends: "thread_view tid (snd (tcp_connect k p s)) = thread_view tid s"
    "thread_view tid (snd (inet_csk_accept k p s)) = thread_view tid s"
    using init_flow_row_view [OF ops(2) tid]
    by (auto simp: tcp_connect_def handle_tcp_connect_def inet_csk_accept_def handle_accept_def
        split: option.split sum.split prod.split) (metis snd_conv)+
  show ?thesis
  proof (cases h)
    case SslWriteReturn
    with run obtain r s' where "ssl_write_return k p s = Some (r, s')" "x = (r, s')" by (cases x) auto
    then show ?thesis
      using other ops
      by (auto simp: ssl_write_return_def thread_view_def forget_write_def Let_def
          split: option.splits if_splits prod.splits)
  next
    case TcpConnect
    with run sends(1) show ?thesis by auto
  next
    case InetCskAccept
    with run sends(2) show ?thesis by auto
  next
    case SslReadReturn
    with run show ?thesis
      using other ops
      by (auto simp: ssl_read_return_def thread_view_def forget_read_def Let_def
          split: option.split prod.split)
  qed (use run other ops in \<open>auto simp: thread_view_def tcp_close_def handle_tcp_close_def
      tcp_send_active_reset_def handle_rst_def
      tcp_sendmsg_def handle_sendmsg_def tcp_recvmsg_entry_def handle_recvmsg_entry_def
      tcp_recvmsg_def handle_recvmsg_def forget_sock_def tcp_rcv_established_def handle_rcv_established_def
      tcp_enter_cwr_def handle_ecn_def tcp_enter_loss_def
      handle_enter_loss_def tcp_enter_recovery_def handle_enter_recovery_def
      tcp_retransmit_skb_def tcp_send_loss_probe_def tcp_fast_retransmit_def handle_retransmit_touch
      tcp_sacktag_def handle_sack_def on_new_task_def handle_new_task_def on_exit_def ssl_write_entry_def
      handle_ssl_write_entry_def ssl_read_entry_def handle_ssl_read_entry_def Let_def
      split: option.split sum.split\<close>)
qed

definition by_others :: "u64 \<Rightarrow> invocation list \<Rightarrow> bool" where
  "by_others tid xs \<longleftrightarrow> list_all (\<lambda>(h, k, p). kern_ok k \<and> kc_pid_tgid k \<noteq> tid) xs"

lemma play_view:
  "by_others tid xs \<Longrightarrow> play xs s = Some s' \<Longrightarrow> thread_view tid s' = thread_view tid s"
proof (induction xs arbitrary: s)
  case (Cons x xs)
  obtain h k p where x: "x = (h, k, p)" by (cases x)
  with Cons.prems(2) obtain r s1 where s1: "run_hook h k p s = Some (r, s1)" "play xs s1 = Some s'"
    by (auto simp: bind_eq_Some_conv)
  from Cons.prems(1) x have ok: "kern_ok k" "kc_pid_tgid k \<noteq> tid" "by_others tid xs"
    by (simp_all add: by_others_def)
  from Cons.IH [OF ok(3) s1(2)] hook_view [OF ok(1,2) s1(1)] show ?case by simp
qed simp

lemma play_scratch:
  "list_all (\<lambda>(h, k, p). kern_ok k) xs \<Longrightarrow> wf_scratch s \<Longrightarrow> play xs s = Some s' \<Longrightarrow> wf_scratch s'"
proof (induction xs arbitrary: s)
  case (Cons x xs)
  then show ?case using hook_scratch by (cases x) (fastforce simp: bind_eq_Some_conv)
qed simp

text \<open>
  C9. The receive probes pair up. Between the entry and the return of one \<^verbatim>\<open>tcp_recvmsg\<close>
  call any number of programs may run for other threads; the return still accounts the
  returned byte count, on the row of the socket the entry saw, and to no other row, and it
  forgets the socket when the map removal succeeds.
\<close>

theorem recvmsg_return_accounts_entry_socket:
  assumes "arg0_ptr p1 = Some sk" and "op_insert (kc_recv k1) (recvmsg_sock s) tid sk = Inr m"
    and "kern_ok k1" and "kern_ok k2" and "kc_pid_tgid k1 = tid" and "kc_pid_tgid k2 = tid"
    and "by_others tid xs" and "play xs (snd (tcp_recvmsg_entry k1 p1 s)) = Some s2"
    and "ret_i64 p2 = Some bytes" and "0 < sint bytes"
    and "flow_key_from_sock (kc_kread k2) sk = Some key"
  shows "flow_table (snd (tcp_recvmsg k2 p2 s2)) =
      touch key (recvmsg_row bytes (kc_ktime k2 0)) (flow_table s2) \<and>
    (op_remove (kc_recv k2) (recvmsg_sock s2) tid = Inr m2 \<longrightarrow>
      recvmsg_sock (snd (tcp_recvmsg k2 p2 s2)) tid = None)"
proof -
  have "m = (recvmsg_sock s)(tid \<mapsto> sk)"
    using assms(2) kern_okD(7) [OF assms(3)] unfolding hash_ok_def by blast
  then have "recvmsg_sock (snd (tcp_recvmsg_entry k1 p1 s)) tid = Some sk"
    using assms(1,2,5) by (simp add: tcp_recvmsg_entry_def handle_recvmsg_entry_def insert_ignore_def)
  with play_view [OF assms(7,8)] have sk: "recvmsg_sock s2 tid = Some sk" by (simp add: thread_view_def)
  then have "flow_table (snd (tcp_recvmsg k2 p2 s2)) =
      touch key (recvmsg_row bytes (kc_ktime k2 0)) (flow_table s2)"
    using assms(6,9-11) by (simp add: tcp_recvmsg_def handle_recvmsg_def)
  moreover have "recvmsg_sock (snd (tcp_recvmsg k2 p2 s2)) tid = None"
    if r: "op_remove (kc_recv k2) (recvmsg_sock s2) tid = Inr m2"
  proof -
    have "m2 = (recvmsg_sock s2)(tid := None)"
      using r kern_okD(7) [OF assms(4)] unfolding hash_ok_def remove_ok_def by blast
    with r sk assms(6,9-11) show ?thesis
      by (simp add: tcp_recvmsg_def handle_recvmsg_def forget_sock_def remove_ignore_def)
  qed
  ultimately show ?thesis by blast
qed

section \<open>What a write and a read leave in the row\<close>

lemma write_return_row:
  assumes "ret_i32 p = Some ret" and "0 < sint ret"
    and "ssl_write_args s (kc_pid_tgid k) = Some args"
    and "tls_thread_flow s (kc_pid_tgid k) = Some key" and "flow_table s key = Some st"
    and "tls_uprobe_scratch s (kc_cpu k) = Some scratch"
    and "n = min (unat (sa_len args)) TLS_SCRATCH_LEN" and "kc_uread k (sa_buf_ptr args) n = Inr bs"
    and "ssl_write_row (bs @ drop n scratch) n (kc_ktime k 0) (sa_ts_ns args) st = Some st'"
  shows "map_option (\<lambda>x. flow_table (snd x)) (ssl_write_return k p s) = Some ((flow_table s)(key \<mapsto> st'))"
  using assms by (simp add: ssl_write_return_def scratch_read_def Let_def)

text \<open>A ClientHello is not an HTTP request, and an HTTP request is not a ClientHello.\<close>

lemma hello_no_http:
  assumes "hello_ok h before host after"
  shows "parse_http_request (enc_record h @ pad) (length (enc_record h)) out = Some out"
proof -
  have "rd (enc_record h @ pad) (length (enc_record h)) 0 = 0x16"
    by (simp add: rd_eq enc_record_def)
  then show ?thesis by (simp add: parse_http_request_def is_http_method_def ch_def)
qed

lemma request_no_tls:
  assumes "request_ok m path headers host rest"
  shows "clienthello_extensions (enc_request m path headers host rest @ pad)
      (length (enc_request m path headers host rest)) = None"
    and "rd (enc_request m path headers host rest @ pad)
      (length (enc_request m path headers host rest)) 0 \<noteq> 0x16"
proof -
  have m: "3 \<le> length m" "is_http_method (m ! 0) (m ! 1) (m ! 2)"
    using assms by (auto simp: request_ok_def Let_def)
  have "rd (enc_request m path headers host rest @ pad)
      (length (enc_request m path headers host rest)) 0 = m ! 0"
    using m(1) by (auto simp: rd_eq enc_request_def nth_append)
  with m(2) show n: "rd (enc_request m path headers host rest @ pad)
      (length (enc_request m path headers host rest)) 0 \<noteq> 0x16"
    by (auto simp: is_http_method_def ch_def)
  then show "clienthello_extensions (enc_request m path headers host rest @ pad)
      (length (enc_request m path headers host rest)) = None"
    by (simp add: clienthello_extensions_def clienthello_header_def)
qed


definition demo_mid :: sys where
  "demo_mid = the (play [demo_call TcpConnect 100 6 []] (init_sys 1))"

theorem recvmsg_return_accounts_entry_socket_witness:
  "flow_table (snd (tcp_recvmsg (demo_kernel 7 190 (demo_sock 6) []) demo_probe
       (snd (tcp_recvmsg_entry (demo_kernel 7 180 (demo_sock 6) []) demo_probe demo_mid)))) =
     touch (demo_key 6) (recvmsg_row 500 190)
       (flow_table (snd (tcp_recvmsg_entry (demo_kernel 7 180 (demo_sock 6) []) demo_probe demo_mid)))"
proof -
  let ?k = "demo_kernel 7 180 (demo_sock 6) []"
  have "op_insert (kc_recv ?k) (recvmsg_sock demo_mid) 7 0x1000 = Inr ((recvmsg_sock demo_mid)(7 \<mapsto> 0x1000))"
    by simp
  from recvmsg_return_accounts_entry_socket [of demo_probe "0x1000" ?k demo_mid 7 _
      "demo_kernel 7 190 (demo_sock 6) []" "[]" _ demo_probe 500 "demo_key 6", OF _ this
      demo_kernel_ok demo_kernel_ok]
  show ?thesis by (simp add: demo_fields demo_sock_key by_others_def demo_kernel_ktime)
qed

text \<open>
  A completed \<^verbatim>\<open>SSL_write\<close> (\<^verbatim>\<open>SSL_read\<close>) whose user buffer holds \<open>msg\<close>, of any length, on a
  thread whose last outbound flow is \<open>key\<close>; \<open>ts\<close> is the time of the call's entry. The probe asks
  for at most the 256 bytes of the scratch entry.
\<close>

definition write_sees :: "kcalls \<Rightarrow> probe \<Rightarrow> sys \<Rightarrow> u64 \<Rightarrow> FlowKey \<Rightarrow> bytes \<Rightarrow> bool" where
  "write_sees k p s ts key msg \<longleftrightarrow>
     (case (ret_i32 p, ssl_write_args s (kc_pid_tgid k), tls_uprobe_scratch s (kc_cpu k)) of
        (Some ret, Some args, Some scratch) \<Rightarrow>
          0 < sint ret \<and> sa_ts_ns args = ts \<and> unat (sa_len args) = length msg \<and>
          kc_uread k (sa_buf_ptr args) (min (length msg) TLS_SCRATCH_LEN) = Inr (take TLS_SCRATCH_LEN msg) \<and>
          tls_thread_flow s (kc_pid_tgid k) = Some key
      | _ \<Rightarrow> False)"

definition read_sees :: "kcalls \<Rightarrow> probe \<Rightarrow> sys \<Rightarrow> FlowKey \<Rightarrow> bytes \<Rightarrow> bool" where
  "read_sees k p s key msg \<longleftrightarrow>
     (case (ret_i32 p, ssl_read_args s (kc_pid_tgid k), tls_uprobe_scratch s (kc_cpu k)) of
        (Some ret, Some args, Some scratch) \<Rightarrow>
          0 < sint ret \<and> unat ret = length msg \<and>
          kc_uread k (sa_buf_ptr args) (min (length msg) TLS_SCRATCH_LEN) = Inr (take TLS_SCRATCH_LEN msg) \<and>
          tls_thread_flow s (kc_pid_tgid k) = Some key
      | _ \<Rightarrow> False)"

lemma write_sees_row:
  assumes "write_sees k p s ts key msg" and "take TLS_SCRATCH_LEN msg = seen" and "flow_table s key = Some st"
    and "\<And>pad. ssl_write_row (seen @ pad) (length seen) (kc_ktime k 0) ts st = Some st'"
  shows "map_option (\<lambda>x. flow_table (snd x)) (ssl_write_return k p s) = Some ((flow_table s)(key \<mapsto> st'))"
proof -
  have n: "length seen = min (length msg) TLS_SCRATCH_LEN" using assms(2) by auto
  from assms(1) obtain ret args scratch where "ret_i32 p = Some ret" "0 < sint ret"
    "ssl_write_args s (kc_pid_tgid k) = Some args" "tls_uprobe_scratch s (kc_cpu k) = Some scratch"
    "tls_thread_flow s (kc_pid_tgid k) = Some key" "sa_ts_ns args = ts"
    "length seen = min (unat (sa_len args)) TLS_SCRATCH_LEN"
    "kc_uread k (sa_buf_ptr args) (length seen) = Inr seen"
    unfolding n assms(2) [symmetric] by (auto simp: write_sees_def split: option.splits)
  with assms(3,4) show ?thesis by (intro write_return_row [where n = "length seen"]) auto
qed

lemma request_row:
  assumes "request_ok m path headers host rest" and "wf_state st"
  shows "ssl_write_row (enc_request m path headers host rest @ pad)
      (length (enc_request m path headers host rest)) now ts st =
    Some (st\<lparr>st_http_host := overwrite host (st_http_host st),
        st_http_method := overwrite m (st_http_method st),
        st_http_path := overwrite path (st_http_path st),
        st_has_http := 1, st_ssl_write_ts_ns := ts\<rparr>)"
proof -
  let ?msg = "enc_request m path headers host rest"
  have sni: "parse_tls_clienthello_sni (?msg @ pad) (length ?msg) (st_tls_sni st) = Some (0, st_tls_sni st)"
    by (simp add: parse_tls_clienthello_sni_def request_no_tls(1) [OF assms(1)])
  have tls: "\<not> tls_detected (?msg @ pad) (length ?msg) 0"
    using request_no_tls(2) [OF assms(1), of pad] by (simp add: tls_detected_def)
  have wf: "http_wf \<lparr>ho_host = st_http_host st, ho_method = st_http_method st,
      ho_path = st_http_path st, ho_has_http = 0\<rparr>"
    using assms(2) by (simp add: wf_state_def http_wf_def)
  show ?thesis
    using tls by (simp add: ssl_write_row_eq [OF sni parse_http_complete [OF assms(1) wf]])
qed

lemma request_row_wf:
  assumes "request_ok m path headers host rest" and "wf_state st"
  shows "wf_state (st\<lparr>st_http_host := overwrite host (st_http_host st),
        st_http_method := overwrite m (st_http_method st),
        st_http_path := overwrite path (st_http_path st),
        st_has_http := 1, st_ssl_write_ts_ns := ts\<rparr>)"
proof -
  have "length m \<le> 7" "length m + length path + length host + 8 \<le> 256"
    using assms(1) by (auto simp: request_ok_def Let_def enc_request_def TLS_SCRATCH_LEN_def)
  with assms(2) show ?thesis by (simp add: wf_state_def len_defs)
qed

text \<open>
  C6. A TLS ClientHello written through \<^verbatim>\<open>SSL_write\<close> is recognised from end to end: for every
  ClientHello record (RFC 8446 encoding; arbitrary record version 3.x, random, session id, cipher
  suites and other extensions) within the parser's limits (a record of at most 256 bytes, an
  extension block of at most 220, fewer than 24 extensions of at most 128 bytes before
  \<^verbatim>\<open>server_name\<close>, a name of at most 123 bytes) the return probe writes exactly its host name over
  the start of the row's SNI buffer (the tail of a longer earlier name stays), sets the TLS flag
  and the write time, stamps the TLS time if it was unset, and leaves all other rows alone.
\<close>

theorem clienthello_recorded:
  assumes "write_sees k p s ts key (enc_record h)" and "hello_ok h before host after"
    and "flow_table s key = Some st" and "wf_state st"
  shows "map_option (\<lambda>x. flow_table (snd x)) (ssl_write_return k p s) = Some ((flow_table s)(key \<mapsto>
     st\<lparr>st_tls_sni := overwrite host (st_tls_sni st), st_has_tls := 1,
        st_tls_ready_ts_ns := (if st_tls_ready_ts_ns st = 0 then kc_ktime k 0 else st_tls_ready_ts_ns st),
        st_ssl_write_ts_ns := ts\<rparr>))"
proof (rule write_sees_row [OF assms(1) _ assms(3)])
  show "take TLS_SCRATCH_LEN (enc_record h) = enc_record h" using assms(2) by (simp add: hello_ok_def)
  fix pad
  have sni: "parse_tls_clienthello_sni (enc_record h @ pad) (length (enc_record h)) (st_tls_sni st) =
      Some (1, overwrite host (st_tls_sni st))"
    using parse_sni_complete [OF assms(2)] assms(4) by (simp add: wf_state_def)
  show "ssl_write_row (enc_record h @ pad) (length (enc_record h)) (kc_ktime k 0) ts st =
    Some (st\<lparr>st_tls_sni := overwrite host (st_tls_sni st), st_has_tls := 1,
        st_tls_ready_ts_ns := (if st_tls_ready_ts_ns st = 0 then kc_ktime k 0 else st_tls_ready_ts_ns st),
        st_ssl_write_ts_ns := ts\<rparr>)"
    by (simp add: ssl_write_row_eq [OF sni hello_no_http [OF assms(2)]] tls_detected_def)
qed


lemma take_status:
  assumes "length version \<le> 247"
  shows "take TLS_SCRATCH_LEN (enc_status version a b c rest) =
    enc_status version a b c (take (247 - length version) rest)"
  using assms by (simp add: enc_status_def TLS_SCRATCH_LEN_def take_Cons' diff_diff_add)

lemma read_sees_status:
  assumes "read_sees k p s key msg" and "take TLS_SCRATCH_LEN msg = seen"
  obtains pad where "read_status k p s = parse_http_status (seen @ pad) (length seen)"
    "tls_thread_flow s (kc_pid_tgid k) = Some key"
proof -
  have n: "min (length msg) TLS_SCRATCH_LEN = length seen" using assms(2) by auto
  from assms(1) obtain ret args scratch where "ret_i32 p = Some ret" "0 < sint ret" "unat ret = length msg"
    "ssl_read_args s (kc_pid_tgid k) = Some args" "tls_uprobe_scratch s (kc_cpu k) = Some scratch"
    "tls_thread_flow s (kc_pid_tgid k) = Some key" "kc_uread k (sa_buf_ptr args) (length seen) = Inr seen"
    by (auto simp: read_sees_def n assms(2) split: option.splits)
  then show ?thesis
    by (intro that [of "drop (length seen) scratch"])
      (simp_all add: read_status_def read_plain_def scratch_read_def Let_def n)
qed

text \<open>A status found is stored, as the number it is.\<close>

lemma read_return_table:
  assumes "tls_thread_flow s (kc_pid_tgid k) = Some key"
  shows "flow_table (snd (ssl_read_return k p s)) =
    (if unat (read_status k p s) = 0 then flow_table s
     else touch key (ssl_read_row (of_nat (unat (read_status k p s)))) (flow_table s))"
  using assms by (simp add: read_return.hook_table read_key_def unat_eq_0)

text \<open>
  C20. An HTTP response read through \<^verbatim>\<open>SSL_read\<close>, however long the read: when the three digits
  of its status line lie in the first 256 bytes, the status of the thread's flow becomes their
  decimal value; the value 0 changes nothing.
\<close>

theorem http_status_recorded:
  assumes "read_sees k p s key (enc_status version a b c rest)"
    and "list_all (\<lambda>x. x \<noteq> SP) version" and "is_digit a" and "is_digit b" and "is_digit c"
    and "12 \<le> length (enc_status version a b c rest)" and "length version \<le> 247"
  shows "flow_table (snd (ssl_read_return k p s)) =
    (let v = 100 * (unat a - 48) + 10 * (unat b - 48) + (unat c - 48)
     in if v = 0 then flow_table s else touch key (ssl_read_row (of_nat v)) (flow_table s))"
proof -
  let ?v = "100 * (unat a - 48) + 10 * (unat b - 48) + (unat c - 48)"
  let ?seen = "enc_status version a b c (take (247 - length version) rest)"
  obtain pad where st: "read_status k p s = parse_http_status (?seen @ pad) (length ?seen)"
    and key: "tls_thread_flow s (kc_pid_tgid k) = Some key"
    by (rule read_sees_status [OF assms(1) take_status [OF assms(7)]])
  have "unat (read_status k p s) = ?v"
    unfolding st by (rule parse_status_complete [OF assms(2-5)])
      (use assms(6,7) in \<open>simp_all add: enc_status_def TLS_SCRATCH_LEN_def\<close>)
  then show ?thesis
    using read_return_table [OF key, of p] by (simp add: Let_def)
qed

subsection \<open>Concrete calls\<close>

lemma demo_mid_eq:
  "flow_table demo_mid = [demo_key 6 \<mapsto> fill_new_flow_state (demo_kernel 7 100 (demo_sock 6) [])
      Map.empty 1 EMPTY_FLOW_STATE]"
  "tls_thread_flow demo_mid = [7 \<mapsto> demo_key 6]"
  "tls_uprobe_scratch demo_mid = (\<lambda>c. if c < 1 then Some (replicate TLS_SCRATCH_LEN 0) else None)"
  by (simp_all add: demo_mid_def demo_call_def play_step tcp_connect_def handle_tcp_connect_def
      init_flow_row_def demo_fields demo_sock_key init_sys_def Let_def del: play.simps(2))

lemma demo_mid_wf: "wf_state (fill_new_flow_state (demo_kernel 7 100 (demo_sock 6) []) Map.empty 1 EMPTY_FLOW_STATE)"
  using fresh_buffers_ok [OF demo_kernel_ok] by (simp add: buffers_ok_def)

lemma reach_snd:
  assumes "reach Q t s" and "kern_ok k" and "Q k" and "clock_between t k t'" and "run_hook h k p s = Some x"
  shows "reach Q t' (snd x)"
  using reach.invoke [OF assms(1-4), of h p "fst x" "snd x"] assms(5) by simp

lemma demo_mid_reach: "reach any_kernel 100 demo_mid"
proof -
  let ?k = "demo_kernel 7 100 (demo_sock 6) []"
  have "demo_mid = snd (tcp_connect ?k demo_probe (init_sys 1))"
    by (simp add: demo_mid_def demo_call_def play_step del: play.simps(2))
  then show ?thesis
    using reach_snd [OF reach.start [of any_kernel 0 1], of ?k 100 TcpConnect demo_probe] by (simp add: demo_simps)
qed

text \<open>The state after the entry probe of a write (read) of \<open>msg\<close>.\<close>

definition demo_pending :: "bytes \<Rightarrow> sys" where
  "demo_pending msg =
     (let k = demo_kernel 7 120 (demo_sock 6) [];
          p = demo_probe\<lparr>arg2_u32 := Some (of_nat (length msg))\<rparr>
      in snd (ssl_read_entry k p (snd (ssl_write_entry k p demo_mid))))"

lemma demo_pending_eq:
  "flow_table (demo_pending msg) = flow_table demo_mid"
  "ssl_write_args (demo_pending msg) 7 =
     Some \<lparr>sa_buf_ptr = 0x2000, sa_len = of_nat (length msg), sa_pad = 0, sa_ts_ns = 120\<rparr>"
  "ssl_read_args (demo_pending msg) 7 =
     Some \<lparr>sa_buf_ptr = 0x2000, sa_len = of_nat (length msg), sa_pad = 0, sa_ts_ns = 120\<rparr>"
  "tls_thread_flow (demo_pending msg) 7 = Some (demo_key 6)"
  "tls_uprobe_scratch (demo_pending msg) 0 = Some (replicate TLS_SCRATCH_LEN 0)"
  by (simp_all add: demo_pending_def ssl_write_entry_def handle_ssl_write_entry_def ssl_read_entry_def
      handle_ssl_read_entry_def demo_probe_def ssl_args_def demo_mid_eq demo_kernel_def Let_def)

lemma demo_uread: "kc_uread (demo_kernel pid now mem msg) a (min (length msg) n) = Inr (take n msg)"
  by (simp add: demo_kernel_def min_def)

lemma demo_write_sees:
  assumes "length msg < 2 ^ 32"
  shows "write_sees (demo_kernel 7 130 (demo_sock 6) msg) demo_probe (demo_pending msg) 120 (demo_key 6) msg"
proof -
  have "kc_cpu (demo_kernel 7 130 (demo_sock 6) msg) = 0" by (simp add: demo_kernel_def)
  moreover have "ret_i32 demo_probe = Some 200" by (simp add: demo_probe_def)
  moreover have "unat (of_nat (length msg) :: u32) = length msg" using assms by (simp add: unat_of_nat)
  ultimately show ?thesis
    using assms by (simp add: write_sees_def demo_pending_eq demo_uread)
qed

definition demo_hello :: client_hello where
  "demo_hello = \<lparr>hello_minor = 1, hello_version = [3, 3], hello_random = replicate 32 42, hello_session = [],
     hello_ciphers = [0x13, 0x01], hello_compression = [0],
     hello_exts = [(43, [2, 3, 4]), (0, sni_data [97, 46, 98]), (16, [0, 3, 2, 104, 50])]\<rparr>"

lemma hello_ok_length: "hello_ok h before host after \<Longrightarrow> length (enc_record h) \<le> TLS_SCRATCH_LEN"
  by (simp add: hello_ok_def)

lemma request_ok_length:
  "request_ok m path headers host rest \<Longrightarrow> length (enc_request m path headers host rest) \<le> TLS_SCRATCH_LEN"
  by (simp add: request_ok_def Let_def)

lemma demo_hello_ok: "hello_ok demo_hello [(43, [2, 3, 4])] [97, 46, 98] [(16, [0, 3, 2, 104, 50])]"
  by (simp add: hello_ok_def demo_hello_def enc_record_def enc_handshake_def enc_hello_body_def
      enc_exts_def sni_data_def TLS_SCRATCH_LEN_def)

theorem clienthello_recorded_witness:
  "map_option (\<lambda>x. map_option (\<lambda>st. (take 4 (st_tls_sni st), st_has_tls st)) (flow_table (snd x) (demo_key 6)))
     (ssl_write_return (demo_kernel 7 130 (demo_sock 6) (enc_record demo_hello)) demo_probe
       (demo_pending (enc_record demo_hello))) = Some (Some ([97, 46, 98, 0], 1))"
proof -
  have len: "length (enc_record demo_hello) < 2 ^ 32"
    using hello_ok_length [OF demo_hello_ok] by (simp add: TLS_SCRATCH_LEN_def)
  from clienthello_recorded [OF demo_write_sees [OF len] demo_hello_ok _ demo_mid_wf]
  obtain x where "ssl_write_return (demo_kernel 7 130 (demo_sock 6) (enc_record demo_hello)) demo_probe
       (demo_pending (enc_record demo_hello)) = Some x"
    "\<exists>st. flow_table (snd x) (demo_key 6) = Some st \<and> st_has_tls st = 1 \<and>
       st_tls_sni st = overwrite [97, 46, 98] (replicate HOST_LEN 0)"
    by (auto simp: demo_pending_eq demo_mid_eq fresh_defs Let_def demo_kernel_def)
  then show ?thesis by (auto simp: overwrite_def HOST_LEN_def)
qed

definition demo_request :: bytes where
  "demo_request = enc_request (map ch ''GET'') (map ch ''/x'') (map ch ''HTTP/1.1'' @ [CR, 10]) (map ch ''a.b'') [10, CR, 10]"

lemma demo_request_ok:
  "request_ok (map ch ''GET'') (map ch ''/x'') (map ch ''HTTP/1.1'' @ [CR, 10]) (map ch ''a.b'') [10, CR, 10]"
  by code_simp


theorem http_status_recorded_witness:
  "map_option st_http_status (flow_table (snd (ssl_read_return
       (demo_kernel 7 130 (demo_sock 6) (enc_status (map ch ''1.1'') 50 48 52 []))
       (demo_probe\<lparr>ret_i32 := Some 12\<rparr>) (demo_pending (enc_status (map ch ''1.1'') 50 48 52 [])))) (demo_key 6)) =
   Some 204"
proof -
  let ?msg = "enc_status (map ch ''1.1'') 50 48 52 []"
  let ?k = "demo_kernel 7 130 (demo_sock 6) ?msg"
  have len: "length ?msg = 12" by (simp add: enc_status_def)
  have no_space: "list_all (\<lambda>x. x \<noteq> SP) (map ch ''1.1'')" by (simp add: SP_def ch_def)
  have sees: "read_sees ?k (demo_probe\<lparr>ret_i32 := Some 12\<rparr>) (demo_pending ?msg) (demo_key 6) ?msg"
    using demo_uread [of 7 130 "demo_sock 6" ?msg "0x2000" TLS_SCRATCH_LEN]
    by (simp only: read_sees_def demo_pending_eq len)
      (simp add: demo_kernel_def demo_pending_eq len del: list.map)
  have "flow_table (snd (ssl_read_return ?k (demo_probe\<lparr>ret_i32 := Some 12\<rparr>) (demo_pending ?msg))) =
     touch (demo_key 6) (ssl_read_row 204) (flow_table (demo_pending ?msg))"
    using http_status_recorded [OF sees no_space] len by (simp add: is_digit_iff del: list.map)
  then show ?thesis by (simp add: touch_same demo_pending_eq demo_mid_eq ssl_read_row_def)
qed

section \<open>What an emitted event tells\<close>

text \<open>
  The event log is append-only and only the close hook writes it: an invocation either
  leaves the log as it was, or it is \<^verbatim>\<open>tcp_close\<close> and appends the one event built from the row
  of the socket's key.
\<close>

lemma log_append_only:
  assumes "kern_ok k" and "run_hook h k p s = Some (r, s')"
  shows "flow_events s' = flow_events s \<or>
    (\<exists>key st e. h = TcpClose \<and> sock_key k p = Some key \<and> flow_table s key = Some st \<and>
       flow_events s' = flow_events s @ [fill_event key st (kc_ktime k 0) e])"
proof (cases "h = TcpClose")
  case True
  have "remove_ok (kc_flow k)" using assms(1) by (simp add: kern_ok_def)
  then show ?thesis
    using assms(2) True by (cases rule: tcp_close_cases [where p = p and s = s]) auto
next
  case False
  have "flow_events (snd x) = flow_events s" if "run_hook h k p s = Some x" for x
  proof -
    have lru: "lru_ok (kc_flow k)" using assms(1) by (simp add: kern_ok_def)
    have w: "flow_events (snd x) = flow_events s" if "ssl_write_return k p s = Some x"
    proof -
      from that have "ssl_write_return k p s = Some (fst x, snd x)" by simp
      then show ?thesis by (cases rule: ssl_write_return_cases) auto
    qed
    show ?thesis
      using that False w connect.open_cases [OF lru, of p s] accept.open_cases [OF lru, of p s]
      by (cases h) (auto simp: rst.hook_events sendmsg.hook_events recvmsg.hook_events
          recvmsg_entry.hook_events quality.hook_events ecn.hook_events loss.hook_events
          recovery.hook_events rto.hook_events tlp.hook_events fast.hook_events sack.hook_events
          new_task.hook_events exiting.hook_events write_entry.hook_events read_entry.hook_events
          read_return.hook_events)
  qed
  with assms(2) show ?thesis by fastforce
qed

lemma stamp_distance:
  assumes "stamp_ok opening now ts" and "opening \<le> now" and "d = saturating_sub ts opening"
  shows "if ts = 0 then d = 0 else opening + d = ts \<and> ts \<le> now"
  using assms by (auto simp: stamp_ok_def saturating_sub_exact)

text \<open>
  C3. Timing of every event. An invocation that changes the event log is a close that appends
  one event, and the times of that event are those of the row: it opened when the row did and
  no later than the clock of the close, the duration is exactly the difference of the two; the
  time to first byte (the TLS time) is 0 if nothing was sent (no TLS was seen), and otherwise
  exactly the distance of the row's first send (its TLS stamp) from the opening, both stamps
  lying between opening and close. The saturating subtractions never saturate.
\<close>

theorem event_times_exact:
  assumes "reach Q t s" and "kern_ok k" and "clock_between t k t'"
    and "run_hook h k p s = Some (r, s')" and "flow_events s' \<noteq> flow_events s"
  shows "\<exists>key st e. h = TcpClose \<and> sock_key k p = Some key \<and> flow_table s key = Some st \<and>
    flow_events s' = flow_events s @ [e] \<and>
    ev_connect_ts_ns e = st_connect_ts_ns st \<and> ev_close_ts_ns e = kc_ktime k 0 \<and>
    ev_connect_ts_ns e \<le> ev_close_ts_ns e \<and>
    ev_connect_ts_ns e + ev_duration_ns e = ev_close_ts_ns e \<and>
    (if st_first_byte_ts_ns st = 0 then ev_time_to_first_byte_ns e = 0
     else ev_connect_ts_ns e + ev_time_to_first_byte_ns e = st_first_byte_ts_ns st \<and>
       st_first_byte_ts_ns st \<le> ev_close_ts_ns e) \<and>
    (if st_tls_ready_ts_ns st = 0 then ev_tls_handshake_ns e = 0
     else ev_connect_ts_ns e + ev_tls_handshake_ns e = st_tls_ready_ts_ns st \<and>
       st_tls_ready_ts_ns st \<le> ev_close_ts_ns e)"
proof -
  from log_append_only [OF assms(2,4)] assms(5) obtain key st e0 where e: "h = TcpClose"
    "sock_key k p = Some key" "flow_table s key = Some st"
    "flow_events s' = flow_events s @ [fill_event key st (kc_ktime k 0) e0]" by blast
  let ?now = "kc_ktime k 0" and ?open = "st_connect_ts_ns st"
  have "times_ok t st" using times.reach_row [OF reach_any [OF assms(1)] e(3)] by simp
  then have "times_ok ?now st"
    by (rule times_ok_later) (use assms(3) in \<open>simp add: clock_between_def\<close>)
  then have ok: "?open \<le> ?now" "stamp_ok ?open ?now (st_first_byte_ts_ns st)"
    "stamp_ok ?open ?now (st_tls_ready_ts_ns st)" by (simp_all add: times_ok_def)
  have tls: "ev_tls_handshake_ns (fill_event key st ?now e0) = saturating_sub (st_tls_ready_ts_ns st) ?open"
    by (simp add: saturating_sub_def word_gt_0)
  show ?thesis
    using e ok(1) stamp_distance [OF ok(2,1) refl] stamp_distance [OF ok(3,1) tls]
    by (intro exI [of _ key] exI [of _ st] exI [of _ "fill_event key st ?now e0"])
      (auto simp: saturating_sub_exact word_gt_0 split: if_splits)
qed

theorem event_times_exact_witness:
  "\<exists>r s' e. run_hook TcpClose (demo_kernel 7 300 (demo_sock 6) []) demo_probe demo_mid = Some (r, s') \<and>
     flow_events s' = flow_events demo_mid @ [e] \<and> ev_close_ts_ns e = 300 \<and>
     ev_connect_ts_ns e + ev_duration_ns e = 300"
proof -
  let ?k = "demo_kernel 7 300 (demo_sock 6) []"
  obtain r s' where run: "run_hook TcpClose ?k demo_probe demo_mid = Some (r, s')"
    by (cases "tcp_close ?k demo_probe demo_mid") simp
  then have change: "flow_events s' \<noteq> flow_events demo_mid"
    by (auto simp: tcp_close_def handle_tcp_close_def demo_fields demo_sock_key demo_mid_eq probe_ret_def Let_def)
  have clock: "clock_between 100 ?k 300" by (simp add: demo_kernel_clock)
  from event_times_exact [OF demo_mid_reach demo_kernel_ok clock run change] run
  show ?thesis by (auto simp: demo_kernel_ktime)
qed

text \<open>
  C12. Path statistics of every event: the smoothed round-trip extrema enclose the last sample
  and stay below \<open>2 ^ 29\<close> microseconds (all three are 0 when there was no sample), the
  variance stays below \<open>2 ^ 30\<close>, and the window extrema are ordered.
\<close>

theorem event_path_statistics:
  assumes "reach Q t s" and "e \<in> set (flow_events s)"
  shows "ev_srtt_us_min e \<le> ev_srtt_us_final e \<and> ev_srtt_us_final e \<le> ev_srtt_us_max e \<and>
    ev_srtt_us_max e < 2 ^ 29 \<and> ev_rttvar_us_max e < 2 ^ 30 \<and>
    (ev_srtt_us_min e = 0 \<longleftrightarrow> ev_srtt_us_max e = 0) \<and> ev_cwnd_min e \<le> ev_cwnd_max e"
proof -
  obtain key st now e0 where e: "e = fill_event key st now e0" "stats_ok st"
    by (rule stats.reach_event [OF reach_any [OF assms(1)] assms(2)]) auto
  have "st_srtt_us_min st \<noteq> U32_MAX" if "st_srtt_us_min st \<le> a" "a \<le> b" "b < 2 ^ 29" for a b
    using order.strict_trans1 [OF order.trans [OF that(1,2)] that(3)] by (auto simp: U32_MAX_def)
  with e show ?thesis
    by (auto simp: stats_ok_def rtt_ok_def cwnd_ok_def)
qed

theorem event_path_statistics_witness:
  "\<exists>e. flow_events (demo_end 6) = [e] \<and> ev_srtt_us_min e = 1000 \<and> ev_srtt_us_min e \<le> ev_srtt_us_final e"
  using event_path_statistics [OF demo_reach(1) [of 6], of "fill_event (demo_key 6) (demo_row 6) 300 zeroed_FlowEvent"]
  by (simp add: demo_events demo_row_fields U32_MAX_def)

text \<open>
  C21. Retransmission counters of every event: the total is the sum of the three per-reason
  counters, saturated at the width of the counter.
\<close>

theorem event_retransmits_add_up:
  assumes "reach Q t s" and "e \<in> set (flow_events s)"
  shows "unat (ev_retransmit_count e) = min (2 ^ 32 - 1)
    (unat (ev_retransmit_rto_count e) + unat (ev_retransmit_fast_count e) + unat (ev_retransmit_tlp_count e))"
proof -
  obtain key st now e0 where e: "e = fill_event key st now e0" "stats_ok st"
    by (rule stats.reach_event [OF reach_any [OF assms(1)] assms(2)]) auto
  then show ?thesis
    by (simp add: stats_ok_def retransmits_ok_def)
qed

theorem event_retransmits_add_up_witness:
  "\<exists>e. flow_events (demo_end 6) = [e] \<and> ev_retransmit_rto_count e = 1 \<and>
     unat (ev_retransmit_count e) = 1"
  using event_retransmits_add_up [OF demo_reach(1) [of 6], of "fill_event (demo_key 6) (demo_row 6) 300 zeroed_FlowEvent"]
  by (simp add: demo_events demo_row_fields)

text \<open>
  C22. Strings of every event: each of the four parsed strings is terminated inside its buffer
  (server name by byte 123, method by byte 7, host by byte 250, path by byte 255), so the
  accessors that look for the first zero always find one; the cgroup buffer is all zeros and
  the parent pid is 0, because no program writes them.
\<close>

theorem event_strings_terminated:
  assumes "reach Q t s" and "e \<in> set (flow_events s)"
  shows "length (ev_comm e) = COMM_LEN \<and>
    length (ev_tls_sni e) = HOST_LEN \<and> (\<forall>i < HOST_LEN. 123 \<le> i \<longrightarrow> ev_tls_sni e ! i = 0) \<and>
    length (ev_http_method e) = 8 \<and> ev_http_method e ! 7 = 0 \<and>
    length (ev_http_host e) = HOST_LEN \<and> (\<forall>i < HOST_LEN. 250 \<le> i \<longrightarrow> ev_http_host e ! i = 0) \<and>
    length (ev_http_path e) = PATH_LEN \<and> ev_http_path e ! 255 = 0 \<and>
    ev_cgroup e = replicate CGROUP_LEN 0 \<and> ev_ppid e = 0"
proof -
  obtain key st now e0 where e: "e = fill_event key st now e0" "buffers_ok st"
    by (rule buffers.reach_event [OF reach_any [OF assms(1)] assms(2)]) auto
  have tail: "xs ! i = 0" if "drop n xs = replicate m (0 :: u8)" "length xs = n + m" "n \<le> i" "i < n + m" for xs n m i
    using nth_drop [of n xs "i - n"] that by simp
  have "\<forall>i < 256. 123 \<le> i \<longrightarrow> st_tls_sni st ! i = 0" "\<forall>i < 256. 250 \<le> i \<longrightarrow> st_http_host st ! i = 0"
    "st_http_method st ! 7 = 0" "st_http_path st ! 255 = 0"
    using e(2) tail [of 123 "st_tls_sni st" 133] tail [of 250 "st_http_host st" 6]
      tail [of 7 "st_http_method st" 1 7] tail [of 255 "st_http_path st" 1 255]
    by (auto simp: buffers_ok_def wf_state_def len_defs)
  with e show ?thesis by (simp add: buffers_ok_def wf_state_def len_defs)
qed

theorem event_strings_terminated_witness:
  "\<exists>e. flow_events (demo_end 6) = [e] \<and> ev_http_method e ! 7 = 0 \<and> length (ev_comm e) = 16"
  using event_strings_terminated [OF demo_reach(1) [of 6], of "fill_event (demo_key 6) (demo_row 6) 300 zeroed_FlowEvent"]
  by (simp add: demo_events COMM_LEN_def)

text \<open>
  C23. Flags of every event: the direction is outbound or inbound, the protocol is TCP, the
  HTTP status has at most three digits, the two flags are 0 or 1, and a cleared flag means
  that the corresponding strings and times are empty; no bytes or first-byte time without a
  send, no received bytes without a receive.
\<close>

theorem event_flags_consistent:
  assumes "reach Q t s" and "e \<in> set (flow_events s)"
  shows "(ev_direction e = FlowDirection_u8 Outbound \<or> ev_direction e = FlowDirection_u8 Inbound) \<and>
    unat (ev_http_status e) \<le> 999 \<and>
    (ev_has_tls e = 1 \<or> ev_has_tls e = 0 \<and> ev_tls_sni e = replicate HOST_LEN 0 \<and> ev_tls_handshake_ns e = 0) \<and>
    (ev_has_http e = 1 \<or> ev_has_http e = 0 \<and> ev_http_host e = replicate HOST_LEN 0 \<and>
       ev_http_method e = replicate 8 0 \<and> ev_http_path e = replicate PATH_LEN 0) \<and>
    (ev_pkts_sent e = 0 \<longrightarrow> ev_bytes_sent e = 0 \<and> ev_time_to_first_byte_ns e = 0) \<and>
    (ev_pkts_recv e = 0 \<longrightarrow> ev_bytes_recv e = 0)"
proof -
  obtain key st now e0 where e: "e = fill_event key st now e0" "flags_ok st"
    by (rule flags.reach_event [OF reach_any [OF assms(1)] assms(2)]) auto
  then show ?thesis by (auto simp: flags_ok_def)
qed

theorem event_flags_consistent_witness:
  "\<exists>e. flow_events (demo_end 6) = [e] \<and> ev_has_tls e = 0 \<and> ev_tls_sni e = replicate HOST_LEN 0"
  using event_flags_consistent [OF demo_reach(1) [of 6], of "fill_event (demo_key 6) (demo_row 6) 300 zeroed_FlowEvent"]
  by (simp add: demo_events demo_row_fields)

text \<open>
  C2. What the protocol byte read at offset 3 costs: as long as the kernel reads of one
  invocation see one memory, an event of a connection whose destination address does not end
  in octet 6 carries no round-trip, window, ECN, SACK or retransmission data at all, whatever
  the kernel reported during its life.
\<close>

theorem statistics_lost_unless_octet_6:
  assumes "reach coherent_kernel t s" and "e \<in> set (flow_events s)"
    and "byte_of 3 (ev_dst_ip e) \<noteq> 6"
  shows "ev_srtt_us_min e = 0 \<and> ev_srtt_us_max e = 0 \<and> ev_srtt_us_final e = 0 \<and> ev_rttvar_us_max e = 0 \<and>
    ev_cwnd_min e = 0 \<and> ev_cwnd_max e = 0 \<and> ev_ecn_signals e = 0 \<and> ev_sack_blocks_received e = 0 \<and>
    ev_retransmit_count e = 0 \<and> ev_retransmit_bytes e = 0 \<and> ev_retransmit_rto_count e = 0 \<and>
    ev_retransmit_fast_count e = 0 \<and> ev_retransmit_tlp_count e = 0"
proof -
  obtain key st now e0 where e: "e = fill_event key st now e0" "unreachable_ok key st"
    by (rule unreachable.reach_event [OF assms(1,2)]) auto
  with assms(3) show ?thesis by (simp add: unreachable_ok_def stats_untouched_def)
qed

theorem statistics_lost_unless_octet_6_witness:
  "\<exists>e. flow_events (demo_end 7) = [e] \<and> ev_retransmit_count e = 0 \<and> ev_srtt_us_final e = 0"
  using statistics_lost_unless_octet_6 [OF demo_reach(2) [of 7], of "fill_event (demo_key 7) (demo_row 7) 300 zeroed_FlowEvent"]
  by (simp add: demo_events demo_key_def byte_of_from_ne_bytes)

section \<open>Opening, closing and losing rows\<close>

text \<open>The key a hook opens a row under and the direction it records.\<close>

definition opens_under :: "hook \<Rightarrow> kcalls \<Rightarrow> probe \<Rightarrow> (FlowKey \<times> FlowDirection) option" where
  "opens_under h k p =
     (case h of
        TcpConnect \<Rightarrow> map_option (\<lambda>key. (key, Outbound)) (sock_key k p)
      | InetCskAccept \<Rightarrow> map_option (\<lambda>key. (key, Inbound)) (accept_key k p)
      | _ \<Rightarrow> None)"

lemma opens_by_init:
  assumes "opens_under h k p = Some (key, d)" and "run_hook h k p s = Some (r, s')"
  shows "s' = snd (init_flow_row k key (FlowDirection_u8 d) s)" and "d = Outbound \<longleftrightarrow> h = TcpConnect"
    and "d = Outbound \<or> d = Inbound"
proof -
  obtain r1 s1 where init: "init_flow_row k key (FlowDirection_u8 d) s = (r1, s1)" by fastforce
  show "d = Outbound \<longleftrightarrow> h = TcpConnect" "d = Outbound \<or> d = Inbound"
    using assms(1) by (auto simp: opens_under_def split: hook.splits)
  show "s' = snd (init_flow_row k key (FlowDirection_u8 d) s)"
    using assms init
    by (auto simp: opens_under_def tcp_connect_def handle_tcp_connect_def inet_csk_accept_def handle_accept_def
        sock_key_def accept_key_def bind_eq_Some_conv probe_ret_def split: hook.splits sum.splits if_splits)
qed

text \<open>
  C35. Opening: when \<^verbatim>\<open>tcp_connect\<close> or \<^verbatim>\<open>inet_csk_accept\<close> succeeds in inserting, the row under
  the socket's key is a new one, whatever was there before. It carries the caller's pid, uid, gid
  and name, the direction of the hook, every counter, time stamp, flag and string at its start
  value (the two minima at their sentinel), the clock as its opening time, and the caller's
  causal chain, or a chain of its own numbered by the clock when the caller has none. A connect
  also binds the thread to that key for the TLS probes, an accept does not; any other row is kept
  or was evicted by the LRU map.
\<close>

theorem row_opened:
  assumes "kern_ok k" and "opens_under h k p = Some (key, d)" and "run_hook h k p s = Some (r, s')"
    and "op_insert (kc_flow k) (flow_table s) key EMPTY_FLOW_STATE = Inr m"
  shows "\<exists>st. flow_table s' key = Some st \<and>
    st_pid st = ucast (drop_bit 32 (kc_pid_tgid k)) \<and> st_ppid st = 0 \<and> st_uid st = ucast (kc_uid_gid k) \<and>
    st_gid st = ucast (drop_bit 32 (kc_uid_gid k)) \<and> st_direction st = FlowDirection_u8 d \<and>
    st_comm st = (case kc_comm k of None \<Rightarrow> replicate COMM_LEN 0 | Some c \<Rightarrow> c) \<and>
    st_cgroup st = replicate CGROUP_LEN 0 \<and>
    st_connect_ts_ns st = kc_ktime k 0 \<and>
    (st_bytes_sent st, st_pkts_sent st, st_first_byte_ts_ns st) = (0, 0, 0) \<and>
    (st_bytes_recv st, st_pkts_recv st, st_first_recv_ts_ns st) = (0, 0, 0) \<and>
    (st_srtt_us_min st, st_srtt_us_max st, st_srtt_us_last st) = (U32_MAX, 0, 0) \<and>
    (st_rttvar_us_max st, st_cwnd_min st, st_cwnd_max st) = (0, U32_MAX, 0) \<and>
    (st_ecn_signals st, st_sack_blocks_received st, st_congestion_state_final st) = (0, 0, 0) \<and>
    (st_retransmit_count st, st_retransmit_bytes st) = (0, 0) \<and>
    (st_retransmit_rto_count st, st_retransmit_fast_count st, st_retransmit_tlp_count st) = (0, 0, 0) \<and>
    (st_has_tls st, st_tls_ready_ts_ns st, st_tls_sni st) = (0, 0, replicate HOST_LEN 0) \<and>
    (st_has_http st, st_ssl_write_ts_ns st, st_http_status st) = (0, 0, 0) \<and>
    (st_http_host st, st_http_method st, st_http_path st) =
      (replicate HOST_LEN 0, replicate 8 0, replicate PATH_LEN 0) \<and>
    (st_chain_id st, st_parent_chain_id st, st_chain_depth st) =
      (case causal_map s (kc_pid_tgid k) of
         Some c \<Rightarrow> (cc_chain_id c, cc_parent_chain_id c, cc_depth c)
       | None \<Rightarrow> (kc_ktime k 0, 0, 0)) \<and>
    (\<forall>key'. key' \<noteq> key \<longrightarrow> flow_table s' key' = flow_table s key' \<or> flow_table s' key' = None) \<and>
    tls_thread_flow s' =
      (if h = TcpConnect then insert_ignore (kc_tls k) (tls_thread_flow s) (kc_pid_tgid k) key
       else tls_thread_flow s)"
proof -
  note s' = opens_by_init [OF assms(2,3)]
  obtain r1 where init: "init_flow_row k key (FlowDirection_u8 d) s = (r1, s')"
    using s'(1) by (cases "init_flow_row k key (FlowDirection_u8 d) s") simp
  have dir: "FlowDirection_u8 d = FlowDirection_u8 Outbound \<longleftrightarrow> h = TcpConnect" using s'(2,3) by auto
  from kern_okD(6) [OF assms(1)] init show ?thesis
  proof (cases rule: init_flow_row_cases)
    case (failed e)
    have "m key = Some EMPTY_FLOW_STATE"
      using kern_okD(6) [OF assms(1)] assms(4) unfolding lru_ok_def by blast
    with failed init assms(4) show ?thesis
      by (auto simp: init_flow_row_def Let_def split: if_splits)
  next
    case filled
    then show ?thesis
      unfolding opened_def dir
      by (auto simp: fill_new_flow_state_def set_comm_in_state_def EMPTY_FLOW_STATE_def Let_def
          simp del: FlowDirection_u8.simps split: option.splits)
  qed
qed

theorem row_opened_witness:
  "\<exists>st. flow_table (snd (tcp_connect (demo_kernel 7 100 (demo_sock 6) []) demo_probe (init_sys 1))) (demo_key 6) =
     Some st \<and> st_connect_ts_ns st = 100 \<and> st_chain_id st = 100 \<and> st_direction st = 1 \<and> st_pkts_sent st = 0"
proof -
  let ?k = "demo_kernel 7 100 (demo_sock 6) []"
  let ?x = "tcp_connect ?k demo_probe (init_sys 1)"
  have o: "opens_under TcpConnect ?k demo_probe = Some (demo_key 6, Outbound)"
    by (simp add: opens_under_def demo_keys)
  have run: "run_hook TcpConnect ?k demo_probe (init_sys 1) = Some (fst ?x, snd ?x)" by simp
  have "op_insert (kc_flow ?k) (flow_table (init_sys 1)) (demo_key 6) EMPTY_FLOW_STATE =
      Inr ((flow_table (init_sys 1))(demo_key 6 \<mapsto> EMPTY_FLOW_STATE))" by simp
  from row_opened [OF demo_kernel_ok o run this]
  show ?thesis by (auto simp: init_sys_def demo_kernel_ktime)
qed

text \<open>
  Closing, on every branch: an unreadable socket or an unknown connection changes nothing,
  a full ring buffer changes nothing (the row stays), and otherwise exactly one event is
  emitted, built from the row; the row is then removed unless the map refuses. The handler
  reports an error exactly for an unreadable socket and for a refused removal.
\<close>

lemma close_branches:
  "handle_tcp_close k p s =
    (case sock_key k p of
       None \<Rightarrow> (Inl (- 1), s)
     | Some key \<Rightarrow>
        (case (flow_table s key, kc_ring_reserve k) of
           (Some st, Some e) \<Rightarrow>
             (let es = flow_events s @ [fill_event key st (kc_ktime k 0) e]
              in case op_remove (kc_flow k) (flow_table s) key of
                   Inl err \<Rightarrow> (Inl err, s\<lparr>flow_events := es\<rparr>)
                 | Inr m \<Rightarrow> (Inr 0, s\<lparr>flow_events := es, flow_table := m\<rparr>))
         | _ \<Rightarrow> (Inr 0, s)))"
  by (auto simp: handle_tcp_close_def sock_key_def Let_def split: option.split sum.split)

text \<open>
  C36. A reset is never reported as one: when \<^verbatim>\<open>tcp_send_active_reset\<close> ran for a tracked
  connection, and after it any programs that neither replace, close nor evict its row and report
  no congestion change for it (no ACK sample, loss or recovery), the close of the connection,
  given room in the ring buffer, emits an event that says \<^verbatim>\<open>LocalClose\<close> and shows the congestion
  state \<^verbatim>\<open>Cwr\<close>, since the reset hook stores \<^verbatim>\<open>CloseReason::Reset\<close> (2) in the congestion state field.
\<close>

theorem reset_reported_as_cwr:
  assumes "sock_key k1 p1 = Some key" and "flow_table s key = Some st"
    and "along (leaves_congestion key) xs (snd (tcp_send_active_reset k1 p1 s))"
    and "play xs (snd (tcp_send_active_reset k1 p1 s)) = Some s2"
    and "sock_key k2 p2 = Some key" and "kc_ring_reserve k2 = Some e0"
  shows "\<exists>e. flow_events (snd (tcp_close k2 p2 s2)) = flow_events s2 @ [e] \<and>
    ev_close_reason e = CloseReason_u8 LocalClose \<and>
    ev_congestion_state_final e = CongestionState_u8 Cwr"
proof -
  have "flow_table (snd (tcp_send_active_reset k1 p1 s)) key = Some (rst_row st)"
    using assms(1,2) by (simp add: rst.hook_own_row)
  from congestion.kept_along [OF assms(3,4) this] obtain st2 where
    "flow_table s2 key = Some st2" "st_congestion_state_final st2 = CloseReason_u8 Reset"
    by (auto simp: rst_row_def)
  with assms(5,6) show ?thesis
    by (auto simp: tcp_close_def handle_tcp_close_def sock_key_def bind_eq_Some_conv Let_def split: sum.split)
qed

theorem reset_reported_as_cwr_witness:
  "\<exists>s2 e. play [demo_call TcpSendmsg 250 6 []]
       (snd (tcp_send_active_reset (demo_kernel 7 200 (demo_sock 6) []) demo_probe demo_mid)) = Some s2 \<and>
     flow_events (snd (tcp_close (demo_kernel 7 300 (demo_sock 6) []) demo_probe s2)) = flow_events s2 @ [e] \<and>
     ev_close_reason e = 4 \<and> ev_congestion_state_final e = 2"
proof -
  let ?s1 = "snd (tcp_send_active_reset (demo_kernel 7 200 (demo_sock 6) []) demo_probe demo_mid)"
  obtain st where st: "flow_table demo_mid (demo_key 6) = Some st" by (simp add: demo_mid_eq)
  have "flow_table ?s1 (demo_key 6) = Some (rst_row st)"
    using st demo_keys(1) by (simp add: rst.hook_own_row)
  note along = demo_calls_leave(1) [OF this, of 250]
  obtain s2 where run: "play [demo_call TcpSendmsg 250 6 []] ?s1 = Some s2"
    by (cases "play [demo_call TcpSendmsg 250 6 []] ?s1") (auto simp: demo_call_def split: prod.splits)
  from reset_reported_as_cwr [OF demo_keys(1) st along run demo_keys(1)] run
  show ?thesis by simp
qed

lemma one_row_hook:
  assumes "run_hook h k p s = Some (r, s')" and h: "h \<noteq> TcpClose" "h \<noteq> TcpConnect" "h \<noteq> InetCskAccept"
  shows "dom (flow_table s') = dom (flow_table s) \<and>
      (\<exists>key. \<forall>key'. key' \<noteq> key \<longrightarrow> flow_table s' key' = flow_table s key')"
proof -
  have touched: ?thesis
    if "\<And>k p s. flow_table (snd (hook k p s)) = (case hkey k p s of None \<Rightarrow> flow_table s
         | Some key \<Rightarrow> touch key (upd k p s) (flow_table s))" "hook k p s = (r, s')"
    for hook :: "kcalls \<Rightarrow> probe \<Rightarrow> sys \<Rightarrow> u32 \<times> sys" and hkey upd
  proof (cases "hkey k p s")
    case (Some key)
    with that(1) [of k p s] that(2) show ?thesis by (auto intro!: exI [of _ key])
  qed (use that(1) [of k p s] that(2) in simp)
  show ?thesis
  proof (cases "h = SslWriteReturn")
    case True
    with assms(1) have "ssl_write_return k p s = Some (r, s')" by simp
    then show ?thesis
    proof (cases rule: ssl_write_return_cases)
      case (merge key st n data ts st')
      then show ?thesis by (auto intro!: exI [of _ key])
    qed simp
  next
    case False
    with h assms(1) have
      "tcp_send_active_reset k p s = (r, s') \<or> tcp_sendmsg k p s = (r, s') \<or> tcp_recvmsg k p s = (r, s') \<or>
       tcp_recvmsg_entry k p s = (r, s') \<or> tcp_rcv_established k p s = (r, s') \<or> tcp_enter_cwr k p s = (r, s') \<or>
       tcp_enter_loss k p s = (r, s') \<or> tcp_enter_recovery k p s = (r, s') \<or> tcp_retransmit_skb k p s = (r, s') \<or>
       tcp_send_loss_probe k p s = (r, s') \<or> tcp_fast_retransmit k p s = (r, s') \<or> tcp_sacktag k p s = (r, s') \<or>
       on_new_task k p s = (r, s') \<or> on_exit k p s = (r, s') \<or> ssl_write_entry k p s = (r, s') \<or>
       ssl_read_entry k p s = (r, s') \<or> ssl_read_return k p s = (r, s')"
      by (cases h) simp_all
    then show ?thesis
      by (elim disjE) (rule touched [OF rst.hook_table] touched [OF sendmsg.hook_table] touched [OF recvmsg.hook_table]
          touched [OF recvmsg_entry.hook_table] touched [OF quality.hook_table] touched [OF ecn.hook_table]
          touched [OF loss.hook_table] touched [OF recovery.hook_table] touched [OF rto.hook_table]
          touched [OF tlp.hook_table] touched [OF fast.hook_table] touched [OF sack.hook_table]
          touched [OF new_task.hook_table] touched [OF exiting.hook_table] touched [OF write_entry.hook_table]
          touched [OF read_entry.hook_table] touched [OF read_return.hook_table], assumption)+
  qed
qed

text \<open>
  C38. A live row does not vanish by accident: an invocation that is neither a close, nor a
  connect or accept (which may evict) keeps every row, and changes at most one of them; a
  close removes at most the row of its own socket.
\<close>

theorem rows_persist:
  assumes "kern_ok k" and "run_hook h k p s = Some (r, s')"
  shows "(h \<noteq> TcpClose \<and> h \<noteq> TcpConnect \<and> h \<noteq> InetCskAccept \<longrightarrow>
      dom (flow_table s') = dom (flow_table s) \<and>
      (\<exists>key. \<forall>key'. key' \<noteq> key \<longrightarrow> flow_table s' key' = flow_table s key')) \<and>
    (h = TcpClose \<longrightarrow> (\<forall>key. sock_key k p \<noteq> Some key \<longrightarrow> flow_table s' key = flow_table s key))"
proof -
  have close: "flow_table s' key = flow_table s key" if "h = TcpClose" "sock_key k p \<noteq> Some key" for key
  proof -
    have "remove_ok (kc_flow k)" using assms(1) by (simp add: kern_ok_def)
    then show ?thesis
      using assms(2) that by (cases rule: tcp_close_cases [where p = p and s = s]) auto
  qed
  from close one_row_hook [OF assms(2)] show ?thesis by blast
qed

theorem rows_persist_witness:
  "dom (flow_table (snd (tcp_sendmsg (demo_kernel 7 300 (demo_sock 6) []) demo_probe (demo_end 6)))) =
   dom (flow_table (demo_end 6))"
  using rows_persist [OF demo_kernel_ok [of 7 300 "demo_sock 6" "[]"],
      of TcpSendmsg demo_probe "demo_end 6" "fst (tcp_sendmsg (demo_kernel 7 300 (demo_sock 6) []) demo_probe (demo_end 6))"
        "snd (tcp_sendmsg (demo_kernel 7 300 (demo_sock 6) []) demo_probe (demo_end 6))"]
  by simp

definition sends :: "(kcalls \<times> probe) list \<Rightarrow> sys \<Rightarrow> sys" where
  "sends xs s = fold (\<lambda>(k, p) s. snd (tcp_sendmsg k p s)) xs s"

definition sent_len :: "kcalls \<times> probe \<Rightarrow> nat" where
  "sent_len x = unat (the (arg2_usize (snd x)))"

text \<open>
  C8. Byte accounting over a whole sequence of sends on one connection, whatever the kernel
  and the threads: the counters are the true sums, saturated at their width, and the first-byte
  time is that of the first send with a non-zero clock.
\<close>

theorem sends_add_up:
  assumes "list_all (\<lambda>(k, p). sendmsg_key k p = Some key) xs" and "flow_table s key = Some st"
  shows "\<exists>st'. flow_table (sends xs s) key = Some st' \<and>
    unat (st_bytes_sent st') = min (unat (st_bytes_sent st) + sum_list (map sent_len xs)) (2 ^ 64 - 1) \<and>
    unat (st_pkts_sent st') = min (unat (st_pkts_sent st) + length xs) (2 ^ 64 - 1) \<and>
    st_first_byte_ts_ns st' =
      (case filter (\<lambda>n. n \<noteq> 0) (st_first_byte_ts_ns st # map (\<lambda>(k, p). kc_ktime k 0) xs) of
         [] \<Rightarrow> 0 | n # _ \<Rightarrow> n)"
  using assms
proof (induction xs arbitrary: s st)
  case Nil
  have "unat (st_bytes_sent st) \<le> 2 ^ 64 - 1" "unat (st_pkts_sent st) \<le> 2 ^ 64 - 1"
    using unsigned_less [of "st_bytes_sent st", where ?'a = nat]
      unsigned_less [of "st_pkts_sent st", where ?'a = nat] by simp_all
  with Nil show ?case by (simp add: sends_def)
next
  case (Cons x xs)
  obtain k p where x: "x = (k, p)" by (cases x)
  let ?st = "sendmsg_row (the (arg2_usize p)) (kc_ktime k 0) st"
  have row: "flow_table (snd (tcp_sendmsg k p s)) key = Some ?st"
    using Cons.prems x by (simp add: sendmsg.hook_own_row)
  have step: "sends (x # xs) s = sends xs (snd (tcp_sendmsg k p s))" by (simp add: sends_def x)
  have sat: "min (min a m + b) m = min (a + b) m" for a b m :: nat by simp
  have bytes: "unat (st_bytes_sent ?st) = min (unat (st_bytes_sent st) + sent_len x) (2 ^ 64 - 1)"
    and pkts: "unat (st_pkts_sent ?st) = min (unat (st_pkts_sent st) + 1) (2 ^ 64 - 1)"
    and first: "st_first_byte_ts_ns ?st =
      (if st_first_byte_ts_ns st = 0 then kc_ktime k 0 else st_first_byte_ts_ns st)"
    by (simp_all add: sendmsg_row_eq unat_saturating_add x sent_len_def)
  have "list_all (\<lambda>(k, p). sendmsg_key k p = Some key) xs" using Cons.prems(1) by simp
  from Cons.IH [OF this row, unfolded bytes pkts first sat] show ?case
    unfolding step by (auto simp: x add.assoc split: if_splits)
qed

theorem sends_add_up_witness:
  "\<exists>st'. flow_table (sends [(demo_kernel 7 110 (demo_sock 6) [], demo_probe), (demo_kernel 9 120 (demo_sock 6) [], demo_probe)]
      demo_mid) (demo_key 6) = Some st' \<and> unat (st_bytes_sent st') = 400 \<and> st_first_byte_ts_ns st' = 110"
proof -
  have "sendmsg_key (demo_kernel pid now (demo_sock 6) []) demo_probe = Some (demo_key 6)" for pid now
    by (simp add: sendmsg_key_def demo_fields demo_keys)
  then have "list_all (\<lambda>(k, p). sendmsg_key k p = Some (demo_key 6))
    [(demo_kernel 7 110 (demo_sock 6) [], demo_probe), (demo_kernel 9 120 (demo_sock 6) [], demo_probe)]" by simp
  from sends_add_up [OF this, of demo_mid] show ?thesis
    by (auto simp: demo_mid_eq fresh_fields sent_len_def demo_fields demo_kernel_ktime fill_new_flow_state_def
        Let_def split: list.splits)
qed

section \<open>Causal chains\<close>

text \<open>
  C18. The first connection of a new process belongs to the causal chain of the process that
  created it. When the task hook can store its entry, then after any programs that leave the entry
  alone, a connection that the new task opens as the main thread of its process (the entry is
  keyed by its pid as both halves of \<^verbatim>\<open>pid_tgid\<close>) is one level below its creator: it gets the
  creator's chain id and depth plus one, or, when the creator has no chain, a chain numbered by
  the clock of the task hook at depth 1. (Under \<^verbatim>\<open>parent_chain_id\<close> it gets that same chain id.)
\<close>

theorem child_connection_inherits_chain:
  assumes "kern_ok k1" and "arg0_ptr p1 = Some task"
    and "kread_u32_ne (kc_kread k1) (task + TASK_PID_OFFSET) = Inr pid"
    and "op_insert (kc_causal k1) (causal_map s) (child_key pid) (child_ctx (parent_ctx k1 (causal_map s))) = Inr m"
    and "causal_map s2 (child_key pid) = causal_map (snd (on_new_task k1 p1 s)) (child_key pid)"
    and "kern_ok k2" and "kc_pid_tgid k2 = child_key pid" and "sock_key k2 p2 = Some key"
    and "snd (tcp_connect k2 p2 s2) \<noteq> s2"
  shows "\<exists>st. flow_table (snd (tcp_connect k2 p2 s2)) key = Some st \<and> st_pid st = pid \<and>
    (case causal_map s (kc_pid_tgid k1) of
       Some c \<Rightarrow> st_chain_id st = cc_chain_id c \<and> st_chain_depth st = cc_depth c + 1
     | None \<Rightarrow> st_chain_id st = kc_ktime k1 0 \<and> st_chain_depth st = 1) \<and>
    st_parent_chain_id st = st_chain_id st"
proof -
  have "hash_ok (kc_causal k1)" using assms(1) by (simp add: kern_ok_def)
  from new_task_entry [OF this assms(2-4)]
  have "causal_map s2 (kc_pid_tgid k2) = Some (child_ctx (parent_ctx k1 (causal_map s)))"
    using assms(5,7) by simp
  moreover have "flow_table (snd (tcp_connect k2 p2 s2)) key =
      Some (fill_new_flow_state k2 (causal_map s2) (FlowDirection_u8 Outbound) EMPTY_FLOW_STATE)"
    by (rule connect.open_own_row) (use assms(6,8,9) in \<open>auto simp: kern_ok_def\<close>)
  moreover have "(ucast (drop_bit 32 (child_key pid)) :: u32) = pid"
    unfolding child_key_halves by (rule bit_word_eqI) (simp add: bit_simps)
  ultimately show ?thesis
    using assms(7)
    by (auto simp: fill_new_flow_state_def set_comm_in_state_def child_ctx_def parent_ctx_def Let_def
        split: option.splits)
qed

text \<open>The \<^verbatim>\<open>pid_tgid\<close> of the task \<open>tid\<close> of the process \<open>tgid\<close>.\<close>

definition task_key :: "u32 \<Rightarrow> u32 \<Rightarrow> u64" where
  "task_key tgid tid = push_bit 32 (ucast tgid) OR ucast tid"

lemma task_key_process: "drop_bit 32 (task_key tgid tid) = ucast tgid"
proof -
  have "n < 32" if "bit tgid n" for n using bit_imp_le_length [OF that] by simp
  then show ?thesis unfolding task_key_def by (auto intro!: bit_word_eqI simp: bit_simps)
qed

lemma child_key_of_thread:
  assumes "tgid \<noteq> tid"
  shows "child_key tid \<noteq> task_key tgid tid"
proof
  assume "child_key tid = task_key tgid tid"
  then have "(ucast tid :: u64) = ucast tgid"
    using child_key_halves(1) [of tid] task_key_process [of tgid tid] by simp
  then have "(ucast (ucast tid :: u64) :: u32) = ucast (ucast tgid :: u64)" by (rule arg_cong)
  moreover have "(ucast (ucast x :: u64) :: u32) = x" for x :: u32
    by (rule bit_word_eqI) (simp add: bit_simps)
  ultimately show False using assms by simp
qed

text \<open>
  C17. A new thread does not inherit: the task hook files its entry under the thread id as both
  halves of \<^verbatim>\<open>pid_tgid\<close>, which is never the \<^verbatim>\<open>pid_tgid\<close> of a thread that is not the main
  thread of its process. So whatever chain the creator has, a connection the new thread opens
  (after any programs that file nothing for it) starts a chain of its own at depth 0.
\<close>

theorem thread_starts_own_chain:
  assumes "kern_ok k1" and "kread_u32_ne (kc_kread k1) (the (arg0_ptr p1) + TASK_PID_OFFSET) = Inr tid"
    and "tgid \<noteq> tid" and "causal_map s (task_key tgid tid) = None"
    and "causal_map s2 (task_key tgid tid) = causal_map (snd (on_new_task k1 p1 s)) (task_key tgid tid)"
    and "kern_ok k2" and "kc_pid_tgid k2 = task_key tgid tid" and "sock_key k2 p2 = Some key"
    and "snd (tcp_connect k2 p2 s2) \<noteq> s2"
  shows "\<exists>st. flow_table (snd (tcp_connect k2 p2 s2)) key = Some st \<and> st_pid st = tgid \<and>
    st_chain_id st = kc_ktime k2 0 \<and> st_parent_chain_id st = 0 \<and> st_chain_depth st = 0"
proof -
  have "hash_ok (kc_causal k1)" using assms(1) by (simp add: kern_ok_def)
  then have "insert_ignore (kc_causal k1) (causal_map s) (child_key tid) c (task_key tgid tid) = None" for c
    using insert_ignore_other [OF _ child_key_of_thread [OF assms(3)], of "kc_causal k1"] assms(4) by simp
  then have "causal_map (snd (on_new_task k1 p1 s)) (task_key tgid tid) = None"
    using assms(2,4)
    by (auto simp: on_new_task_def handle_new_task_def unwrap_or0_def Let_def split: option.split)
  then have none: "causal_map s2 (kc_pid_tgid k2) = None" using assms(5,7) by simp
  have "flow_table (snd (tcp_connect k2 p2 s2)) key =
      Some (fill_new_flow_state k2 (causal_map s2) (FlowDirection_u8 Outbound) EMPTY_FLOW_STATE)"
    by (rule connect.open_own_row) (use assms(6,8,9) in \<open>auto simp: kern_ok_def\<close>)
  moreover have "(ucast (drop_bit 32 (task_key tgid tid)) :: u32) = tgid"
    unfolding task_key_process by (rule bit_word_eqI) (simp add: bit_simps)
  ultimately show ?thesis
    using none assms(7) by (simp add: fill_new_flow_state_def Let_def)
qed

definition demo_family :: sys where
  "demo_family = (init_sys 1)\<lparr>causal_map := [7 \<mapsto>
     \<lparr>cc_chain_id = 99, cc_parent_chain_id = 0, cc_depth = 2, cc_origin_pid = 1, cc_origin_ts_ns = 5\<rparr>]\<rparr>"

theorem child_connection_inherits_chain_witness:
  "\<exists>st. flow_table (snd (tcp_connect (demo_kernel (child_key 0) 100 (demo_sock 6) []) demo_probe
      (snd (on_new_task (demo_kernel 7 50 (demo_sock 6) []) demo_probe demo_family)))) (demo_key 6) = Some st \<and>
     st_chain_id st = 99 \<and> st_chain_depth st = 3"
proof -
  let ?k1 = "demo_kernel 7 50 (demo_sock 6) []" and ?k2 = "demo_kernel (child_key 0) 100 (demo_sock 6) []"
  let ?c = "\<lparr>cc_chain_id = 99, cc_parent_chain_id = 0, cc_depth = 2, cc_origin_pid = 1, cc_origin_ts_ns = 5\<rparr>"
  let ?s2 = "snd (on_new_task ?k1 demo_probe demo_family)"
  have c: "causal_map demo_family (kc_pid_tgid ?k1) = Some ?c" "causal_map demo_family 7 = Some ?c"
    by (simp_all add: demo_family_def)
  have r: "kread_u32_ne (kc_kread ?k1) (0x1000 + TASK_PID_OFFSET) = Inr 0"
    by (simp add: demo_reads demo_sock_def TASK_PID_OFFSET_def demo_constants)
  have i: "op_insert (kc_causal ?k1) (causal_map demo_family) (child_key 0)
      (child_ctx (parent_ctx ?k1 (causal_map demo_family))) =
      Inr ((causal_map demo_family)(child_key 0 \<mapsto> child_ctx (parent_ctx ?k1 (causal_map demo_family))))"
    by (simp add: demo_kernel_def)
  have "flow_table ?s2 (demo_key 6) = None"
    by (simp add: on_new_task_def handle_new_task_def demo_fields demo_family_def init_sys_def Let_def)
  moreover have "flow_table (snd (tcp_connect ?k2 demo_probe ?s2)) (demo_key 6) \<noteq> None"
    by (simp add: tcp_connect_def handle_tcp_connect_def demo_fields demo_sock_key init_flow_row_def Let_def)
  ultimately have n: "snd (tcp_connect ?k2 demo_probe ?s2) \<noteq> ?s2" by metis
  from child_connection_inherits_chain [OF demo_kernel_ok demo_fields(1) r i refl demo_kernel_ok _ demo_keys(1) n]
  show ?thesis by (auto simp: c)
qed

theorem thread_starts_own_chain_witness:
  "\<exists>st. flow_table (snd (tcp_connect (demo_kernel (task_key 5 0) 100 (demo_sock 6) []) demo_probe
      (snd (on_new_task (demo_kernel 7 50 (demo_sock 6) []) demo_probe demo_family)))) (demo_key 6) = Some st \<and>
     causal_map demo_family 7 \<noteq> None \<and> st_chain_id st = 100 \<and> st_chain_depth st = 0"
proof -
  let ?k1 = "demo_kernel 7 50 (demo_sock 6) []" and ?k2 = "demo_kernel (task_key 5 0) 100 (demo_sock 6) []"
  let ?s2 = "snd (on_new_task ?k1 demo_probe demo_family)"
  have r: "kread_u32_ne (kc_kread ?k1) (the (arg0_ptr demo_probe) + TASK_PID_OFFSET) = Inr 0"
    by (simp add: demo_fields demo_reads demo_sock_def TASK_PID_OFFSET_def demo_constants)
  have none: "causal_map demo_family (task_key 5 0) = None"
    by (simp add: demo_family_def task_key_def)
  have "flow_table ?s2 (demo_key 6) = None"
    by (simp add: on_new_task_def handle_new_task_def demo_fields demo_family_def init_sys_def Let_def)
  moreover have "flow_table (snd (tcp_connect ?k2 demo_probe ?s2)) (demo_key 6) \<noteq> None"
    by (simp add: tcp_connect_def handle_tcp_connect_def demo_fields demo_sock_key init_flow_row_def Let_def)
  ultimately have n: "snd (tcp_connect ?k2 demo_probe ?s2) \<noteq> ?s2" by metis
  have "(5 :: u32) \<noteq> 0" by simp
  from thread_starts_own_chain [OF demo_kernel_ok r this none refl demo_kernel_ok _ demo_keys(1) n]
  show ?thesis by (auto simp: demo_kernel_ktime demo_family_def)
qed

section \<open>What a key tells\<close>

text \<open>
  C39. The two key extractors on one socket: when both succeed in one memory, they differ at
  most in the protocol, and they agree exactly when the destination address ends in octet 6.
\<close>

theorem extractors_agree_iff_octet_6:
  assumes "kread_coherent kr mem"
    and "flow_key_from_sock kr sk = Some key" and "flow_key_from_sk kr sk = Some key'"
  shows "key'\<lparr>key_protocol := 6\<rparr> = key \<and> (key' = key \<longleftrightarrow> byte_of 3 (key_dst_ip key) = 6)"
proof -
  have p: "key_protocol key = 6" using sock_protocol [OF assms(2)] .
  have k: "key' = key\<lparr>key_protocol := byte_of 3 (key_dst_ip key)\<rparr>"
    using extractors_agree_up_to_protocol [OF assms(2,3)] sk_protocol_is_dst_octet [OF assms(1,3)]
    by (metis FlowKey.select_convs(2) FlowKey.surjective FlowKey.update_convs(5))
  have "key\<lparr>key_protocol := 6\<rparr> = key" using p by (cases key) simp
  with p k show ?thesis by (cases key) auto
qed

theorem extractors_agree_iff_octet_6_witness:
  "(demo_key 7)\<lparr>key_protocol := 7\<rparr> \<noteq> demo_key 7"
proof -
  have "kread_coherent (kc_kread (demo_kernel 7 100 (demo_sock 7) [])) (demo_sock 7)"
    by (auto simp: kread_coherent_def demo_kernel_def)
  from extractors_agree_iff_octet_6 [OF this demo_sock_key demo_sk_key]
  show ?thesis by (simp add: demo_key_def byte_of_from_ne_bytes)
qed

section \<open>Plaintext does not leak between calls\<close>

text \<open>Two states that differ only in the contents of their scratch entries.\<close>

definition same_but_scratch :: "sys \<Rightarrow> sys \<Rightarrow> bool" where
  "same_but_scratch s s' \<longleftrightarrow> dom (tls_uprobe_scratch s') = dom (tls_uprobe_scratch s) \<and>
     s' = s\<lparr>tls_uprobe_scratch := tls_uprobe_scratch s'\<rparr>"

lemma ssl_write_row_take:
  assumes "n \<le> length data" and "n \<le> length data'" and "take n data = take n data'"
  shows "ssl_write_row data n now ts st = ssl_write_row data' n now ts st"
proof -
  have "tls_detected data n h = tls_detected data' n h" for h
    by (simp add: tls_detected_def rd_cong [OF assms(3)])
  with assms parse_sni_take [of n data] parse_sni_take [of n data'] parse_http_take [of n data]
    parse_http_take [of n data'] show ?thesis
    by (simp add: ssl_write_row_def)
qed

lemma read_row_take: "take n data = take n data' \<Longrightarrow> parse_http_status data n = parse_http_status data' n"
  by (metis parse_status_take)

lemma scratch_pair:
  assumes "wf_scratch s" and "wf_scratch s'" and "same_but_scratch s s'"
    and "tls_uprobe_scratch s c = Some a"
  obtains b where "tls_uprobe_scratch s' c = Some b" "length a = 256" "length b = 256"
  using assms by (auto simp: same_but_scratch_def wf_scratch_def dom_def TLS_SCRATCH_LEN_def set_eq_iff) metis

lemma write_return_scratch_cong:
  assumes "kern_ok k" and "wf_scratch s" and "wf_scratch s'" and "same_but_scratch s s'"
  shows "map_option (\<lambda>x. flow_table (snd x)) (ssl_write_return k p s') =
    map_option (\<lambda>x. flow_table (snd x)) (ssl_write_return k p s)"
proof -
  let ?sc = "tls_uprobe_scratch s'"
  have s': "s' = s\<lparr>tls_uprobe_scratch := ?sc\<rparr>" using assms(4) by (simp add: same_but_scratch_def)
  have fields: "ssl_write_args s' = ssl_write_args s" "tls_thread_flow s' = tls_thread_flow s"
    "flow_table s' = flow_table s" by (subst s', simp)+
  show ?thesis
  proof (cases "tls_uprobe_scratch s (kc_cpu k)")
    case None
    then have "?sc (kc_cpu k) = None" using assms(4) unfolding same_but_scratch_def by (metis domIff)
    with None show ?thesis
      by (simp add: ssl_write_return_def fields Let_def split: option.split)
  next
    case (Some a)
    then obtain b where b: "?sc (kc_cpu k) = Some b" "length a = 256" "length b = 256"
      using scratch_pair [OF assms(2-4)] by metis
    have row: "ssl_write_row (bs @ drop n a) n now ts st = ssl_write_row (bs @ drop n b) n now ts st"
      if "kc_uread k x n = Inr bs" "n \<le> 256" for x n bs now ts st
      using kern_okD(3) [OF assms(1) that(1)] that(2) b by (intro ssl_write_row_take) auto
    show ?thesis
      using row Some b(1)
      by (simp add: ssl_write_return_def fields Let_def scratch_read_def TLS_SCRATCH_LEN_def
          option.map_comp comp_def split: option.split sum.split)
  qed
qed

lemma read_return_scratch_cong:
  assumes "kern_ok k" and "wf_scratch s" and "wf_scratch s'" and "same_but_scratch s s'"
  shows "flow_table (snd (ssl_read_return k p s')) = flow_table (snd (ssl_read_return k p s))"
proof -
  let ?sc = "tls_uprobe_scratch s'"
  have s': "s' = s\<lparr>tls_uprobe_scratch := ?sc\<rparr>" using assms(4) by (simp add: same_but_scratch_def)
  have fields: "ssl_read_args s' = ssl_read_args s" "tls_thread_flow s' = tls_thread_flow s"
    "flow_table s' = flow_table s" by (subst s', simp)+
  have "read_status k p s' = read_status k p s"
  proof (cases "tls_uprobe_scratch s (kc_cpu k)")
    case None
    then have "?sc (kc_cpu k) = None" using assms(4) unfolding same_but_scratch_def by (metis domIff)
    with None show ?thesis
      by (simp add: read_status_def read_plain_def fields split: option.split Option.bind_split)
  next
    case (Some a)
    then obtain b where b: "?sc (kc_cpu k) = Some b" "length a = 256" "length b = 256"
      using scratch_pair [OF assms(2-4)] by metis
    have row: "parse_http_status (bs @ drop n a) n = parse_http_status (bs @ drop n b) n"
      if "kc_uread k x n = Inr bs" "n \<le> 256" for x n bs
      using kern_okD(3) [OF assms(1) that(1)] by (intro read_row_take) auto
    show ?thesis
      using row Some b(1)
      by (auto simp: read_status_def read_plain_def fields Let_def scratch_read_def TLS_SCRATCH_LEN_def
          split: option.split sum.split Option.bind_split)
  qed
  then show ?thesis by (simp add: read_return.hook_table read_key_def fields split: option.split)
qed

text \<open>
  C19. The scratch entry is shared by all threads of a CPU and keeps the bytes of earlier calls
  behind a short read. No parser looks at them: two states that differ only in the contents
  of their scratch entries have the same flow table after a write return and after a read return.
\<close>

theorem scratch_contents_irrelevant:
  assumes "kern_ok k" and "wf_scratch s" and "wf_scratch s'" and "same_but_scratch s s'"
    and "h = SslWriteReturn \<or> h = SslReadReturn"
  shows "map_option (\<lambda>x. flow_table (snd x)) (run_hook h k p s') =
    map_option (\<lambda>x. flow_table (snd x)) (run_hook h k p s)"
  using assms(5) write_return_scratch_cong [OF assms(1-4)] read_return_scratch_cong [OF assms(1-4)]
  by auto

theorem scratch_contents_irrelevant_witness:
  "map_option (\<lambda>x. flow_table (snd x)) (run_hook SslWriteReturn (demo_kernel 7 9 (demo_sock 6) []) demo_probe
     ((init_sys 1)\<lparr>tls_uprobe_scratch := [0 \<mapsto> replicate 256 65]\<rparr>)) =
   map_option (\<lambda>x. flow_table (snd x)) (run_hook SslWriteReturn (demo_kernel 7 9 (demo_sock 6) []) demo_probe
     (init_sys 1))"
  by (rule scratch_contents_irrelevant [OF demo_kernel_ok])
    (auto simp: wf_scratch_def same_but_scratch_def init_sys_def dom_def TLS_SCRATCH_LEN_def split: if_splits)

text \<open>
  C40. What a row keeps of its own earlier requests: the copies overwrite only a prefix and
  write no terminator, so after a request with a shorter method the buffer still ends with the
  tail of the longer one; the two requests \<^verbatim>\<open>POST\<close> and \<^verbatim>\<open>GET\<close> leave \<^verbatim>\<open>GETT\<close>.
\<close>

theorem stale_method_tail:
  assumes "request_ok m1 path1 headers1 host1 rest1" and "request_ok m2 path2 headers2 host2 rest2"
    and "wf_state st" and "st_http_method st = replicate 8 0" and "length m2 \<le> length m1"
    and "ssl_write_row (enc_request m1 path1 headers1 host1 rest1 @ pad1)
      (length (enc_request m1 path1 headers1 host1 rest1)) now1 ts1 st = Some st1"
    and "ssl_write_row (enc_request m2 path2 headers2 host2 rest2 @ pad2)
      (length (enc_request m2 path2 headers2 host2 rest2)) now2 ts2 st1 = Some st2"
  shows "st_http_method st2 = m2 @ drop (length m2) m1 @ replicate (8 - length m1) 0"
proof -
  have len: "length m1 \<le> 7" using assms(1) by (auto simp: request_ok_def Let_def)
  have "st1 = st\<lparr>st_http_host := overwrite host1 (st_http_host st),
      st_http_method := overwrite m1 (st_http_method st), st_http_path := overwrite path1 (st_http_path st),
      st_has_http := 1, st_ssl_write_ts_ns := ts1\<rparr>"
    using assms(6) by (simp add: request_row [OF assms(1,3)])
  with request_row_wf [OF assms(1,3)] have "wf_state st1" and m1: "st_http_method st1 = overwrite m1 (replicate 8 0)"
    using assms(4) by simp_all
  from request_row [OF assms(2) this(1)] assms(7) have "st_http_method st2 = overwrite m2 (overwrite m1 (replicate 8 0))"
    using m1 by auto
  with assms(5) len show ?thesis by (auto simp: overwrite_def)
qed

theorem stale_method_tail_witness:
  "map_option (\<lambda>st. take 5 (st_http_method st))
     (Option.bind (ssl_write_row (enc_request (map ch ''POST'') [47] [] [97] [])
         (length (enc_request (map ch ''POST'') [47] [] [97] [])) 1 1 EMPTY_FLOW_STATE)
       (ssl_write_row (enc_request (map ch ''GET'') [47] [] [97] [])
         (length (enc_request (map ch ''GET'') [47] [] [97] [])) 2 2)) =
   Some (map ch ''GETT'' @ [0])"
proof -
  let ?p = "map ch ''POST''" and ?g = "map ch ''GET''"
  have ok: "request_ok ?p [47] [] [97] []" "request_ok ?g [47] [] [97] []" by code_simp+
  note r1 = request_row [OF ok(1) wf_EMPTY_FLOW_STATE, of "[]" 1 1, unfolded append_Nil2]
  note r2 = request_row [OF ok(2) request_row_wf [OF ok(1) wf_EMPTY_FLOW_STATE, of 1], of "[]" 2 2, unfolded append_Nil2]
  have z: "st_http_method EMPTY_FLOW_STATE = replicate 8 0" by (simp add: EMPTY_FLOW_STATE_def)
  have le: "length ?g \<le> length ?p" by simp
  show ?thesis
    unfolding r1 bind.simps r2
    using stale_method_tail [OF ok wf_EMPTY_FLOW_STATE z le, where ?pad1.0 = "[]" and ?pad2.0 = "[]",
        unfolded append_Nil2, OF r1 r2] by simp
qed

end
