(* ===== verification/HttpSpec.thy ===== *)
theory HttpSpec
  imports TlsParse
begin

text \<open>
  What the request parser of \<^verbatim>\<open>tls.rs\<close> computes, said with list functions: the index loops with
  their bounds (256, 400, buffer sizes) and the bounded copies together take the first word, the
  second word and the value of the first \<^verbatim>\<open>Host\<close> header.
\<close>

definition lower :: "u8 \<Rightarrow> u8" where
  "lower c = (if 0x41 \<le> c \<and> c \<le> 0x5A then c + 0x20 else c)"

definition host_prefix :: "bytes \<Rightarrow> bool" where
  "host_prefix xs \<longleftrightarrow> map lower (take 6 xs) = map ch ''host: ''"

text \<open>The bytes after the first \<^verbatim>\<open>host: \<close> (in any case), up to the end of the line.\<close>

fun host_value :: "bytes \<Rightarrow> bytes" where
  "host_value [] = []"
| "host_value (b # bs) =
     (if host_prefix (b # bs) then takeWhile (\<lambda>c. \<not> (c = 0x0D \<or> c = 0x0A)) (drop 6 (b # bs))
      else host_value bs)"

definition first_word :: "bytes \<Rightarrow> bytes" where
  "first_word = takeWhile (\<lambda>c. c \<noteq> 0x20)"

definition method_starts :: "bytes list" where
  "method_starts = map (map ch) [''GET'', ''POS'', ''PUT'', ''DEL'', ''PAT'', ''HEA'', ''OPT'']"

definition http_reference :: "bytes \<Rightarrow> http_out \<Rightarrow> http_out" where
  "http_reference msg out =
     (if length msg < 4 \<or> take 3 msg \<notin> set method_starts then out
      else \<lparr>ho_host = overwrite (host_value msg) (ho_host out),
            ho_method = overwrite (take 7 (first_word msg)) (ho_method out),
            ho_path = overwrite (first_word (drop (length (first_word msg) + 1) msg)) (ho_path out),
            ho_has_http = 1\<rparr>)"

section \<open>The searches\<close>

lemma rd_msg: "length msg \<le> 256 \<Longrightarrow> i < length msg \<Longrightarrow> rd msg (length msg) i = msg ! i"
  by (simp add: rd_eq)

lemma find_byte_takeWhile:
  assumes "length msg \<le> 256" and "i \<le> length msg" and "length msg - i \<le> n"
  shows "find_byte P n msg (length msg) i =
     (let w = length (takeWhile (\<lambda>c. \<not> P c) (drop i msg)) in if i + w < length msg then Some (i + w) else None)"
  using assms(2,3)
proof (induction n arbitrary: i)
  case (Suc n)
  show ?case
  proof (cases "i < length msg")
    case True
    then have "drop i msg = msg ! i # drop (Suc i) msg" by (simp add: Cons_nth_drop_Suc)
    with True Suc show ?thesis by (simp add: rd_msg [OF assms(1)] Let_def)
  qed (use Suc.prems in simp)
qed simp

lemma lower_eq:
  "lower c = ch CHR ''h'' \<longleftrightarrow> c = ch CHR ''H'' \<or> c = ch CHR ''h''"
  "lower c = ch CHR ''o'' \<longleftrightarrow> c = ch CHR ''o'' \<or> c = ch CHR ''O''"
  "lower c = ch CHR ''s'' \<longleftrightarrow> c = ch CHR ''s'' \<or> c = ch CHR ''S''"
  "lower c = ch CHR ''t'' \<longleftrightarrow> c = ch CHR ''t'' \<or> c = ch CHR ''T''"
  "lower c = ch CHR '':'' \<longleftrightarrow> c = ch CHR '':''"
  "lower c = ch CHR '' '' \<longleftrightarrow> c = ch CHR '' ''"
  by (auto simp: lower_def ch_def eq_diff_eq [symmetric])

lemma host_line_prefix:
  assumes "length msg \<le> 256" and "i + 6 \<le> length msg"
  shows "is_host_line msg (length msg) i \<longleftrightarrow> host_prefix (drop i msg)"
proof -
  have "take 6 (drop i msg) = map (\<lambda>j. msg ! (i + j)) [0, 1, 2, 3, 4, 5]"
    using assms(2) by (intro nth_equalityI) (auto simp: numeral_eq_Suc less_Suc_eq)
  then show ?thesis
    using assms by (simp add: is_host_line_def host_prefix_def rd_eq lower_eq)
qed

lemma host_value_short: "length xs < 6 \<Longrightarrow> host_value xs = []"
proof (induction xs)
  case (Cons b bs)
  then have "length (map lower (take 6 (b # bs))) \<noteq> length (map ch ''host: '')" by simp
  then have "\<not> host_prefix (b # bs)" unfolding host_prefix_def by metis
  with Cons show ?case by simp
qed simp

lemma find_host_value:
  assumes "length msg \<le> 256" and "length msg - i \<le> n"
  shows "host_value (drop i msg) =
     (case find_host n msg (length msg) i of None \<Rightarrow> []
      | Some hi \<Rightarrow> takeWhile (\<lambda>c. \<not> (c = 0x0D \<or> c = 0x0A)) (drop (hi + 6) msg))"
  using assms(2)
proof (induction n arbitrary: i)
  case (Suc n)
  show ?case
  proof (cases "i + 6 \<le> length msg")
    case True
    then have d: "drop i msg = msg ! i # drop (Suc i) msg" by (simp add: Cons_nth_drop_Suc)
    have "host_value (drop i msg) = (if host_prefix (drop i msg)
        then takeWhile (\<lambda>c. \<not> (c = 0x0D \<or> c = 0x0A)) (drop 6 (drop i msg))
        else host_value (drop (Suc i) msg))"
      unfolding d by (rule host_value.simps)
    with True Suc show ?thesis
      by (simp add: host_line_prefix [OF assms(1)] add.commute)
  next
    case False
    then show ?thesis by (simp add: host_value_short)
  qed
qed simp

section \<open>The copies\<close>

lemma copy_prefix:
  assumes "length out = out_len" and "w = takeWhile P (drop i msg)" and "i \<le> length msg"
    and "length w \<le> out_len"
  shows "copy_bytes_bounded out out_len msg (length msg) i (length w) = Some (overwrite w out)"
proof -
  have "length w \<le> length msg - i"
    using assms(2) length_takeWhile_le [of P "drop i msg"] by simp
  moreover have "take (length w) (drop i msg) = w"
    unfolding assms(2) by (simp add: takeWhile_eq_take [symmetric])
  ultimately show ?thesis
    using copy_whole [OF assms(1,4), of i "length msg" msg] assms(3) by simp
qed

text \<open>Copying up to the byte a bounded search finds, or to the end, is copying the prefix before it.\<close>

lemma copy_until:
  assumes "length msg \<le> 256" and "length out = 256" and "i \<le> length msg"
  shows "copy_bytes_bounded out 256 msg (length msg) i
     ((case find_byte P 256 msg (length msg) i of Some j \<Rightarrow> j | None \<Rightarrow> min (i + 256) (length msg)) - i) =
     Some (overwrite (takeWhile (\<lambda>c. \<not> P c) (drop i msg)) out)"
proof -
  let ?w = "takeWhile (\<lambda>c. \<not> P c) (drop i msg)"
  have w: "length ?w \<le> length msg - i"
    using length_takeWhile_le [of "\<lambda>c. \<not> P c" "drop i msg"] by simp
  then have "(case find_byte P 256 msg (length msg) i of Some j \<Rightarrow> j | None \<Rightarrow> min (i + 256) (length msg)) - i
      = length ?w"
    using assms(1,3) find_byte_takeWhile [OF assms(1,3), of 256 P] by (auto simp: Let_def)
  then show ?thesis
    using copy_prefix [OF assms(2) refl assms(3)] w assms(1) by simp
qed

lemma copy_host_value:
  assumes "length msg \<le> 256" and "length out = HOST_LEN"
  shows "copy_host msg (length msg) out = Some (overwrite (host_value msg) out)"
proof (cases "find_host 400 msg (length msg) 0")
  case None
  then show ?thesis
    using find_host_value [of msg 0 400] assms(1) by (simp add: copy_host_def)
next
  case (Some hi)
  then have "hi + 6 \<le> length msg" using find_host_Some by blast
  then show ?thesis
    using find_host_value [of msg 0 400] Some assms
      copy_until [OF assms(1), of out "hi + 6" "\<lambda>c. c = 0x0D \<or> c = 0x0A"]
    unfolding copy_host_def HOST_LEN_def by (simp add: Let_def)
qed

lemma http_parser_eq:
  assumes "len \<le> TLS_SCRATCH_LEN" and "len \<le> length data" and "http_wf out"
  shows "parse_http_request data len out = Some (http_reference (take len data) out)"
proof -
  define msg where "msg = take len data"
  have len: "len = length msg" and small: "length msg \<le> 256"
    using assms(1,2) by (simp_all add: msg_def TLS_SCRATCH_LEN_def)
  let ?w = "first_word msg"
  let ?fs = "case find_byte (\<lambda>c. c = ch CHR '' '') TLS_SCRATCH_LEN msg len 0 of Some si \<Rightarrow> si | None \<Rightarrow> len"
  have sp: "ch CHR '' '' = 0x20" by (simp add: ch_def)
  have wl: "length ?w \<le> len" by (simp add: len first_word_def length_takeWhile_le)
  have fs: "?fs = length ?w"
    using find_byte_takeWhile [OF small, of 0 256 "\<lambda>c. c = 0x20"] small wl
    by (auto simp: len sp first_word_def TLS_SCRATCH_LEN_def Let_def)
  have word: "take n msg = take n ?w" if "n \<le> length ?w" for n
    using that by (metis first_word_def min_absorb1 take_take takeWhile_eq_take)
  have mth: "copy_method msg len (length ?w) (ho_method out) = Some (overwrite (take 7 ?w) (ho_method out))"
  proof -
    have "take (min 7 (length ?w)) msg = take 7 ?w" using word [of "min 7 (length ?w)"] by (simp add: min_def)
    then show ?thesis
      using copy_method_effect [of "length ?w" len msg "ho_method out"] wl assms(3) len
      by (simp add: http_wf_def)
  qed
  have pth: "copy_path msg len (length ?w) (ho_path out) =
      Some (overwrite (first_word (drop (length ?w + 1) msg)) (ho_path out))"
  proof (cases "length ?w + 1 < len")
    case True
    then show ?thesis
      using copy_until [OF small, of "ho_path out" "length ?w + 1" "\<lambda>c. c = 0x20"] assms(3) len
      by (simp add: copy_path_def Let_def sp first_word_def PATH_LEN_def http_wf_def cong: option.case_cong)
  next
    case False
    then show ?thesis by (simp add: copy_path_def Let_def len first_word_def)
  qed
  have host: "copy_host msg len (ho_host out) = Some (overwrite (host_value msg) (ho_host out))"
    using copy_host_value [OF small] assms(3) by (simp add: len http_wf_def)
  have start: "is_http_method (rd msg len 0) (rd msg len 1) (rd msg len 2) \<longleftrightarrow> take 3 msg \<in> set method_starts"
    if big: "\<not> length msg < 4"
  proof -
    obtain a b c rest where "msg = a # b # c # rest"
      using big by (cases msg rule: remdups_adj.cases; cases "tl (tl msg)") auto
    then have "take 3 msg = [a, b, c]" "rd msg len 0 = a" "rd msg len 1 = b" "rd msg len 2 = c"
      using small by (simp_all add: len rd_eq)
    then show ?thesis by (simp add: method_starts_def is_http_method_def)
  qed
  have "parse_http_request data len out = parse_http_request msg len out"
    using parse_http_take [OF assms(2)] by (simp add: msg_def)
  also have "\<dots> = Some (http_reference msg out)"
    using start unfolding parse_http_request_def fs Let_def mth pth host http_reference_def
    by (simp add: len)
  finally show ?thesis by (simp add: msg_def)
qed


definition cleared_out :: http_out where
  "cleared_out = \<lparr>ho_host = replicate HOST_LEN 0, ho_method = replicate 8 0,
     ho_path = replicate PATH_LEN 0, ho_has_http = 0\<rparr>"


end
