(* ===== verification/Ledger.thy ===== *)
theory Ledger
  imports Runs HttpSpec
begin

text \<open>
  What a user of the sensor takes a flow to be: a ledger with mathematical counters, no
  sentinels and no strings, and the book of all open ledgers with the log of the closed ones.
  \<open>book_step\<close> says for each program, in these terms and without the row functions of the model,
  what it must do to the book; the refinement theorem says that it does.
\<close>

section \<open>The abstract state\<close>

text \<open>
  \<open>lg_rtt\<close> is smallest, largest and last round-trip time, in microseconds, \<open>None\<close> before the
  first sample; a first-byte time of 0 stands for never.
\<close>

record ledger =
  lg_owner :: "u32 \<times> u32 \<times> u32"
  lg_direction :: u8
  lg_chain :: "u64 \<times> u64 \<times> u32"
  lg_opened :: nat
  lg_sent :: nat
  lg_sends :: nat
  lg_first_sent :: nat
  lg_recv :: nat
  lg_recvs :: nat
  lg_first_recv :: nat
  lg_rtt :: "(nat \<times> nat \<times> nat) option"
  lg_jitter :: nat
  lg_state :: nat
  lg_ecn :: nat
  lg_sack :: nat
  lg_resent :: nat
  lg_resent_bytes :: nat
  lg_rto :: nat
  lg_fast :: nat
  lg_tlp :: nat
  lg_tls :: bool
  lg_http :: bool
  lg_status :: nat

definition rtt_of :: "u32 \<Rightarrow> u32 \<Rightarrow> u32 \<Rightarrow> (nat \<times> nat \<times> nat) option" where
  "rtt_of lo hi final = (if hi = 0 then None else Some (unat lo, unat hi, unat final))"

definition ledger_of :: "FlowState \<Rightarrow> ledger" where
  "ledger_of st = \<lparr>
     lg_owner = (st_pid st, st_uid st, st_gid st), lg_direction = st_direction st,
     lg_chain = (st_chain_id st, st_parent_chain_id st, st_chain_depth st),
     lg_opened = unat (st_connect_ts_ns st),
     lg_sent = unat (st_bytes_sent st), lg_sends = unat (st_pkts_sent st),
     lg_first_sent = unat (st_first_byte_ts_ns st),
     lg_recv = unat (st_bytes_recv st), lg_recvs = unat (st_pkts_recv st),
     lg_first_recv = unat (st_first_recv_ts_ns st),
     lg_rtt = rtt_of (st_srtt_us_min st) (st_srtt_us_max st) (st_srtt_us_last st),
     lg_jitter = unat (st_rttvar_us_max st), lg_state = unat (st_congestion_state_final st),
     lg_ecn = unat (st_ecn_signals st), lg_sack = unat (st_sack_blocks_received st),
     lg_resent = unat (st_retransmit_count st), lg_resent_bytes = unat (st_retransmit_bytes st),
     lg_rto = unat (st_retransmit_rto_count st), lg_fast = unat (st_retransmit_fast_count st),
     lg_tlp = unat (st_retransmit_tlp_count st),
     lg_tls = (st_has_tls st \<noteq> 0), lg_http = (st_has_http st \<noteq> 0),
     lg_status = unat (st_http_status st)\<rparr>"

definition event_ledger :: "FlowEvent \<Rightarrow> ledger" where
  "event_ledger e = \<lparr>
     lg_owner = (ev_pid e, ev_uid e, ev_gid e), lg_direction = ev_direction e,
     lg_chain = (ev_chain_id e, ev_parent_chain_id e, ev_chain_depth e),
     lg_opened = unat (ev_connect_ts_ns e),
     lg_sent = unat (ev_bytes_sent e), lg_sends = unat (ev_pkts_sent e),
     lg_first_sent = unat (ev_first_byte_ts_ns e),
     lg_recv = unat (ev_bytes_recv e), lg_recvs = unat (ev_pkts_recv e),
     lg_first_recv = unat (ev_first_recv_ts_ns e),
     lg_rtt = rtt_of (ev_srtt_us_min e) (ev_srtt_us_max e) (ev_srtt_us_final e),
     lg_jitter = unat (ev_rttvar_us_max e), lg_state = unat (ev_congestion_state_final e),
     lg_ecn = unat (ev_ecn_signals e), lg_sack = unat (ev_sack_blocks_received e),
     lg_resent = unat (ev_retransmit_count e), lg_resent_bytes = unat (ev_retransmit_bytes e),
     lg_rto = unat (ev_retransmit_rto_count e), lg_fast = unat (ev_retransmit_fast_count e),
     lg_tlp = unat (ev_retransmit_tlp_count e),
     lg_tls = (ev_has_tls e \<noteq> 0), lg_http = (ev_has_http e \<noteq> 0),
     lg_status = unat (ev_http_status e)\<rparr>"

text \<open>A connection's name, the open ledgers, and the log of closed ones with their closing times.\<close>

type_synonym flow_id = "u32 \<times> u32 \<times> u16 \<times> u16 \<times> u8"
type_synonym book = "(FlowKey \<rightharpoonup> ledger) \<times> (flow_id \<times> nat \<times> ledger) list"

definition key_id :: "FlowKey \<Rightarrow> flow_id" where
  "key_id key = (key_src_ip key, key_dst_ip key, key_src_port key, key_dst_port key, key_protocol key)"

definition event_entry :: "FlowEvent \<Rightarrow> flow_id \<times> nat \<times> ledger" where
  "event_entry e = ((ev_src_ip e, ev_dst_ip e, ev_src_port e, ev_dst_port e, ev_protocol e),
     unat (ev_close_ts_ns e), event_ledger e)"

definition book_of :: "sys \<Rightarrow> book" where
  "book_of s = (\<lambda>key. map_option ledger_of (flow_table s key), map event_entry (flow_events s))"

section \<open>What each program must do\<close>

text \<open>Counters stop at the largest number of their width.\<close>

definition cap :: "nat \<Rightarrow> nat \<Rightarrow> nat" where
  "cap w n = min n (2 ^ w - 1)"

definition sk_word :: "kcalls \<Rightarrow> probe \<Rightarrow> u64 \<Rightarrow> nat" where
  "sk_word k p off = unat (unwrap_or0 (kread_u32_ne (kc_kread k) (the (arg0_ptr p) + off)))"

definition with_rtt :: "nat \<Rightarrow> (nat \<times> nat \<times> nat) option \<Rightarrow> (nat \<times> nat \<times> nat) option" where
  "with_rtt x r =
     (if x = 0 then r
      else case r of None \<Rightarrow> Some (x, x, x) | Some (lo, hi, _) \<Rightarrow> Some (min lo x, max hi x, x))"

text \<open>The bytes a completed \<^verbatim>\<open>SSL_write\<close> shows, and what they look like.\<close>

definition looks_tls :: "bytes \<Rightarrow> bool" where
  "looks_tls msg \<longleftrightarrow> 6 \<le> length msg \<and> msg ! 0 = 0x16 \<and> msg ! 5 = 0x01"

definition looks_http :: "bytes \<Rightarrow> bool" where
  "looks_http msg \<longleftrightarrow> 4 \<le> length msg \<and> take 3 msg \<in> set method_starts"

definition written :: "kcalls \<Rightarrow> probe \<Rightarrow> sys \<Rightarrow> bytes option" where
  "written k p s = map_option (\<lambda>(n, data, ts). take n data) (write_plain k p s)"

definition resend :: "kcalls \<Rightarrow> probe \<Rightarrow> ledger \<Rightarrow> ledger" where
  "resend k p l = l\<lparr>lg_resent := cap 32 (lg_resent l + 1),
     lg_resent_bytes := cap 64 (lg_resent_bytes l +
       (sk_word k p 0x18C + 2 ^ 32 - sk_word k p 0x188) mod 2 ^ 32)\<rparr>"

text \<open>Which ledger a program amends, and how.\<close>

fun entry :: "hook \<Rightarrow> kcalls \<Rightarrow> probe \<Rightarrow> sys \<Rightarrow> FlowKey option \<times> (ledger \<Rightarrow> ledger)" where
  "entry TcpSendmsg k p s = (sendmsg_key k p, \<lambda>l. l\<lparr>
     lg_sent := cap 64 (lg_sent l + unat (the (arg2_usize p))), lg_sends := cap 64 (lg_sends l + 1),
     lg_first_sent := if lg_first_sent l = 0 then unat (kc_ktime k 0) else lg_first_sent l\<rparr>)"
| "entry TcpRecvmsg k p s = (recvmsg_key k p s, \<lambda>l. l\<lparr>
     lg_recv := cap 64 (lg_recv l + unat (the (ret_i64 p))), lg_recvs := cap 64 (lg_recvs l + 1),
     lg_first_recv := if lg_first_recv l = 0 then unat (kc_ktime k 0) else lg_first_recv l\<rparr>)"
| "entry TcpSendActiveReset k p s = (sock_key k p, \<lambda>l. l\<lparr>lg_state := 2\<rparr>)"
| "entry TcpRcvEstablished k p s = (quality_key k p, \<lambda>l. l\<lparr>
     lg_rtt := with_rtt (sk_word k p 0x1E0 div 8) (lg_rtt l),
     lg_jitter := max (lg_jitter l) (sk_word k p 0x1E4 div 4),
     lg_state := unat (unwrap_or0 (kread_u8 (kc_kread k) (the (arg0_ptr p) + 0x164)))\<rparr>)"
| "entry TcpEnterCwr k p s = (sk_key k p, \<lambda>l. l\<lparr>lg_ecn := cap 32 (lg_ecn l + 1)\<rparr>)"
| "entry TcpEnterLoss k p s = (sk_key k p, \<lambda>l. l\<lparr>lg_state := 4\<rparr>)"
| "entry TcpEnterRecovery k p s = (sk_key k p, \<lambda>l. l\<lparr>lg_state := 3\<rparr>)"
| "entry TcpRetransmitSkb k p s = (sk_key k p, \<lambda>l. (resend k p l)\<lparr>lg_rto := cap 32 (lg_rto l + 1)\<rparr>)"
| "entry TcpSendLossProbe k p s = (sk_key k p, \<lambda>l. (resend k p l)\<lparr>lg_tlp := cap 32 (lg_tlp l + 1)\<rparr>)"
| "entry TcpFastRetransmit k p s = (sk_key k p, \<lambda>l. (resend k p l)\<lparr>lg_fast := cap 32 (lg_fast l + 1)\<rparr>)"
| "entry TcpSacktag k p s = (sk_key k p, \<lambda>l. l\<lparr>lg_sack := cap 32 (lg_sack l + 1)\<rparr>)"
| "entry SslWriteReturn k p s =
     (case written k p s of None \<Rightarrow> (None, id)
      | Some msg \<Rightarrow> (tls_thread_flow s (kc_pid_tgid k), \<lambda>l. l\<lparr>
          lg_tls := lg_tls l \<or> looks_tls msg, lg_http := lg_http l \<or> looks_http msg\<rparr>))"
| "entry SslReadReturn k p s = (read_key k p s, \<lambda>l. l\<lparr>lg_status := unat (read_status k p s)\<rparr>)"
| "entry _ k p s = (None, id)"

definition amend :: "FlowKey option \<times> (ledger \<Rightarrow> ledger) \<Rightarrow> book \<Rightarrow> book" where
  "amend x b = (case fst x of None \<Rightarrow> b | Some key \<Rightarrow> ((fst b)(key := map_option (snd x) (fst b key)), snd b))"

text \<open>A fresh ledger: everything zero but the owner, the direction, the clock and the chain.\<close>

definition new_ledger :: "kcalls \<Rightarrow> (u64 \<rightharpoonup> CausalCtx) \<Rightarrow> u8 \<Rightarrow> ledger" where
  "new_ledger k causal direction = \<lparr>
     lg_owner = (ucast (drop_bit 32 (kc_pid_tgid k)), ucast (kc_uid_gid k), ucast (drop_bit 32 (kc_uid_gid k))),
     lg_direction = direction,
     lg_chain = (case causal (kc_pid_tgid k) of
         Some c \<Rightarrow> (cc_chain_id c, cc_parent_chain_id c, cc_depth c) | None \<Rightarrow> (kc_ktime k 0, 0, 0)),
     lg_opened = unat (kc_ktime k 0),
     lg_sent = 0, lg_sends = 0, lg_first_sent = 0, lg_recv = 0, lg_recvs = 0, lg_first_recv = 0,
     lg_rtt = None, lg_jitter = 0, lg_state = 0, lg_ecn = 0, lg_sack = 0, lg_resent = 0,
     lg_resent_bytes = 0, lg_rto = 0, lg_fast = 0, lg_tlp = 0, lg_tls = False, lg_http = False,
     lg_status = 0\<rparr>"

text \<open>Opening replaces the ledger under the key, if the map accepts it, and may evict others.\<close>

definition opens :: "FlowKey option \<Rightarrow> u8 \<Rightarrow> kcalls \<Rightarrow> sys \<Rightarrow> book \<Rightarrow> book \<Rightarrow> bool" where
  "opens ko direction k s b b' =
     (case ko of None \<Rightarrow> b' = b | Some key \<Rightarrow>
      (case op_insert (kc_flow k) (flow_table s) key EMPTY_FLOW_STATE of Inl _ \<Rightarrow> b' = b
       | Inr _ \<Rightarrow> snd b' = snd b \<and> fst b' key = Some (new_ledger k (causal_map s) direction) \<and>
           (\<forall>key'. key' \<noteq> key \<longrightarrow> fst b' key' = fst b key' \<or> fst b' key' = None)))"

text \<open>Closing logs the ledger under the key, if there is room, and drops it, if the map agrees.\<close>

definition closes :: "FlowKey option \<Rightarrow> kcalls \<Rightarrow> sys \<Rightarrow> book \<Rightarrow> book \<Rightarrow> bool" where
  "closes ko k s b b' =
     (case ko of None \<Rightarrow> b' = b | Some key \<Rightarrow>
      (case (fst b key, kc_ring_reserve k) of
         (Some l, Some _) \<Rightarrow> snd b' = snd b @ [(key_id key, unat (kc_ktime k 0), l)] \<and>
           fst b' = (case op_remove (kc_flow k) (flow_table s) key of
               Inl _ \<Rightarrow> fst b | Inr _ \<Rightarrow> (fst b)(key := None))
       | _ \<Rightarrow> b' = b))"

definition book_step :: "hook \<Rightarrow> kcalls \<Rightarrow> probe \<Rightarrow> sys \<Rightarrow> book \<Rightarrow> book \<Rightarrow> bool" where
  "book_step h k p s b b' =
     (if h = TcpConnect then opens (sock_key k p) (FlowDirection_u8 Outbound) k s b b'
      else if h = InetCskAccept then opens (accept_key k p) (FlowDirection_u8 Inbound) k s b b'
      else if h = TcpClose then closes (sock_key k p) k s b b'
      else b' = amend (entry h k p s) b)"

section \<open>Refinement\<close>

context touch_hook
begin

lemma hook_amends:
  assumes "\<And>key st. hkey k p s = Some key \<Longrightarrow> flow_table s key = Some st \<Longrightarrow>
      ledger_of (hupd k p s st) = f (ledger_of st)"
  shows "book_of (hook k p s) = amend (hkey k p s, f) (book_of s)"
  using assms hook_events [of k p s]
  by (auto simp: book_of_def amend_def hook_table touch_def fun_eq_iff split: option.split)

end

lemma unat_add_cap: "unat (saturating_add a b :: 'a::len word) = cap LENGTH('a) (unat a + unat b)"
  by (simp add: unat_saturating_add cap_def)

lemma unat_if_zero: "unat (if x = 0 then y else x) = (if unat x = 0 then unat y else unat x)"
  by (simp add: unat_eq_0)

lemma send_ledger:
  "ledger_of (sendmsg_row len now st) = (ledger_of st)\<lparr>
     lg_sent := cap 64 (lg_sent (ledger_of st) + unat len), lg_sends := cap 64 (lg_sends (ledger_of st) + 1),
     lg_first_sent := if lg_first_sent (ledger_of st) = 0 then unat now else lg_first_sent (ledger_of st)\<rparr>"
  by (simp add: ledger_of_def sendmsg_row_eq unat_add_cap unat_eq_0)

lemma recv_ledger:
  "ledger_of (recvmsg_row len now st) = (ledger_of st)\<lparr>
     lg_recv := cap 64 (lg_recv (ledger_of st) + unat len), lg_recvs := cap 64 (lg_recvs (ledger_of st) + 1),
     lg_first_recv := if lg_first_recv (ledger_of st) = 0 then unat now else lg_first_recv (ledger_of st)\<rparr>"
  by (simp add: ledger_of_def recvmsg_row_eq unat_add_cap unat_eq_0)

lemma signal_ledgers:
  "ledger_of (rst_row st) = (ledger_of st)\<lparr>lg_state := 2\<rparr>"
  "ledger_of (ecn_row st) = (ledger_of st)\<lparr>lg_ecn := cap 32 (lg_ecn (ledger_of st) + 1)\<rparr>"
  "ledger_of (enter_loss_row st) = (ledger_of st)\<lparr>lg_state := 4\<rparr>"
  "ledger_of (enter_recovery_row st) = (ledger_of st)\<lparr>lg_state := 3\<rparr>"
  "ledger_of (sack_row st) = (ledger_of st)\<lparr>lg_sack := cap 32 (lg_sack (ledger_of st) + 1)\<rparr>"
  "ledger_of (ssl_read_row status st) = (ledger_of st)\<lparr>lg_status := unat status\<rparr>"
  by (simp_all add: ledger_of_def row_defs unat_add_cap)

text \<open>The sentinels of the row are invisible: with the invariant of the samples, a sample is one.\<close>

lemma unat_drop_bit: "unat (drop_bit n x) = unat x div 2 ^ n"
  by (subst unat_drop_bit_eq) (simp add: drop_bit_eq_div)

lemma rtt_with_sample:
  assumes "rtt_ok st" and "x < 2 ^ 29"
  shows "lg_rtt (ledger_of (quality_row x v cwnd ca st)) = with_rtt (unat x) (lg_rtt (ledger_of st))"
proof (cases "x = 0")
  case True
  then show ?thesis by (simp add: ledger_of_def quality_row_eq with_rtt_def)
next
  case False
  then have x: "0 < x" "unat x \<noteq> 0" by (simp_all add: word_gt_0 unat_eq_0)
  have "x < U32_MAX" using assms(2) by (rule less_trans) (simp add: U32_MAX_def)
  with assms(1) x show ?thesis
    by (auto simp: rtt_ok_def ledger_of_def quality_row_eq with_rtt_def rtt_of_def min_def max_def
        word_less_nat_alt word_le_nat_alt)
qed

lemma quality_ledger:
  assumes "quality_key k p = Some key" and "rtt_ok st"
  shows "ledger_of (quality_upd k p st) = (ledger_of st)\<lparr>
     lg_rtt := with_rtt (sk_word k p 0x1E0 div 8) (lg_rtt (ledger_of st)),
     lg_jitter := max (lg_jitter (ledger_of st)) (sk_word k p 0x1E4 div 4),
     lg_state := unat (unwrap_or0 (kread_u8 (kc_kread k) (the (arg0_ptr p) + 0x164)))\<rparr>"
proof -
  from assms(1) obtain sk where sk: "arg0_ptr p = Some sk" "sample (kc_kread k) sk \<noteq> None"
    by (auto simp: quality_key_def bind_eq_Some_conv)
  then obtain a b cwnd where r: "arg0_ptr p = Some sk"
    "kread_u32_ne (kc_kread k) (sk + 0x1E0) = Inr a" "kread_u32_ne (kc_kread k) (sk + 0x1E4) = Inr b"
    "kread_u32_ne (kc_kread k) (sk + 0x1AC) = Inr cwnd"
    by (cases "kread_u32_ne (kc_kread k) (sk + 0x1E0)"; cases "kread_u32_ne (kc_kread k) (sk + 0x1E4)";
        cases "kread_u32_ne (kc_kread k) (sk + 0x1AC)")
      (simp_all add: sample_def TCP_SRTT_US_OFFSET_def TCP_RTTVAR_US_OFFSET_def TCP_SND_CWND_OFFSET_def)
  let ?ca = "unwrap_or0 (kread_u8 (kc_kread k) (sk + 0x164))"
  have upd: "quality_upd k p st = quality_row (drop_bit 3 a) (drop_bit 2 b) cwnd ?ca st"
    using r by (simp add: quality_upd_def sample_def TCP_SRTT_US_OFFSET_def TCP_RTTVAR_US_OFFSET_def
        TCP_SND_CWND_OFFSET_def TCP_ICSK_CA_STATE_OFFSET_def)
  have words: "sk_word k p 0x1E0 div 8 = unat (drop_bit 3 a)" "sk_word k p 0x1E4 div 4 = unat (drop_bit 2 b)"
    using r by (simp_all add: sk_word_def unwrap_or0_def unat_drop_bit)
  have "lg_rtt (ledger_of (quality_row (drop_bit 3 a) (drop_bit 2 b) cwnd ?ca st)) =
      with_rtt (unat (drop_bit 3 a)) (lg_rtt (ledger_of st))"
    by (rule rtt_with_sample [OF assms(2) drop_bit_bounds(1)])
  then show ?thesis
    unfolding upd words using r(1)
    by (simp add: ledger_of_def quality_row_eq max_def word_less_nat_alt)
qed

lemma flight_words:
  assumes "arg0_ptr p = Some sk"
  shows "unat (bytes_in_flight (kc_kread k) sk) =
     (sk_word k p 0x18C + 2 ^ 32 - sk_word k p 0x188) mod 2 ^ 32"
proof -
  have "unat (ucast (w :: u32) :: u64) = unat w" for w
    using unsigned_less [of w, where ?'a = nat] by (simp add: unsigned_ucast_eq take_bit_nat_eq_self)
  moreover have "unat (a - b) = (unat a + 2 ^ 32 - unat b) mod 2 ^ 32" for a b :: u32
  proof -
    have "x - y = (x + 2 ^ 32 - y) mod 2 ^ 32" if "y \<le> x" "x < 2 ^ 32" for x y :: nat
    proof -
      have "x + 2 ^ 32 - y = (x - y) + 2 ^ 32" using that by simp
      moreover have "(x - y + 2 ^ 32) mod 2 ^ 32 = x - y" using that by (simp only: mod_add_self2) simp
      ultimately show ?thesis by (simp only:)
    qed
    then show ?thesis
      using unat_sub_if_size [of a b] unsigned_less [of a, where ?'a = nat] by (simp add: word_size)
  qed
  ultimately show ?thesis
    using assms by (simp add: bytes_in_flight_def sk_word_def Let_def TCP_SND_UNA_OFFSET_def TCP_SND_NXT_OFFSET_def)
qed

lemma resend_ledgers:
  assumes "sk_key k p = Some key"
  shows "ledger_of (retransmit_upd Rto k p st) =
      (resend k p (ledger_of st))\<lparr>lg_rto := cap 32 (lg_rto (ledger_of st) + 1)\<rparr>"
    and "ledger_of (retransmit_upd FastRetransmit k p st) =
      (resend k p (ledger_of st))\<lparr>lg_fast := cap 32 (lg_fast (ledger_of st) + 1)\<rparr>"
    and "ledger_of (retransmit_upd Tlp k p st) =
      (resend k p (ledger_of st))\<lparr>lg_tlp := cap 32 (lg_tlp (ledger_of st) + 1)\<rparr>"
proof -
  from assms obtain sk where "arg0_ptr p = Some sk" by (auto simp: sk_key_def bind_eq_Some_conv)
  note flight = flight_words [OF this]
  show "ledger_of (retransmit_upd Rto k p st) =
      (resend k p (ledger_of st))\<lparr>lg_rto := cap 32 (lg_rto (ledger_of st) + 1)\<rparr>"
    and "ledger_of (retransmit_upd FastRetransmit k p st) =
      (resend k p (ledger_of st))\<lparr>lg_fast := cap 32 (lg_fast (ledger_of st) + 1)\<rparr>"
    and "ledger_of (retransmit_upd Tlp k p st) =
      (resend k p (ledger_of st))\<lparr>lg_tlp := cap 32 (lg_tlp (ledger_of st) + 1)\<rparr>"
    using \<open>arg0_ptr p = Some sk\<close>
    by (simp_all add: retransmit_upd_def retransmit_row_eq ledger_of_def resend_def unat_add_cap flight)
qed

text \<open>An unreadable ClientHello is still taken for one by its two marker bytes.\<close>

lemma sni_implies_tls:
  assumes "parse_tls_clienthello_sni data n out = Some (h, sni)" and "h \<noteq> 0"
  shows "6 \<le> n \<and> rd data n 0 = 0x16 \<and> rd data n 5 = 0x01"
proof -
  have "clienthello_header data n"
    using assms by (auto simp: parse_tls_clienthello_sni_def clienthello_extensions_def split: if_splits option.splits)
  then show ?thesis by (auto simp: clienthello_header_def Let_def split: if_splits)
qed

lemma write_ledger:
  assumes "length data = TLS_SCRATCH_LEN" and "n \<le> TLS_SCRATCH_LEN" and "wf_state st"
    and "ssl_write_row data n now ts st = Some st'"
  shows "ledger_of st' = (ledger_of st)\<lparr>lg_tls := lg_tls (ledger_of st) \<or> looks_tls (take n data),
     lg_http := lg_http (ledger_of st) \<or> looks_http (take n data)\<rparr>"
proof -
  let ?out = "\<lparr>ho_host = st_http_host st, ho_method = st_http_method st, ho_path = st_http_path st, ho_has_http = 0\<rparr>"
  have n: "n \<le> length data" "length data = 256" "n \<le> 256" using assms(1,2) by (simp_all add: TLS_SCRATCH_LEN_def)
  have wf: "http_wf ?out" using assms(3) by (simp add: http_wf_def wf_state_def)
  have http: "parse_http_request data n ?out = Some (http_reference (take n data) ?out)"
    by (rule http_parser_eq [OF assms(2) n(1) wf])
  obtain hs sni where sni: "parse_tls_clienthello_sni data n (st_tls_sni st) = Some (hs, sni)"
    using assms(4) by (auto simp: ssl_write_row_def bind_eq_Some_conv)
  have tls: "tls_detected data n hs = looks_tls (take n data)"
  proof -
    have "rd data n i = take n data ! i" if "i < n" for i using that n by (simp add: rd_eq)
    then show ?thesis
      using sni_implies_tls [OF sni] n(1) by (auto simp: tls_detected_def looks_tls_def min_def)
  qed
  have flag: "ho_has_http (http_reference (take n data) ?out) = (if looks_http (take n data) then 1 else 0)"
    by (auto simp: http_reference_def looks_http_def)
  show ?thesis
    using assms(4) unfolding ssl_write_row_eq [OF sni http] Let_def flag tls
    by (cases "looks_tls (take n data)"; cases "looks_http (take n data)") (auto simp: ledger_of_def)
qed

lemma write_return_table:
  "map_option (\<lambda>x. flow_table (snd x)) (ssl_write_return k p s) =
     (case (write_plain k p s, tls_thread_flow s (kc_pid_tgid k)) of
        (Some (n, data, ts), Some key) \<Rightarrow>
          (case flow_table s key of None \<Rightarrow> Some (flow_table s)
           | Some st \<Rightarrow> map_option (\<lambda>st'. (flow_table s)(key \<mapsto> st'))
               (ssl_write_row data n (kc_ktime k 0) ts st))
      | _ \<Rightarrow> Some (flow_table s))"
  by (auto simp: ssl_write_return_def write_plain_def Let_def option.map_comp comp_def
      split: option.split prod.split)

lemma write_amends:
  assumes "kern_ok k" and "wf_scratch s" and "\<And>key st. flow_table s key = Some st \<Longrightarrow> wf_state st"
    and "ssl_write_return k p s = Some (r, s')"
  shows "book_of s' = amend (entry SslWriteReturn k p s) (book_of s)"
proof -
  have events: "flow_events s' = flow_events s"
    using assms(4) by (cases rule: ssl_write_return_cases) auto
  note table = write_return_table [of k p s, unfolded assms(4), simplified]
  show ?thesis
  proof (cases "write_plain k p s")
    case None
    with table events show ?thesis by (simp add: book_of_def amend_def written_def)
  next
    case (Some x)
    obtain n data ts where x: "x = (n, data, ts)" by (cases x)
    note plain = write_plain_Some(1,2) [OF assms(1,2) Some [unfolded x]]
    show ?thesis
    proof (cases "tls_thread_flow s (kc_pid_tgid k)")
      case None
      with table events Some x show ?thesis by (simp add: book_of_def amend_def written_def)
    next
      case key: (Some key)
      show ?thesis
      proof (cases "flow_table s key")
        case None
        with table events Some x key show ?thesis
          by (auto simp: book_of_def amend_def written_def fun_eq_iff)
      next
        case st: (Some st)
        with table Some x key obtain st' where st': "flow_table s' = (flow_table s)(key \<mapsto> st')"
          "ssl_write_row data n (kc_ktime k 0) ts st = Some st'"
          by (cases "ssl_write_row data n (kc_ktime k 0) ts st") auto
        with write_ledger [OF plain assms(3) [OF st] st'(2)] events Some x key st show ?thesis
          by (auto simp: book_of_def amend_def written_def fun_eq_iff)
      qed
    qed
  qed
qed

lemma fresh_ledger:
  "ledger_of (fill_new_flow_state k causal direction EMPTY_FLOW_STATE) = new_ledger k causal direction"
  by (auto simp: ledger_of_def new_ledger_def fresh_defs rtt_of_def Let_def split: option.split)

lemma open_books:
  assumes "lru_ok (kc_flow k)" and "init_flow_row k key direction s = (r, s')"
  shows "opens (Some key) direction k s (book_of s) (book_of s')"
  using assms
proof (cases rule: init_flow_row_cases)
  case (failed e)
  have "m key = Some EMPTY_FLOW_STATE" if "op_insert (kc_flow k) (flow_table s) key EMPTY_FLOW_STATE = Inr m" for m
    using assms(1) that unfolding lru_ok_def by blast
  with failed assms(2) show ?thesis
    by (auto simp: opens_def init_flow_row_def Let_def split: sum.splits if_splits)
next
  case filled
  then have "\<exists>m. op_insert (kc_flow k) (flow_table s) key EMPTY_FLOW_STATE = Inr m"
    using assms(2) by (auto simp: init_flow_row_def split: sum.splits)
  moreover have "map_option ledger_of (flow_table s' key') = map_option ledger_of (flow_table s key') \<or>
      map_option ledger_of (flow_table s' key') = None" if "key' \<noteq> key" for key'
    using filled(2) that unfolding opened_def by (metis option.map_disc_iff)
  ultimately show ?thesis
    using filled(2,3) by (auto simp: opens_def book_of_def opened_def fresh_ledger)
qed

lemma connect_books:
  assumes "lru_ok (kc_flow k)"
  shows "opens (sock_key k p) (FlowDirection_u8 Outbound) k s (book_of s) (book_of (snd (tcp_connect k p s)))"
proof (cases "sock_key k p")
  case None
  then have "snd (tcp_connect k p s) = s"
    by (auto simp: tcp_connect_def handle_tcp_connect_def sock_key_def split: option.split)
  with None show ?thesis by (simp add: opens_def)
next
  case (Some key)
  obtain r s' where init: "init_flow_row k key (FlowDirection_u8 Outbound) s = (r, s')" by fastforce
  with Some have "snd (tcp_connect k p s) = s'"
    by (auto simp: tcp_connect_def handle_tcp_connect_def sock_key_def bind_eq_Some_conv split: sum.split)
  with open_books [OF assms init] Some show ?thesis by simp
qed

lemma accept_books:
  assumes "lru_ok (kc_flow k)"
  shows "opens (accept_key k p) (FlowDirection_u8 Inbound) k s (book_of s) (book_of (snd (inet_csk_accept k p s)))"
proof (cases "accept_key k p")
  case None
  then have "snd (inet_csk_accept k p s) = s"
    by (auto simp: inet_csk_accept_def handle_accept_def accept_key_def split: option.split)
  with None show ?thesis by (simp add: opens_def)
next
  case (Some key)
  obtain r s' where init: "init_flow_row k key (FlowDirection_u8 Inbound) s = (r, s')" by fastforce
  with Some have "snd (inet_csk_accept k p s) = s'"
    by (auto simp: inet_csk_accept_def handle_accept_def accept_key_def bind_eq_Some_conv split: sum.split if_splits)
  with open_books [OF assms init] Some show ?thesis by simp
qed

lemma close_entry:
  assumes "rtt_ok st"
  shows "event_entry (fill_event key st now e) = (key_id key, unat now, ledger_of st)"
proof -
  have "rtt_of (if st_srtt_us_min st = U32_MAX then 0 else st_srtt_us_min st) (st_srtt_us_max st) (st_srtt_us_last st) =
      rtt_of (st_srtt_us_min st) (st_srtt_us_max st) (st_srtt_us_last st)"
  proof -
    have "a \<noteq> U32_MAX" if "a \<le> b" "b \<le> c" "c < 2 ^ 29" for a b c
      using order.strict_trans1 [OF order.trans [OF that(1,2)] that(3)] by (auto simp: U32_MAX_def)
    then show ?thesis using assms by (auto simp: rtt_of_def rtt_ok_def)
  qed
  then show ?thesis by (simp add: event_entry_def event_ledger_def ledger_of_def key_id_def)
qed

lemma close_books:
  assumes "remove_ok (kc_flow k)" and "\<And>key st. flow_table s key = Some st \<Longrightarrow> rtt_ok st"
  shows "closes (sock_key k p) k s (book_of s) (book_of (snd (tcp_close k p s)))"
proof (cases "sock_key k p")
  case None
  then have "snd (tcp_close k p s) = s"
    by (auto simp: tcp_close_def handle_tcp_close_def sock_key_def split: option.split)
  with None show ?thesis by (simp add: closes_def)
next
  case (Some key)
  then obtain sk where sk: "arg0_ptr p = Some sk" "flow_key_from_sock (kc_kread k) sk = Some key"
    by (auto simp: sock_key_def bind_eq_Some_conv)
  have gone: "m = (flow_table s)(key := None)" if "op_remove (kc_flow k) (flow_table s) key = Inr m" for m
    using assms(1) that unfolding remove_ok_def by blast
  show ?thesis
  proof (cases "flow_table s key = None \<or> kc_ring_reserve k = None")
    case True
    with sk Some show ?thesis
      by (auto simp: closes_def book_of_def tcp_close_def handle_tcp_close_def Let_def split: option.split)
  next
    case False
    then obtain st e where "flow_table s key = Some st" "kc_ring_reserve k = Some e" by auto
    with sk Some show ?thesis
      using close_entry [OF assms(2), of key st key] gone
      by (cases "op_remove (kc_flow k) (flow_table s) key")
        (auto simp: closes_def book_of_def tcp_close_def handle_tcp_close_def Let_def fun_upd_def)
  qed
qed

lemma amend_steps:
  "book_of (snd (tcp_sendmsg k p s)) = amend (entry TcpSendmsg k p s) (book_of s)"
  "book_of (snd (tcp_recvmsg k p s)) = amend (entry TcpRecvmsg k p s) (book_of s)"
  "book_of (snd (tcp_send_active_reset k p s)) = amend (entry TcpSendActiveReset k p s) (book_of s)"
  "book_of (snd (tcp_enter_cwr k p s)) = amend (entry TcpEnterCwr k p s) (book_of s)"
  "book_of (snd (tcp_enter_loss k p s)) = amend (entry TcpEnterLoss k p s) (book_of s)"
  "book_of (snd (tcp_enter_recovery k p s)) = amend (entry TcpEnterRecovery k p s) (book_of s)"
  "book_of (snd (tcp_retransmit_skb k p s)) = amend (entry TcpRetransmitSkb k p s) (book_of s)"
  "book_of (snd (tcp_fast_retransmit k p s)) = amend (entry TcpFastRetransmit k p s) (book_of s)"
  "book_of (snd (tcp_send_loss_probe k p s)) = amend (entry TcpSendLossProbe k p s) (book_of s)"
  "book_of (snd (tcp_sacktag k p s)) = amend (entry TcpSacktag k p s) (book_of s)"
  "book_of (snd (ssl_read_return k p s)) = amend (entry SslReadReturn k p s) (book_of s)"
proof -
  show "book_of (snd (tcp_sendmsg k p s)) = amend (entry TcpSendmsg k p s) (book_of s)"
    unfolding entry.simps by (rule sendmsg.hook_amends) (rule send_ledger)
  show "book_of (snd (tcp_recvmsg k p s)) = amend (entry TcpRecvmsg k p s) (book_of s)"
    unfolding entry.simps by (rule recvmsg.hook_amends) (rule recv_ledger)
  show "book_of (snd (tcp_send_active_reset k p s)) = amend (entry TcpSendActiveReset k p s) (book_of s)"
    unfolding entry.simps by (rule rst.hook_amends) (rule signal_ledgers(1))
  show "book_of (snd (tcp_enter_cwr k p s)) = amend (entry TcpEnterCwr k p s) (book_of s)"
    unfolding entry.simps by (rule ecn.hook_amends) (rule signal_ledgers(2))
  show "book_of (snd (tcp_enter_loss k p s)) = amend (entry TcpEnterLoss k p s) (book_of s)"
    unfolding entry.simps by (rule loss.hook_amends) (rule signal_ledgers(3))
  show "book_of (snd (tcp_enter_recovery k p s)) = amend (entry TcpEnterRecovery k p s) (book_of s)"
    unfolding entry.simps by (rule recovery.hook_amends) (rule signal_ledgers(4))
  show "book_of (snd (tcp_retransmit_skb k p s)) = amend (entry TcpRetransmitSkb k p s) (book_of s)"
    unfolding entry.simps by (rule rto.hook_amends) (erule resend_ledgers(1))
  show "book_of (snd (tcp_fast_retransmit k p s)) = amend (entry TcpFastRetransmit k p s) (book_of s)"
    unfolding entry.simps by (rule fast.hook_amends) (erule resend_ledgers(2))
  show "book_of (snd (tcp_send_loss_probe k p s)) = amend (entry TcpSendLossProbe k p s) (book_of s)"
    unfolding entry.simps by (rule tlp.hook_amends) (erule resend_ledgers(3))
  show "book_of (snd (tcp_sacktag k p s)) = amend (entry TcpSacktag k p s) (book_of s)"
    unfolding entry.simps by (rule sack.hook_amends) (rule signal_ledgers(5))
  show "book_of (snd (ssl_read_return k p s)) = amend (entry SslReadReturn k p s) (book_of s)"
    unfolding entry.simps by (rule read_return.hook_amends) (rule signal_ledgers(6))
qed

lemma amend_none: "amend (None, f) b = b"
  by (simp add: amend_def)

lemma silent_books:
  "book_of (snd (tcp_recvmsg_entry k p s)) = book_of s" "book_of (snd (on_new_task k p s)) = book_of s"
  "book_of (snd (on_exit k p s)) = book_of s" "book_of (snd (ssl_write_entry k p s)) = book_of s"
  "book_of (snd (ssl_read_entry k p s)) = book_of s"
  by (simp_all add: book_of_def recvmsg_entry.hook_table recvmsg_entry.hook_events new_task.hook_table
      new_task.hook_events exiting.hook_table exiting.hook_events write_entry.hook_table
      write_entry.hook_events read_entry.hook_table read_entry.hook_events)

lemma book_refined:
  assumes "kern_ok k" and "wf_scratch s" and "\<And>key st. flow_table s key = Some st \<Longrightarrow> wf_state st \<and> rtt_ok st"
    and "run_hook h k p s = Some x"
  shows "book_step h k p s (book_of s) (book_of (snd x))"
proof -
  have ops: "lru_ok (kc_flow k)" "remove_ok (kc_flow k)" using assms(1) by (simp_all add: kern_ok_def)
  note rows = conjunct1 [OF assms(3)] conjunct2 [OF assms(3)]
  have quality: "book_of (snd (tcp_rcv_established k p s)) = amend (entry TcpRcvEstablished k p s) (book_of s)"
    unfolding entry.simps by (rule quality.hook_amends, rule quality_ledger, assumption, rule rows(2))
  have wrote: "book_of (snd x) = amend (entry SslWriteReturn k p s) (book_of s)" if "ssl_write_return k p s = Some x"
    using that by (intro write_amends [where r = "fst x", OF assms(1,2) rows(1)]) simp_all
  have amends: "book_of (snd x) = amend (entry h k p s) (book_of s)"
    if "h \<noteq> TcpConnect" "h \<noteq> InetCskAccept" "h \<noteq> TcpClose"
  proof (cases "h = SslWriteReturn")
    case True
    with assms(4) wrote show ?thesis by simp
  next
    case False
    with that assms(4) show ?thesis
      by (cases h) (auto simp: amend_steps silent_books quality amend_none)
  qed
  show ?thesis
  proof (cases "h = TcpConnect \<or> h = InetCskAccept \<or> h = TcpClose")
    case True
    then show ?thesis
      using assms(4) connect_books [OF ops(1), of p s] accept_books [OF ops(1), of p s]
        close_books [where p = p and s = s, OF ops(2) rows(2)]
      by (elim disjE) (auto simp: book_step_def)
  next
    case False
    with amends show ?thesis by (simp add: book_step_def)
  qed
qed

text \<open>
  C13. Refinement: in every reachable state each of the 21 programs does to the flow table and
  the event log exactly what the book says it must. A send, receive, reset, quality sample,
  congestion signal, retransmission, SACK, completed write or completed read amends the ledger of
  its own connection, if there is one, in the stated fields only and in mathematical terms
  (capped sums, minimum and maximum of the samples seen, no sentinels); a connect or accept
  opens a fresh all-zero ledger unless the map refuses it; a close logs exactly the ledger it
  found, unless the ring is full; the other programs change nothing.
\<close>

theorem hooks_refine_book:
  assumes "reach Q t s" and "kern_ok k" and "run_hook h k p s = Some (r, s')"
  shows "book_step h k p s (book_of s) (book_of s')"
proof (rule book_refined [OF assms(2) reach_scratch [OF assms(1)] _ assms(3), simplified])
  fix key st assume row: "flow_table s key = Some st"
  have "reach any_kernel t s" by (rule reach_any [OF assms(1)])
  from buffers.reach_row [OF this row] stats.reach_row [OF this row]
  show "wf_state st \<and> rtt_ok st" by (simp add: buffers_ok_def stats_ok_def)
qed

theorem hooks_refine_book_witness:
  "book_of (snd (tcp_sendmsg (demo_kernel 7 400 (demo_sock 6) []) demo_probe (demo_end 6))) =
   amend (entry TcpSendmsg (demo_kernel 7 400 (demo_sock 6) []) demo_probe (demo_end 6)) (book_of (demo_end 6))"
proof -
  let ?k = "demo_kernel 7 400 (demo_sock 6) []"
  have "run_hook TcpSendmsg ?k demo_probe (demo_end 6) =
      Some (fst (tcp_sendmsg ?k demo_probe (demo_end 6)), snd (tcp_sendmsg ?k demo_probe (demo_end 6)))"
    by simp
  from hooks_refine_book [OF demo_reach(1) demo_kernel_ok this] show ?thesis
    by (simp add: book_step_def)
qed

end
