(* ===== verification/RustStr.thy ===== *)
theory RustStr
  imports Prelude
begin

text \<open>
  The parts of Rust's string library the userspace side uses. A \<^verbatim>\<open>str\<close> is its UTF-8 bytes, so
  \<^verbatim>\<open>len\<close> is the length of the list and a slice bound is a byte index; taking \<^verbatim>\<open>s[..n]\<close> off a
  character boundary panics, which is \<open>None\<close> here.
\<close>

type_synonym str = bytes

definition lit :: "string \<Rightarrow> str" where
  "lit s = map of_char s"

subsection \<open>UTF-8\<close>

definition is_cont :: "u8 \<Rightarrow> bool" where
  "is_cont b \<longleftrightarrow> 0x80 \<le> b \<and> b \<le> 0xBF"

text \<open>
  The first character of a byte sequence: whether it is well-formed, and how many bytes it or
  its maximal ill-formed prefix takes. The ranges of the second byte exclude overlong forms,
  surrogates and code points above U+10FFFF.
\<close>

definition second_ok :: "u8 \<Rightarrow> u8 \<Rightarrow> bool" where
  "second_ok b0 b1 \<longleftrightarrow>
     (if b0 = 0xE0 then 0xA0 \<le> b1 \<and> b1 \<le> 0xBF
      else if b0 = 0xED then 0x80 \<le> b1 \<and> b1 \<le> 0x9F
      else if b0 = 0xF0 then 0x90 \<le> b1 \<and> b1 \<le> 0xBF
      else if b0 = 0xF4 then 0x80 \<le> b1 \<and> b1 \<le> 0x8F
      else is_cont b1)"

definition char_width :: "u8 \<Rightarrow> nat" where
  "char_width b =
     (if b < 0x80 then 1 else if 0xC2 \<le> b \<and> b \<le> 0xDF then 2
      else if 0xE0 \<le> b \<and> b \<le> 0xEF then 3 else if 0xF0 \<le> b \<and> b \<le> 0xF4 then 4 else 0)"

fun utf8_head :: "bytes \<Rightarrow> bool \<times> nat" where
  "utf8_head [] = (False, 0)"
| "utf8_head (b0 # bs) =
     (let w = char_width b0 in
      if w = 0 then (False, 1)
      else if w = 1 then (True, 1)
      else (case bs of
         [] \<Rightarrow> (False, 1)
       | b1 # bs1 \<Rightarrow>
           if \<not> second_ok b0 b1 then (False, 1)
           else if w = 2 then (True, 2)
           else (case bs1 of
              [] \<Rightarrow> (False, 2)
            | b2 # bs2 \<Rightarrow>
                if \<not> is_cont b2 then (False, 2)
                else if w = 3 then (True, 3)
                else (case bs2 of
                   [] \<Rightarrow> (False, 3)
                 | b3 # _ \<Rightarrow> if \<not> is_cont b3 then (False, 3) else (True, 4)))))"

lemma utf8_head_width: "bs \<noteq> [] \<Longrightarrow> 0 < snd (utf8_head bs) \<and> snd (utf8_head bs) \<le> length bs"
  by (cases bs) (auto simp: Let_def split: list.splits)

function utf8_valid :: "bytes \<Rightarrow> bool" where
  "utf8_valid bs \<longleftrightarrow> (if bs = [] then True
     else fst (utf8_head bs) \<and> utf8_valid (drop (snd (utf8_head bs)) bs))"
  by pat_completeness auto
termination
  using utf8_head_width by (relation "measure length") fastforce+

declare utf8_valid.simps [simp del]

text \<open>\<^verbatim>\<open>std::str::from_utf8\<close> and \<^verbatim>\<open>String::from_utf8_lossy\<close>.\<close>

definition from_utf8 :: "bytes \<Rightarrow> str option" where
  "from_utf8 bs = (if utf8_valid bs then Some bs else None)"

function from_utf8_lossy :: "bytes \<Rightarrow> str" where
  "from_utf8_lossy bs =
     (if bs = [] then []
      else (let (ok, n) = utf8_head bs
            in (if ok then take n bs else [0xEF, 0xBF, 0xBD]) @ from_utf8_lossy (drop n bs)))"
  by pat_completeness auto
termination
proof (relation "measure length")
  fix bs x ok n assume "bs \<noteq> []" "x = utf8_head bs" "(ok, n) = x"
  with utf8_head_width [of bs] show "(drop n bs, bs) \<in> measure length"
    by (metis diff_less in_measure length_drop length_greater_0_conv snd_conv)
qed simp

declare from_utf8_lossy.simps [simp del]

text \<open>A byte cast with \<^verbatim>\<open>as char\<close> is the Latin-1 character.\<close>

definition latin1 :: "u8 \<Rightarrow> str" where
  "latin1 b = (if b < 0x80 then [b] else [0xC0 OR drop_bit 6 b, 0x80 OR (b AND 0x3F)])"

subsection \<open>Slices\<close>

definition is_char_boundary :: "str \<Rightarrow> nat \<Rightarrow> bool" where
  "is_char_boundary s n \<longleftrightarrow> n = length s \<or> (n < length s \<and> \<not> is_cont (s ! n))"

definition slice_to :: "str \<Rightarrow> nat \<Rightarrow> str option" where
  "slice_to s n = (if is_char_boundary s n then Some (take n s) else None)"

text \<open>The number of characters, which is what format widths count.\<close>

definition char_count :: "str \<Rightarrow> nat" where
  "char_count s = length (filter (\<lambda>b. \<not> is_cont b) s)"

definition pad_right :: "nat \<Rightarrow> str \<Rightarrow> str" where
  "pad_right w s = s @ replicate (w - char_count s) 0x20"

subsection \<open>Searching and splitting\<close>

definition starts_with :: "str \<Rightarrow> str \<Rightarrow> bool" where
  "starts_with s pat \<longleftrightarrow> take (length pat) s = pat"

fun str_contains :: "str \<Rightarrow> str \<Rightarrow> bool" where
  "str_contains [] pat \<longleftrightarrow> pat = []"
| "str_contains (b # s) pat \<longleftrightarrow> starts_with (b # s) pat \<or> str_contains s pat"

text \<open>\<^verbatim>\<open>split(c)\<close> and \<^verbatim>\<open>splitn(n, c)\<close> for an ASCII character, \<^verbatim>\<open>split(pat)\<close> for a non-empty string.\<close>

fun split_on :: "u8 \<Rightarrow> str \<Rightarrow> str list" where
  "split_on c [] = [[]]"
| "split_on c (b # s) =
     (if b = c then [] # split_on c s
      else (case split_on c s of [] \<Rightarrow> [[b]] | p # ps \<Rightarrow> (b # p) # ps))"

fun splitn_on :: "nat \<Rightarrow> u8 \<Rightarrow> str \<Rightarrow> str list" where
  "splitn_on 0 c s = []"
| "splitn_on (Suc 0) c s = [s]"
| "splitn_on (Suc (Suc n)) c [] = [[]]"
| "splitn_on (Suc (Suc n)) c (b # s) =
     (if b = c then [] # splitn_on (Suc n) c s
      else (case splitn_on (Suc (Suc n)) c s of [] \<Rightarrow> [[b]] | p # ps \<Rightarrow> (b # p) # ps))"

function split_str :: "str \<Rightarrow> str \<Rightarrow> str list" where
  "split_str pat [] = [[]]"
| "split_str pat (b # s) =
     (if pat \<noteq> [] \<and> starts_with (b # s) pat then [] # split_str pat (drop (length pat) (b # s))
      else (case split_str pat s of [] \<Rightarrow> [[b]] | p # ps \<Rightarrow> (b # p) # ps))"
  by pat_completeness auto
termination
  by (relation "measure (\<lambda>(pat, s). length s)") auto

text \<open>\<^verbatim>\<open>lines\<close>: a carriage return is dropped only right before a line feed.\<close>

definition strip_cr :: "str \<Rightarrow> str" where
  "strip_cr s = (if s \<noteq> [] \<and> last s = 0x0D then butlast s else s)"

definition str_lines :: "str \<Rightarrow> str list" where
  "str_lines s =
     (let ps = split_on 0x0A s
      in map strip_cr (butlast ps) @ (if last ps = [] then [] else [last ps]))"

subsection \<open>White space\<close>

text \<open>The characters with the Unicode property White_Space.\<close>

definition ws_seqs :: "str list" where
  "ws_seqs = [[0x09], [0x0A], [0x0B], [0x0C], [0x0D], [0x20], [0xC2, 0x85], [0xC2, 0xA0],
     [0xE1, 0x9A, 0x80], [0xE2, 0x80, 0x80], [0xE2, 0x80, 0x81], [0xE2, 0x80, 0x82],
     [0xE2, 0x80, 0x83], [0xE2, 0x80, 0x84], [0xE2, 0x80, 0x85], [0xE2, 0x80, 0x86],
     [0xE2, 0x80, 0x87], [0xE2, 0x80, 0x88], [0xE2, 0x80, 0x89], [0xE2, 0x80, 0x8A],
     [0xE2, 0x80, 0xA8], [0xE2, 0x80, 0xA9], [0xE2, 0x80, 0xAF], [0xE2, 0x81, 0x9F],
     [0xE3, 0x80, 0x80]]"

definition ws_len :: "str list \<Rightarrow> str \<Rightarrow> nat" where
  "ws_len ws s = (case find (\<lambda>w. starts_with s w) ws of None \<Rightarrow> 0 | Some w \<Rightarrow> length w)"

function drop_ws :: "str list \<Rightarrow> str \<Rightarrow> str" where
  "drop_ws ws s = (if s = [] \<or> ws_len ws s = 0 then s else drop_ws ws (drop (ws_len ws s) s))"
  by pat_completeness auto
termination
  by (relation "measure (\<lambda>(ws, s). length s)") auto

declare drop_ws.simps [simp del]

text \<open>The characters are self-synchronising, so the end is trimmed on the reversed bytes.\<close>

definition trim :: "str \<Rightarrow> str" where
  "trim s = rev (drop_ws (map rev ws_seqs) (rev (drop_ws ws_seqs s)))"

definition flush :: "str \<Rightarrow> str list" where
  "flush cur = (if cur = [] then [] else [rev cur])"

function split_ws :: "str \<Rightarrow> str \<Rightarrow> str list" where
  "split_ws cur [] = flush cur"
| "split_ws cur (b # s) =
     (if ws_len ws_seqs (b # s) = 0 then split_ws (b # cur) s
      else flush cur @ split_ws [] (drop (ws_len ws_seqs (b # s)) (b # s)))"
  by pat_completeness auto
termination
  by (relation "measure (\<lambda>(cur, s). length s)") auto

definition split_whitespace :: "str \<Rightarrow> str list" where
  "split_whitespace s = split_ws [] s"

subsection \<open>Numbers\<close>

definition is_dec :: "u8 \<Rightarrow> bool" where
  "is_dec b \<longleftrightarrow> 0x30 \<le> b \<and> b \<le> 0x39"

definition dec_value :: "str \<Rightarrow> nat" where
  "dec_value ds = foldl (\<lambda>n b. 10 * n + (unat b - 48)) 0 ds"

text \<open>\<^verbatim>\<open>parse\<close> at an unsigned type of \<open>w\<close> bits: an optional plus sign, digits, no overflow.\<close>

definition parse_uint :: "nat \<Rightarrow> str \<Rightarrow> nat option" where
  "parse_uint w s =
     (let ds = (if s \<noteq> [] \<and> hd s = 0x2B then tl s else s) in
      if ds = [] \<or> \<not> list_all is_dec ds then None
      else if dec_value ds < 2 ^ w then Some (dec_value ds) else None)"

text \<open>\<^verbatim>\<open>{}\<close> of an unsigned integer, and \<^verbatim>\<open>{:#x}\<close>.\<close>

fun dec :: "nat \<Rightarrow> str" where
  "dec n = (if n < 10 then [of_nat (48 + n)] else dec (n div 10) @ [of_nat (48 + n mod 10)])"

definition hex_digit :: "nat \<Rightarrow> u8" where
  "hex_digit d = of_nat (if d < 10 then 48 + d else 87 + d)"

fun hex :: "nat \<Rightarrow> str" where
  "hex n = (if n < 16 then [hex_digit n] else hex (n div 16) @ [hex_digit (n mod 16)])"

declare dec.simps [simp del] hex.simps [simp del]

definition hex0x :: "nat \<Rightarrow> str" where
  "hex0x n = lit ''0x'' @ hex n"

section \<open>Printing and parsing numbers\<close>

lemma dec_not_Nil [simp]: "dec n \<noteq> []"
  by (subst dec.simps) simp

lemma digit_unat: "d < 10 \<Longrightarrow> unat (word_of_nat (48 + d) :: u8) = 48 + d"
  by (simp add: unat_of_nat del: of_nat_add)

lemma digit_is_dec: "d < 10 \<Longrightarrow> is_dec (of_nat (48 + d))"
  unfolding is_dec_def word_le_nat_alt by (simp add: digit_unat del: of_nat_add)

lemma dec_is_dec: "list_all is_dec (dec n)"
proof (induction n rule: dec.induct)
  case (1 n)
  show ?case
    using "1.IH" digit_is_dec [of n] digit_is_dec [of "n mod 10"]
    by (subst dec.simps) (simp del: of_nat_add)
qed

lemma dec_value_append: "dec_value (xs @ [b]) = 10 * dec_value xs + (unat b - 48)"
  by (simp add: dec_value_def)

lemma dec_value_dec: "dec_value (dec n) = n"
proof (induction n rule: dec.induct)
  case (1 n)
  show ?case
  proof (cases "n < 10")
    case True
    then show ?thesis
      by (subst dec.simps) (simp add: dec_value_def digit_unat del: of_nat_add)
  next
    case False
    then have "dec n = dec (n div 10) @ [of_nat (48 + n mod 10)]"
      by (subst dec.simps) simp
    then show ?thesis
      using 1 [OF False] by (simp add: dec_value_append digit_unat del: of_nat_add)
  qed
qed

lemma is_dec_not_plus: "is_dec b \<Longrightarrow> b \<noteq> 0x2B"
  by (auto simp: is_dec_def)

lemma parse_uint_digits:
  assumes "list_all is_dec ds" and "ds \<noteq> []" and "dec_value ds < 2 ^ w"
  shows "parse_uint w ds = Some (dec_value ds)"
proof -
  have "hd ds \<noteq> 0x2B" using assms(1,2) is_dec_not_plus by (cases ds) auto
  with assms show ?thesis by (simp add: parse_uint_def Let_def)
qed

lemma parse_uint_dec: "n < 2 ^ w \<Longrightarrow> parse_uint w (dec n) = Some n"
  using parse_uint_digits [OF dec_is_dec dec_not_Nil, of n w] by (simp add: dec_value_dec)

lemma parse_uint_range: "parse_uint w s = Some n \<Longrightarrow> n < 2 ^ w"
  by (auto simp: parse_uint_def Let_def split: if_splits)

section \<open>Trimming and splitting\<close>

text \<open>Printable ASCII other than the blank is never white space.\<close>

definition plain :: "u8 \<Rightarrow> bool" where
  "plain b \<longleftrightarrow> 0x21 \<le> b \<and> b \<le> 0x7E"

lemma ws_len_head:
  assumes "list_all (\<lambda>w. w \<noteq> [] \<and> hd w \<noteq> b) ws"
  shows "ws_len ws (b # s) = 0"
proof -
  have "find (\<lambda>w. starts_with (b # s) w) ws = None"
  proof -
    have "\<not> starts_with (b # s) w" if "w \<in> set ws" for w
    proof -
      have "w \<noteq> []" "hd w \<noteq> b" using that assms by (auto simp: list_all_iff)
      then show ?thesis by (cases w) (simp_all add: starts_with_def)
    qed
    then show ?thesis by (auto simp: find_None_iff)
  qed
  then show ?thesis by (simp add: ws_len_def)
qed

lemma plain_not_ws:
  assumes "plain b"
  shows "ws_len ws_seqs (b # s) = 0" and "ws_len (map rev ws_seqs) (b # s) = 0"
proof -
  have "b \<notin> {0x09, 0x0A, 0x0B, 0x0C, 0x0D, 0x20}" using assms by (auto simp: plain_def)
  moreover have "b < 0x80" using assms by (simp add: plain_def word_le_nat_alt word_less_nat_alt)
  then have "b \<noteq> c" if "0x80 \<le> c" for c using that by auto
  ultimately show "ws_len ws_seqs (b # s) = 0" "ws_len (map rev ws_seqs) (b # s) = 0"
    by (auto intro!: ws_len_head simp: ws_seqs_def)
qed

lemma blank_ws: "ws_len ws_seqs (0x20 # s) = 1"
  by (simp add: ws_len_def ws_seqs_def starts_with_def)

lemma is_dec_plain: "is_dec b \<Longrightarrow> plain b"
  by (simp add: is_dec_def plain_def word_le_nat_alt)

lemma trim_plain:
  assumes "s \<noteq> []" and "plain (hd s)" and "plain (last s)"
  shows "trim s = s" and "trim (0x20 # s) = s" and "trim (s @ [0x20]) = s"
proof -
  have start: "drop_ws ws_seqs s = s"
    using assms(1,2) by (subst drop_ws.simps) (cases s, simp_all add: plain_not_ws)
  have rev: "rev s = last s # rev (butlast s)"
    using assms(1) by (metis append_butlast_last_id rev.simps(2) rev_rev_ident rev_append append_Nil rev_singleton_conv append_Cons)
  have tail: "drop_ws (map rev ws_seqs) (rev s) = rev s"
    unfolding rev using assms(3) by (subst drop_ws.simps) (simp add: plain_not_ws)
  from start tail show "trim s = s" by (simp add: trim_def)
  have "drop_ws ws_seqs (0x20 # s) = s"
    by (subst drop_ws.simps) (simp add: blank_ws start)
  with tail show "trim (0x20 # s) = s" by (simp add: trim_def)
  have "drop_ws ws_seqs (s @ [0x20]) = s @ [0x20]"
    using assms(1,2) by (subst drop_ws.simps) (cases s, simp_all add: plain_not_ws)
  moreover have "ws_len (map rev ws_seqs) (0x20 # rev s) = 1"
    by (simp add: ws_len_def ws_seqs_def starts_with_def)
  then have "drop_ws (map rev ws_seqs) (0x20 # rev s) = rev s"
    by (subst drop_ws.simps) (simp add: tail)
  ultimately show "trim (s @ [0x20]) = s" by (simp add: trim_def)
qed

text \<open>Any number of blanks on either side is trimmed.\<close>

lemma drop_ws_blanks:
  "drop_ws ws_seqs (replicate n 0x20 @ s) = drop_ws ws_seqs s"
  "drop_ws (map rev ws_seqs) (replicate n 0x20 @ s) = drop_ws (map rev ws_seqs) s"
proof -
  have "ws_len (map rev ws_seqs) (0x20 # t) = 1" for t
    by (simp add: ws_len_def ws_seqs_def starts_with_def)
  then have "drop_ws ws_seqs (0x20 # t) = drop_ws ws_seqs t"
    "drop_ws (map rev ws_seqs) (0x20 # t) = drop_ws (map rev ws_seqs) t" for t
    by (subst drop_ws.simps, simp add: blank_ws)+
  then show "drop_ws ws_seqs (replicate n 0x20 @ s) = drop_ws ws_seqs s"
    "drop_ws (map rev ws_seqs) (replicate n 0x20 @ s) = drop_ws (map rev ws_seqs) s"
    by (induction n) simp_all
qed

lemma trim_padded:
  assumes "s \<noteq> []" and "plain (hd s)" and "plain (last s)"
  shows "trim (replicate a 0x20 @ s @ replicate b 0x20) = s"
proof -
  have "drop_ws ws_seqs (s @ t) = s @ t" for t
    using assms(1,2) by (subst drop_ws.simps) (cases s, simp_all add: plain_not_ws)
  moreover have "rev (drop_ws (map rev ws_seqs) (rev s)) = s"
    using trim_plain(1) [OF assms] calculation [of "[]"] by (simp add: trim_def)
  ultimately show ?thesis by (simp add: trim_def drop_ws_blanks)
qed

lemma split_on_not_Nil [simp]: "split_on c s \<noteq> []"
  by (induction s) (auto split: list.splits)

lemma split_on_plain: "c \<notin> set s \<Longrightarrow> split_on c s = [s]"
  by (induction s) auto

lemma split_on_Cons: "c \<notin> set p \<Longrightarrow> split_on c (p @ c # s) = p # split_on c s"
  by (induction p) auto

section \<open>Lines and pieces\<close>

lemma starts_with_append [simp]: "starts_with (p @ s) p"
  by (simp add: starts_with_def)

lemma starts_with_iff: "starts_with s p \<longleftrightarrow> (\<exists>v. s = p @ v)"
  unfolding starts_with_def by (metis append_eq_conv_conj append_take_drop_id)

lemma str_contains_iff: "str_contains s p \<longleftrightarrow> (\<exists>u v. s = u @ p @ v)"
proof (induction s)
  case (Cons b s)
  show ?case
  proof
    assume "str_contains (b # s) p"
    then consider v where "b # s = p @ v" | u v where "s = u @ p @ v"
      using Cons.IH by (auto simp: starts_with_iff)
    then show "\<exists>u v. b # s = u @ p @ v" by cases (metis append_Nil, metis append_Cons)
  next
    assume "\<exists>u v. b # s = u @ p @ v"
    then obtain u v where uv: "b # s = u @ p @ v" by blast
    then show "str_contains (b # s) p"
    proof (cases u)
      case Nil
      with uv have "starts_with (b # s) p" by (simp add: starts_with_iff)
      then show ?thesis by simp
    next
      case (Cons x xs)
      with uv Cons.IH show ?thesis by auto
    qed
  qed
qed simp

lemma str_contains_append: "str_contains s p \<Longrightarrow> str_contains (u @ s @ v) p"
  unfolding str_contains_iff by (metis append_assoc)

lemma str_contains_butlast: "str_contains (strip_cr s) p \<Longrightarrow> str_contains s p"
  unfolding strip_cr_def str_contains_iff
  by (metis append.assoc append_butlast_last_id)

lemma split_on_set: "x \<in> set (split_on c s) \<Longrightarrow> set x \<subseteq> set s"
proof (induction s arbitrary: x)
  case (Cons b s)
  show ?case
  proof (cases "split_on c s")
    case Nil
    then show ?thesis by simp
  next
    case (Cons p ps)
    then have "set p \<subseteq> set s" "\<And>x. x \<in> set ps \<Longrightarrow> set x \<subseteq> set s"
      using Cons.IH by auto
    with Cons Cons.prems show ?thesis by (auto split: if_splits)
  qed
qed simp

lemma splitn_on_set: "x \<in> set (splitn_on n c s) \<Longrightarrow> set x \<subseteq> set s"
proof (induction n c s arbitrary: x rule: splitn_on.induct)
  case (4 n c b s)
  show ?case
  proof (cases "b = c")
    case True
    with "4.IH"(1) "4.prems" show ?thesis by auto
  next
    case False
    show ?thesis
    proof (cases "splitn_on (Suc (Suc n)) c s")
      case Nil
      with False "4.prems" show ?thesis by simp
    next
      case (Cons p ps)
      then have "set p \<subseteq> set s" "\<And>x. x \<in> set ps \<Longrightarrow> set x \<subseteq> set s"
        using "4.IH"(2) [OF False] by auto
      with Cons False "4.prems" show ?thesis by auto
    qed
  qed
qed auto

text \<open>A split after the separators found so far, and the rest of the text as the last piece.\<close>

lemma splitn_on_Cons: "c \<notin> set p \<Longrightarrow> splitn_on (Suc (Suc n)) c (p @ c # s) = p # splitn_on (Suc n) c s"
  by (induction p) auto

lemma splitn_on_suffix:
  "n < length (splitn_on (Suc n) c s) \<Longrightarrow> \<exists>u. s = u @ splitn_on (Suc n) c s ! n"
proof (induction "Suc n" c s arbitrary: n rule: splitn_on.induct)
  case (4 n c b s)
  show ?case
  proof (cases "b = c")
    case True
    with "4.prems" have "n < length (splitn_on (Suc n) c s)" by simp
    with "4.hyps"(1) [OF True] obtain u where "s = u @ splitn_on (Suc n) c s ! n" by blast
    with True show ?thesis by (intro exI [of _ "b # u"]) simp
  next
    case False
    show ?thesis
    proof (cases "splitn_on (Suc (Suc n)) c s")
      case Nil
      with False "4.prems" show ?thesis by simp
    next
      case (Cons p ps)
      with False "4.prems" have "Suc n < length (splitn_on (Suc (Suc n)) c s)" by simp
      with "4.hyps"(2) [OF False] obtain u where "s = u @ splitn_on (Suc (Suc n)) c s ! Suc n" by blast
      with Cons False show ?thesis by (intro exI [of _ "b # u"]) simp
    qed
  qed
qed simp_all

lemma split_on_last_irrelevant [simp]: "last (x # split_on c s) = last (split_on c s)"
  by simp

text \<open>Text whose first lines are given.\<close>

definition unlines :: "str list \<Rightarrow> str" where
  "unlines ls = concat (map (\<lambda>l. l @ [0x0A]) ls)"

lemma str_lines_Cons: "0x0A \<notin> set l \<Longrightarrow> str_lines (l @ 0x0A # s) = strip_cr l # str_lines s"
  by (simp add: str_lines_def split_on_Cons Let_def)

lemma str_lines_unlines:
  "list_all (\<lambda>l. 0x0A \<notin> set l) ls \<Longrightarrow> str_lines (unlines ls @ s) = map strip_cr ls @ str_lines s"
  by (induction ls) (simp_all add: unlines_def str_lines_Cons)

lemma str_lines_set: "x \<in> set (str_lines s) \<Longrightarrow> set x \<subseteq> set s"
proof -
  assume x: "x \<in> set (str_lines s)"
  have "\<exists>y \<in> set (split_on 0x0A s). x = strip_cr y \<or> x = y"
    using x by (auto simp: str_lines_def Let_def split: if_splits dest: in_set_butlastD intro: last_in_set)
  then show ?thesis
    using split_on_set by (fastforce simp: strip_cr_def split: if_splits dest: in_set_butlastD)
qed

text \<open>Slicing ASCII text never panics.\<close>

lemma slice_ascii:
  assumes "list_all (\<lambda>b. b < 0x80) s" and "n \<le> length s"
  shows "slice_to s n = Some (take n s)"
proof -
  have "\<not> is_cont (s ! n)" if "n < length s"
  proof -
    have "s ! n < 0x80" using assms(1) that by (simp add: list_all_length)
    then show ?thesis by (simp add: is_cont_def not_le)
  qed
  with assms(2) show ?thesis by (auto simp: slice_to_def is_char_boundary_def)
qed

lemma plain_ascii: "plain b \<Longrightarrow> b < 0x80"
  by (simp add: plain_def word_le_nat_alt word_less_nat_alt)

end
