(* ===== verification/EventAccess.thy ===== *)
theory EventAccess
  imports Types RustStr
begin

text \<open>
  The display helpers of \<^verbatim>\<open>impl FlowEvent\<close> in \<^verbatim>\<open>flow-sensor-common/src/lib.rs\<close> (the
  rate in percent is in \<open>Printer\<close>, with the other floating-point code), and the part of
  \<^verbatim>\<open>std::net::Ipv4Addr\<close> they use.
\<close>

subsection \<open>IPv4 addresses\<close>

text \<open>\<^verbatim>\<open>Ipv4Addr::from(u32)\<close> takes the most significant byte first.\<close>

datatype Ipv4Addr = Ipv4Addr u8 u8 u8 u8

definition ipv4_from :: "u32 \<Rightarrow> Ipv4Addr" where
  "ipv4_from x = Ipv4Addr (byte_of 3 x) (byte_of 2 x) (byte_of 1 x) (byte_of 0 x)"

fun ipv4_str :: "Ipv4Addr \<Rightarrow> str" where
  "ipv4_str (Ipv4Addr a b c d) =
     dec (unat a) @ lit ''.'' @ dec (unat b) @ lit ''.'' @ dec (unat c) @ lit ''.'' @ dec (unat d)"

definition src_ip_str :: "FlowEvent \<Rightarrow> Ipv4Addr" where
  "src_ip_str e = ipv4_from (u32_to_be (ev_src_ip e))"

definition dst_ip_str :: "FlowEvent \<Rightarrow> Ipv4Addr" where
  "dst_ip_str e = ipv4_from (u32_to_be (ev_dst_ip e))"

text \<open>The octets come out in the order in which they lie in memory.\<close>

lemma ipv4_memory_order:
  "ipv4_from (u32_to_be x) = Ipv4Addr (byte_of 0 x) (byte_of 1 x) (byte_of 2 x) (byte_of 3 x)"
  unfolding ipv4_from_def byte_of_u32_to_be by (rule refl)

subsection \<open>Strings in fixed-size buffers\<close>

text \<open>\<^verbatim>\<open>iter().position(|&b| b == 0)\<close>.\<close>

primrec zero_position :: "bytes \<Rightarrow> nat option" where
  "zero_position [] = None"
| "zero_position (b # bs) = (if b = 0 then Some 0 else map_option Suc (zero_position bs))"

definition unwrap_or :: "'a option \<Rightarrow> 'a \<Rightarrow> 'a" where
  "unwrap_or x d = (case x of None \<Rightarrow> d | Some v \<Rightarrow> v)"

lemma unwrap_or_simps [simp]: "unwrap_or None d = d" "unwrap_or (Some v) d = v"
  by (simp_all add: unwrap_or_def)

text \<open>
  The accessors differ in what they do without a terminator (all bytes for \<^verbatim>\<open>comm\<close>, none for
  the others) and with invalid UTF-8.
\<close>

definition buf_str :: "nat \<Rightarrow> str \<Rightarrow> bytes \<Rightarrow> str" where
  "buf_str full invalid buf =
     unwrap_or (from_utf8 (take (unwrap_or (zero_position buf) full) buf)) invalid"

definition comm_str :: "FlowEvent \<Rightarrow> str" where
  "comm_str e = buf_str COMM_LEN (lit ''<invalid>'') (ev_comm e)"

definition sni_str :: "FlowEvent \<Rightarrow> str" where
  "sni_str e = buf_str 0 [] (ev_tls_sni e)"

definition http_host_str :: "FlowEvent \<Rightarrow> str" where
  "http_host_str e = buf_str 0 [] (ev_http_host e)"

definition http_path_str :: "FlowEvent \<Rightarrow> str" where
  "http_path_str e = buf_str 0 [] (ev_http_path e)"

definition close_reason :: "FlowEvent \<Rightarrow> CloseReason" where
  "close_reason e =
     (if ev_close_reason e = 1 then Clean else if ev_close_reason e = 2 then Reset
      else if ev_close_reason e = 3 then Timeout else if ev_close_reason e = 4 then LocalClose
      else CrUnknown)"

lemma close_reason_inverse: "ev_close_reason e = CloseReason_u8 r \<Longrightarrow> close_reason e = r"
  by (cases r) (simp_all add: close_reason_def)

lemma zero_position_append:
  "0 \<notin> set xs \<Longrightarrow> zero_position (xs @ 0 # ys) = Some (length xs)"
  by (induction xs) auto

lemma zero_position_None: "0 \<notin> set xs \<Longrightarrow> zero_position xs = None"
  by (induction xs) auto

lemma zero_position_Some:
  "zero_position xs = Some n \<Longrightarrow> n < length xs \<and> xs ! n = 0 \<and> 0 \<notin> set (take n xs)"
  by (induction xs arbitrary: n) (auto split: if_splits)

text \<open>A terminated, valid string is read back whole.\<close>

lemma buf_str_terminated:
  assumes "0 \<notin> set xs" and "utf8_valid xs" and "buf = xs @ 0 # ys"
  shows "buf_str full invalid buf = xs"
  using assms by (simp add: buf_str_def zero_position_append from_utf8_def)

lemma buf_str_overwrite:
  assumes "0 \<notin> set xs" and "utf8_valid xs" and "length xs < n"
  shows "buf_str full invalid (overwrite xs (replicate n 0)) = xs"
proof -
  from assms(3) have "overwrite xs (replicate n 0) = xs @ 0 # replicate (n - length xs - 1) 0"
    by (cases "n - length xs") (simp_all add: overwrite_def)
  with assms(1,2) show ?thesis by (rule buf_str_terminated)
qed

lemma utf8_ascii: "list_all (\<lambda>b. b < 0x80) xs \<Longrightarrow> utf8_valid xs"
proof (induction xs)
  case Nil
  show ?case by (simp add: utf8_valid.simps)
next
  case (Cons x xs)
  then show ?case by (subst utf8_valid.simps) (simp add: char_width_def Let_def)
qed

lemma utf8_head_append:
  assumes "fst (utf8_head bs)"
  shows "utf8_head (bs @ ys) = utf8_head bs"
proof -
  consider "bs = []" | b0 where "bs = [b0]" | b0 b1 where "bs = [b0, b1]"
    | b0 b1 b2 where "bs = [b0, b1, b2]" | b0 b1 b2 b3 r where "bs = b0 # b1 # b2 # b3 # r"
    by (metis list.exhaust)
  then show ?thesis
  proof cases
    case (2 b0)
    with assms show ?thesis by (simp add: Let_def split: if_splits)
  next
    case (3 b0 b1)
    with assms show ?thesis by (simp add: Let_def split: if_splits)
  next
    case (4 b0 b1 b2)
    with assms show ?thesis by (simp add: Let_def split: if_splits)
  qed (use assms in \<open>simp_all add: Let_def\<close>)
qed

lemma utf8_append: "utf8_valid xs \<Longrightarrow> utf8_valid ys \<Longrightarrow> utf8_valid (xs @ ys)"
proof (induction xs rule: utf8_valid.induct)
  case (1 bs)
  show ?case
  proof (cases "bs = []")
    case False
    with "1.prems"(1) have h: "fst (utf8_head bs)" "utf8_valid (drop (snd (utf8_head bs)) bs)"
      by (simp_all add: utf8_valid.simps [of bs])
    then have "utf8_head (bs @ ys) = utf8_head bs"
      by (intro utf8_head_append)
    moreover have "snd (utf8_head bs) \<le> length bs" using utf8_head_width [OF False] by simp
    ultimately show ?thesis
      using False h "1.IH" [OF False h(2) "1.prems"(2)] by (subst utf8_valid.simps) simp
  qed (use "1.prems" in simp)
qed

end
