(* ===== verification/Enricher.thy ===== *)
theory Enricher
  imports EventAccess
begin

text \<open>
  \<^verbatim>\<open>flow-sensor/src/enricher.rs\<close>: what userspace adds to an event. The machine it runs on
  (\<^verbatim>\<open>/proc\<close>, the file system, the output of \<^verbatim>\<open>ldconfig\<close>) is the parameter \<open>host\<close>. A panic
  is \<open>None\<close>.
\<close>

subsection \<open>The machine\<close>

text \<open>
  The system calls made through \<^verbatim>\<open>std::fs\<close>, \<^verbatim>\<open>std::path\<close> and \<^verbatim>\<open>std::process\<close>, each a
  function of the path; \<open>None\<close> is any \<^verbatim>\<open>Err\<close>. Directory entries are file names.
\<close>

record host =
  h_read :: "str \<Rightarrow> bytes option"
  h_read_link :: "str \<Rightarrow> bytes option"
  h_exists :: "str \<Rightarrow> bool"
  h_read_dir :: "str \<Rightarrow> bytes list option"
  h_ldconfig :: "bytes option"

definition read_to_string :: "host \<Rightarrow> str \<Rightarrow> str option" where
  "read_to_string h p = Option.bind (h_read h p) from_utf8"

definition proc_file :: "u32 \<Rightarrow> str \<Rightarrow> str" where
  "proc_file pid name = lit ''/proc/'' @ dec (unat pid) @ name"

subsection \<open>Process metadata\<close>

definition nth_opt :: "'a list \<Rightarrow> nat \<Rightarrow> 'a option" where
  "nth_opt xs n = (if n < length xs then Some (xs ! n) else None)"

text \<open>\<^verbatim>\<open>and_then\<close> chains are binds.\<close>

definition status_ppid :: "str \<Rightarrow> u32 option" where
  "status_ppid s =
     Option.bind (find (\<lambda>l. starts_with l (lit ''PPid:'')) (str_lines s)) (\<lambda>l.
     Option.bind (nth_opt (split_whitespace l) 1) (\<lambda>v.
     map_option of_nat (parse_uint 32 v)))"

definition cmdline_str :: "bytes \<Rightarrow> str" where
  "cmdline_str bs = trim (concat (map (\<lambda>b. if b = 0 then [0x20] else latin1 b) bs))"

definition resolve_proc :: "host \<Rightarrow> u32 \<Rightarrow> u32 option \<times> str option \<times> str option" where
  "resolve_proc h pid =
     (let ppid = Option.bind (read_to_string h (proc_file pid (lit ''/status''))) status_ppid;
          exe_path = map_option from_utf8_lossy (h_read_link h (proc_file pid (lit ''/exe'')));
          cmdline = map_option cmdline_str (h_read h (proc_file pid (lit ''/cmdline'')))
      in (ppid, exe_path, cmdline))"

subsection \<open>Control groups\<close>

type_synonym k8s = "str option \<times> str option \<times> str option"

text \<open>\<^verbatim>\<open>trim_start_matches\<close> removes the pattern as often as it occurs.\<close>

function trim_start_matches :: "str \<Rightarrow> str \<Rightarrow> str" where
  "trim_start_matches pat s =
     (if pat \<noteq> [] \<and> starts_with s pat \<and> s \<noteq> [] then trim_start_matches pat (drop (length pat) s) else s)"
  by pat_completeness auto
termination
  by (relation "measure (\<lambda>(pat, s). length s)") auto

declare trim_start_matches.simps [simp del]

definition pod_of :: "str list \<Rightarrow> str option" where
  "pod_of segments =
     map_option (trim_start_matches (lit ''pod'')) (find (\<lambda>s. starts_with s (lit ''pod'')) segments)"

text \<open>The outer option is the panic of the slice, the inner one the missing container id.\<close>

definition container_of :: "str list \<Rightarrow> str option option" where
  "container_of segments =
     (let s = last segments in
      if s \<noteq> [] \<and> 12 \<le> length s then map_option Some (slice_to s 12) else Some None)"

fun k8s_lines :: "str list \<Rightarrow> k8s option" where
  "k8s_lines [] = Some (None, None, None)"
| "k8s_lines (line # rest) =
     (let parts = splitn_on 3 0x3A line in
      if length parts < 3 then k8s_lines rest
      else let path = parts ! 2 in
        if str_contains path (lit ''kubepods'') then
          let segments = split_on 0x2F path; pod = pod_of segments in
          case container_of segments of
            None \<Rightarrow> None
          | Some container \<Rightarrow>
              if pod \<noteq> None then Some (pod, Some (lit ''unknown''), container) else k8s_lines rest
        else k8s_lines rest)"

definition parse_k8s_cgroup :: "str \<Rightarrow> k8s option" where
  "parse_k8s_cgroup cgroup = k8s_lines (str_lines cgroup)"

definition resolve_cgroup :: "host \<Rightarrow> FlowEvent \<Rightarrow> k8s option" where
  "resolve_cgroup h e =
     (let cgroup_raw = buf_str 0 [] (ev_cgroup e) in
      if cgroup_raw = []
      then parse_k8s_cgroup (unwrap_or (read_to_string h (proc_file (ev_pid e) (lit ''/cgroup''))) [])
      else parse_k8s_cgroup cgroup_raw)"

subsection \<open>Addresses and ports\<close>

text \<open>The classification of \<^verbatim>\<open>std::net::Ipv4Addr\<close>.\<close>

fun is_private :: "Ipv4Addr \<Rightarrow> bool" where
  "is_private (Ipv4Addr a b c d) \<longleftrightarrow> a = 10 \<or> (a = 172 \<and> 16 \<le> b \<and> b \<le> 31) \<or> (a = 192 \<and> b = 168)"

fun is_loopback :: "Ipv4Addr \<Rightarrow> bool" where
  "is_loopback (Ipv4Addr a b c d) \<longleftrightarrow> a = 127"

fun is_link_local :: "Ipv4Addr \<Rightarrow> bool" where
  "is_link_local (Ipv4Addr a b c d) \<longleftrightarrow> a = 169 \<and> b = 254"

fun is_broadcast :: "Ipv4Addr \<Rightarrow> bool" where
  "is_broadcast (Ipv4Addr a b c d) \<longleftrightarrow> a = 255 \<and> b = 255 \<and> c = 255 \<and> d = 255"

fun is_documentation :: "Ipv4Addr \<Rightarrow> bool" where
  "is_documentation (Ipv4Addr a b c d) \<longleftrightarrow>
     (a = 192 \<and> b = 0 \<and> c = 2) \<or> (a = 198 \<and> b = 51 \<and> c = 100) \<or> (a = 203 \<and> b = 0 \<and> c = 113)"

fun is_unspecified :: "Ipv4Addr \<Rightarrow> bool" where
  "is_unspecified (Ipv4Addr a b c d) \<longleftrightarrow> a = 0 \<and> b = 0 \<and> c = 0 \<and> d = 0"

definition is_public_ip :: "Ipv4Addr \<Rightarrow> bool" where
  "is_public_ip ip \<longleftrightarrow>
     \<not> is_private ip \<and> \<not> is_loopback ip \<and> \<not> is_link_local ip \<and>
     \<not> is_broadcast ip \<and> \<not> is_documentation ip \<and> \<not> is_unspecified ip"

definition guess_protocol :: "u16 \<Rightarrow> str option" where
  "guess_protocol dst_port =
     (if dst_port = 80 then Some (lit ''HTTP'')
      else if dst_port = 443 then Some (lit ''HTTPS'')
      else if dst_port = 8080 then Some (lit ''HTTP-alt'')
      else if dst_port = 8443 then Some (lit ''HTTPS-alt'')
      else if dst_port = 22 then Some (lit ''SSH'')
      else if dst_port = 25 \<or> dst_port = 587 \<or> dst_port = 465 then Some (lit ''SMTP'')
      else if dst_port = 53 then Some (lit ''DNS'')
      else if dst_port = 5432 then Some (lit ''PostgreSQL'')
      else if dst_port = 3306 then Some (lit ''MySQL'')
      else if dst_port = 6379 then Some (lit ''Redis'')
      else if dst_port = 9200 \<or> dst_port = 9300 then Some (lit ''Elasticsearch'')
      else if dst_port = 2055 then Some (lit ''NetFlow'')
      else if dst_port = 4739 then Some (lit ''IPFIX'')
      else if dst_port = 6343 then Some (lit ''sFlow'')
      else if dst_port = 9092 then Some (lit ''Kafka'')
      else if dst_port = 2181 then Some (lit ''ZooKeeper'')
      else if dst_port = 50051 then Some (lit ''gRPC'')
      else None)"

subsection \<open>The enriched event\<close>

record EnrichedFlow =
  en_event :: FlowEvent
  en_ppid :: "u32 option"
  en_exe_path :: "str option"
  en_cmdline :: "str option"
  en_k8s_pod :: "str option"
  en_k8s_namespace :: "str option"
  en_k8s_container :: "str option"
  en_dst_hostname :: "str option"
  en_dst_asn :: "u32 option"
  en_dst_org :: "str option"
  en_is_external :: bool
  en_protocol_guess :: "str option"

definition protocol_of :: "FlowEvent \<Rightarrow> str option" where
  "protocol_of e =
     (if ev_has_http e = 1 then Some (lit ''HTTP'')
      else if ev_has_tls e = 1 then Some (lit ''TLS'')
      else guess_protocol (ev_dst_port e))"

definition enrich :: "host \<Rightarrow> FlowEvent \<Rightarrow> EnrichedFlow option" where
  "enrich h e =
     (let dst_ip = ipv4_from (u32_to_be (ev_dst_ip e));
          (ppid, exe_path, cmdline) = resolve_proc h (ev_pid e)
      in case resolve_cgroup h e of
           None \<Rightarrow> None
         | Some (k8s_pod, k8s_namespace, k8s_container) \<Rightarrow>
             Some \<lparr>en_event = e, en_ppid = ppid, en_exe_path = exe_path, en_cmdline = cmdline,
               en_k8s_pod = k8s_pod, en_k8s_namespace = k8s_namespace,
               en_k8s_container = k8s_container, en_dst_hostname = None, en_dst_asn = None,
               en_dst_org = None, en_is_external = is_public_ip dst_ip,
               en_protocol_guess = protocol_of e\<rparr>)"

section \<open>Panics\<close>

definition ascii :: "str \<Rightarrow> bool" where
  "ascii s \<longleftrightarrow> list_all (\<lambda>b. b < 0x80) s"

lemma ascii_subset: "set x \<subseteq> set s \<Longrightarrow> ascii s \<Longrightarrow> ascii x"
  by (auto simp: ascii_def list_all_iff)

lemma container_of_ascii:
  assumes "list_all ascii segments" and "segments \<noteq> []"
  shows "\<exists>c. container_of segments = Some c"
proof -
  have "ascii (last segments)" using assms by (simp add: list_all_iff)
  then show ?thesis by (simp add: container_of_def Let_def ascii_def slice_ascii)
qed

lemma k8s_lines_ascii: "list_all ascii ls \<Longrightarrow> \<exists>k. k8s_lines ls = Some k"
proof (induction ls)
  case (Cons line rest)
  then obtain k where k: "k8s_lines rest = Some k" by auto
  define parts where "parts = splitn_on 3 0x3A line"
  show ?case
  proof (cases "length parts < 3")
    case False
    then have "parts ! 2 \<in> set parts" by simp
    with splitn_on_set have "set (parts ! 2) \<subseteq> set line" unfolding parts_def by blast
    with Cons.prems have "ascii (parts ! 2)" using ascii_subset by auto
    then have "list_all ascii (split_on 0x2F (parts ! 2))"
      unfolding list_all_iff by (blast intro: ascii_subset dest: split_on_set)
    then obtain c where "container_of (split_on 0x2F (parts ! 2)) = Some c"
      using container_of_ascii by (metis split_on_not_Nil)
    with False k show ?thesis by (cases k) (simp add: parts_def [symmetric] Let_def)
  qed (cases k, simp add: parts_def k)
qed simp

lemma parse_k8s_cgroup_ascii: "ascii s \<Longrightarrow> \<exists>k. parse_k8s_cgroup s = Some k"
  unfolding parse_k8s_cgroup_def
  by (rule k8s_lines_ascii) (auto simp: list_all_iff dest: str_lines_set intro: ascii_subset)

text \<open>
  C25. The container id is cut at byte 12 without looking for a character boundary. On ASCII
  control group paths this is safe, whatever their shape, and every other step of the
  enrichment is total, so an event with an ASCII path is always enriched.
\<close>

theorem enrich_total_on_ascii:
  assumes "ascii (ev_cgroup e)"
    and "ascii (unwrap_or (read_to_string h (proc_file (ev_pid e) (lit ''/cgroup''))) [])"
  shows "\<exists>flow. enrich h e = Some flow \<and> en_event flow = e"
proof -
  have "ascii (buf_str 0 [] (ev_cgroup e))"
    using assms(1) ascii_subset [OF set_take_subset]
    by (auto simp: buf_str_def from_utf8_def ascii_def split: option.split)
  then obtain k where "resolve_cgroup h e = Some k"
    using parse_k8s_cgroup_ascii assms(2) by (fastforce simp: resolve_cgroup_def Let_def)
  then show ?thesis
    by (cases k) (simp add: enrich_def Let_def split: prod.split)
qed

definition bare_host :: host where
  "bare_host = \<lparr>h_read = (\<lambda>_. None), h_read_link = (\<lambda>_. None), h_exists = (\<lambda>_. False),
     h_read_dir = (\<lambda>_. None), h_ldconfig = None\<rparr>"

theorem enrich_total_on_ascii_witness:
  "\<exists>flow. enrich bare_host zeroed_FlowEvent = Some flow \<and> en_event flow = zeroed_FlowEvent"
  by (rule enrich_total_on_ascii)
    (simp_all add: ascii_def list_all_iff zeroed_FlowEvent_def read_to_string_def bare_host_def)

section \<open>Kubernetes identities\<close>

lemma plain_not_sep: "list_all plain s \<Longrightarrow> 0x0A \<notin> set s \<and> (s \<noteq> [] \<longrightarrow> last s \<noteq> 0x0D)"
proof -
  assume "list_all plain s"
  then have "\<forall>b\<in>set s. plain b" by (simp add: list_all_iff)
  moreover have "\<not> plain 0x0A" "\<not> plain 0x0D" by (simp_all add: plain_def)
  ultimately show ?thesis by (metis last_in_set)
qed

lemma strip_cr_plain: "list_all plain s \<Longrightarrow> strip_cr s = s"
  using plain_not_sep [of s] by (auto simp: strip_cr_def)

lemma k8s_lines_skip:
  "list_all (\<lambda>l. \<not> str_contains l (lit ''kubepods'')) ls \<Longrightarrow> k8s_lines (ls @ rest) = k8s_lines rest"
proof (induction ls)
  case (Cons l ls)
  have "\<not> str_contains (splitn_on 3 0x3A l ! 2) (lit ''kubepods'')" if "2 < length (splitn_on 3 0x3A l)"
  proof -
    from that splitn_on_suffix [of 2 "0x3A" l] obtain u where "l = u @ splitn_on 3 0x3A l ! 2"
      by (auto simp: numeral_3_eq_3)
    with Cons.prems str_contains_append [of _ _ u "[]"] show ?thesis by force
  qed
  with Cons show ?case by (auto simp: Let_def)
qed simp

text \<open>
  A cgroupfs path of the kubelet: any segments between \<^verbatim>\<open>kubepods\<close> and the pod (none for a
  guaranteed pod, the service class otherwise), the pod, and last the container.
\<close>

definition kube_path :: "str list \<Rightarrow> str \<Rightarrow> str \<Rightarrow> str" where
  "kube_path mids uid cid =
     lit ''/kubepods'' @ concat (map (\<lambda>s. 0x2F # s) mids) @ 0x2F # (lit ''pod'' @ uid) @ 0x2F # cid"

definition kube_line :: "str \<Rightarrow> str \<Rightarrow> str list \<Rightarrow> str \<Rightarrow> str \<Rightarrow> str" where
  "kube_line hier ctrl mids uid cid = hier @ lit '':'' @ ctrl @ lit '':'' @ kube_path mids uid cid"

definition segment :: "str \<Rightarrow> bool" where
  "segment s \<longleftrightarrow> list_all plain s \<and> 0x2F \<notin> set s"

lemma kube_line_split:
  assumes "0x3A \<notin> set hier" and "0x3A \<notin> set ctrl"
  shows "splitn_on 3 0x3A (kube_line hier ctrl mids uid cid) = [hier, ctrl, kube_path mids uid cid]"
  using splitn_on_Cons [of "0x3A" hier 1] splitn_on_Cons [of "0x3A" ctrl 0] assms
  by (simp add: kube_line_def lit_def numeral_3_eq_3)

lemma split_on_segments:
  assumes "0x2F \<notin> set p" and "list_all (\<lambda>s. 0x2F \<notin> set s) mids"
  shows "split_on 0x2F (p @ concat (map (\<lambda>s. 0x2F # s) mids) @ 0x2F # rest) = p # mids @ split_on 0x2F rest"
  using assms
proof (induction mids arbitrary: p)
  case (Cons m mids)
  then show ?case
    using split_on_Cons [OF Cons.prems(1)] Cons.IH [of m] by simp
qed (simp add: split_on_Cons)

lemma kube_path_split:
  assumes "list_all segment mids" and "segment uid" and "segment cid"
  shows "split_on 0x2F (kube_path mids uid cid) = [[], lit ''kubepods''] @ mids @ [lit ''pod'' @ uid, cid]"
proof -
  have p: "0x2F \<notin> set (lit ''kubepods'')" "0x2F \<notin> set (lit ''pod'' @ uid)"
    "list_all (\<lambda>s. 0x2F \<notin> set s) mids"
    using assms by (auto simp: lit_def segment_def list_all_iff)
  have "split_on 0x2F ((lit ''pod'' @ uid) @ 0x2F # cid) = [lit ''pod'' @ uid, cid]"
    using split_on_Cons [OF p(2), of cid] split_on_plain [of "0x2F" cid] assms(3) by (simp add: segment_def)
  moreover have "kube_path mids uid cid = 0x2F # lit ''kubepods'' @ concat (map (\<lambda>s. 0x2F # s) mids) @
      0x2F # (lit ''pod'' @ uid) @ 0x2F # cid"
    by (simp add: kube_path_def lit_def)
  ultimately show ?thesis
    using split_on_segments [OF p(1,3), of "(lit ''pod'' @ uid) @ 0x2F # cid"]
      split_on_Cons [of "0x2F" "[]"] by (simp del: append_assoc)
qed

lemma kube_path_contains: "str_contains (kube_path mids uid cid) (lit ''kubepods'')"
  unfolding str_contains_iff kube_path_def
  by (rule exI [of _ "[0x2F]"],
      rule exI [of _ "concat (map (\<lambda>s. 0x2F # s) mids) @ 0x2F # (lit ''pod'' @ uid) @ 0x2F # cid"])
    (simp add: lit_def)

lemma trim_start_once: "\<not> starts_with s p \<Longrightarrow> p \<noteq> [] \<Longrightarrow> trim_start_matches p (p @ s) = s"
  by (subst trim_start_matches.simps) (simp add: trim_start_matches.simps [of p s])

lemma find_append_skip: "list_all (\<lambda>x. \<not> P x) xs \<Longrightarrow> find P (xs @ ys) = find P ys"
  by (induction xs) auto

lemma k8s_lines_kube:
  assumes "0x3A \<notin> set hier" and "0x3A \<notin> set ctrl"
    and "list_all segment mids" and "segment uid" and "segment cid"
    and "list_all (\<lambda>s. \<not> starts_with s (lit ''pod'')) mids" and "\<not> starts_with uid (lit ''pod'')"
  shows "k8s_lines (kube_line hier ctrl mids uid cid # rest) =
    Some (Some uid, Some (lit ''unknown''), if 12 \<le> length cid then Some (take 12 cid) else None)"
proof -
  let ?segs = "[[], lit ''kubepods''] @ mids @ [lit ''pod'' @ uid, cid]"
  have "\<not> starts_with (lit ''kubepods'') (lit ''pod'')" "\<not> starts_with [] (lit ''pod'')" "lit ''pod'' \<noteq> []"
    by (simp_all add: starts_with_def lit_def)
  then have "pod_of ?segs = Some uid"
    using assms(6,7) find_append_skip [of "\<lambda>s. starts_with s (lit ''pod'')" "[[], lit ''kubepods''] @ mids"]
    by (simp add: pod_of_def trim_start_once)
  moreover have "slice_to cid 12 = Some (take 12 cid)" if "12 \<le> length cid"
    using assms(5) that by (intro slice_ascii) (auto simp: segment_def list_all_iff plain_ascii)
  then have "container_of ?segs = Some (if 12 \<le> length cid then Some (take 12 cid) else None)"
    by (auto simp: container_of_def)
  ultimately show ?thesis
    by (simp add: kube_line_split [OF assms(1,2)] kube_path_contains kube_path_split [OF assms(3-5)])
qed



text \<open>
  The panic that remains: a container name of at least twelve bytes whose twelfth byte lies
  inside a character.
\<close>

lemma container_panics:
  assumes "12 \<le> length cid" and "\<not> is_char_boundary cid 12"
  shows "container_of (ss @ [cid]) = None"
proof -
  have "cid \<noteq> []" using assms(1) by auto
  with assms show ?thesis by (simp add: container_of_def slice_to_def)
qed

section \<open>Public addresses\<close>

text \<open>
  The address blocks the sensor calls internal, as ranges of the 32-bit address: RFC 1918,
  loopback, link-local, the three documentation networks, 0.0.0.0 and 255.255.255.255. Carrier
  grade NAT (100.64/10), multicast (224/4) and the class E space count as external.
\<close>

definition cidr :: "nat \<Rightarrow> nat \<Rightarrow> nat \<Rightarrow> nat \<Rightarrow> nat \<Rightarrow> nat \<times> nat" where
  "cidr a b c d bits =
     (let lo = ((a * 256 + b) * 256 + c) * 256 + d in (lo, lo + 2 ^ (32 - bits) - 1))"

definition internal_blocks :: "(nat \<times> nat) list" where
  "internal_blocks = [cidr 10 0 0 0 8, cidr 172 16 0 0 12, cidr 192 168 0 0 16, cidr 127 0 0 0 8,
     cidr 169 254 0 0 16, cidr 192 0 2 0 24, cidr 198 51 100 0 24, cidr 203 0 113 0 24,
     cidr 0 0 0 0 32, cidr 255 255 255 255 32]"

definition in_block :: "nat \<Rightarrow> nat \<times> nat \<Rightarrow> bool" where
  "in_block n blk \<longleftrightarrow> fst blk \<le> n \<and> n \<le> snd blk"

lemma byte_of_unat: "unat (byte_of i x) = unat x div 2 ^ (8 * i) mod 256"
  unfolding byte_of_def unsigned_ucast_eq unat_drop_bit_eq
  by (simp add: drop_bit_eq_div take_bit_eq_mod)

lemma address_digits:
  fixes n :: nat
  assumes "n < 4294967296"
  shows "n = ((n div 16777216 mod 256 * 256 + n div 65536 mod 256) * 256 + n div 256 mod 256) * 256 + n mod 256"
proof -
  have "n div 65536 = n div 256 div 256" "n div 16777216 = n div 256 div 256 div 256"
    by (simp_all add: div_mult2_eq [symmetric])
  moreover have "n div 16777216 < 256" using assms by simp
  ultimately show ?thesis by (simp only: mod_less div_mult_mod_eq)
qed

lemma address_bytes:
  "unat x = ((unat (byte_of 3 x) * 256 + unat (byte_of 2 x)) * 256 + unat (byte_of 1 x)) * 256
     + unat (byte_of 0 x)"
  using address_digits [of "unat x"] unsigned_less [of x, where ?'a = nat]
  by (simp add: byte_of_unat)

lemma block_div: "0 < (m :: nat) \<Longrightarrow> q * m \<le> n \<and> n \<le> q * m + (m - 1) \<longleftrightarrow> n div m = q"
proof
  assume m: "0 < m" and "q * m \<le> n \<and> n \<le> q * m + (m - 1)"
  then have "q * m \<le> n" "n < Suc q * m" by auto
  then show "n div m = q" by (intro div_nat_eqI) (simp_all add: mult.commute)
next
  assume "0 < m" and "n div m = q"
  moreover from this have "n mod m < m" "q * m + n mod m = n" by auto
  ultimately show "q * m \<le> n \<and> n \<le> q * m + (m - 1)" by linarith
qed

lemma in_cidr:
  assumes "((a * 256 + b) * 256 + c) * 256 + d = q * 2 ^ (32 - bits)"
  shows "in_block n (cidr a b c d bits) \<longleftrightarrow> n div 2 ^ (32 - bits) = q"
  using block_div [of "2 ^ (32 - bits)" q n] assms by (simp add: in_block_def cidr_def Let_def)

lemma digit_eq:
  fixes c r m :: nat
  assumes "c < m" and "r < m"
  shows "p * m + c = q * m + r \<longleftrightarrow> p = q \<and> c = r"
proof -
  have "(p * m + c) div m = p" "(q * m + r) div m = q" using assms by simp_all
  then show ?thesis by (metis add_left_cancel)
qed

lemma digits_div:
  fixes a b c d :: nat
  assumes "b < 256" and "c < 256" and "d < 256"
  shows "(((a * 256 + b) * 256 + c) * 256 + d) div 256 = (a * 256 + b) * 256 + c"
    and "(((a * 256 + b) * 256 + c) * 256 + d) div 65536 = a * 256 + b"
    and "(((a * 256 + b) * 256 + c) * 256 + d) div 16777216 = a"
    and "(((a * 256 + b) * 256 + c) * 256 + d) div 1048576 = a * 16 + b div 16"
proof -
  let ?n = "((a * 256 + b) * 256 + c) * 256 + d"
  have 1: "?n div 256 = (a * 256 + b) * 256 + c" using assms by simp
  have "?n div 65536 = ?n div 256 div 256" by (simp only: div_mult2_eq [symmetric]) simp
  with 1 assms have 2: "?n div 65536 = a * 256 + b" by simp
  have "?n div 16777216 = ?n div 65536 div 256" "?n div 1048576 = ?n div 65536 div 16"
    by (simp_all only: div_mult2_eq [symmetric]) simp_all
  moreover have "(a * 256 + b) div 16 = a * 16 + b div 16" by simp
  ultimately show "?n div 256 = (a * 256 + b) * 256 + c" "?n div 65536 = a * 256 + b"
    "?n div 16777216 = a" "?n div 1048576 = a * 16 + b div 16"
    using 1 2 assms by simp_all
qed

lemma byte_bound: "unat (b :: u8) < 256"
  using unsigned_less [of b, where ?'a = nat] by simp

lemma word_eq_unat: "(a :: u8) = b \<longleftrightarrow> unat a = unat b"
  by (rule word_unat_eq_iff)

text \<open>Membership in the ten blocks, as quotients of the address, then as digits.\<close>

lemma internal_quotients:
  fixes n :: nat
  shows "list_ex (in_block n) internal_blocks \<longleftrightarrow>
     n div 16777216 = 10 \<or> n div 1048576 = 2753 \<or> n div 65536 = 49320 \<or>
     n div 16777216 = 127 \<or> n div 65536 = 43518 \<or> n div 256 = 12582914 \<or>
     n div 256 = 12989284 \<or> n div 256 = 13303921 \<or> n = 0 \<or> n = 4294967295"
  using in_cidr [of 10 0 0 0 10 8 n] in_cidr [of 172 16 0 0 2753 12 n]
    in_cidr [of 192 168 0 0 49320 16 n] in_cidr [of 127 0 0 0 127 8 n]
    in_cidr [of 169 254 0 0 43518 16 n] in_cidr [of 192 0 2 0 12582914 24 n]
    in_cidr [of 198 51 100 0 12989284 24 n] in_cidr [of 203 0 113 0 13303921 24 n]
    in_cidr [of 0 0 0 0 0 32 n] in_cidr [of 255 255 255 255 4294967295 32 n]
  by (simp add: internal_blocks_def)

lemma internal_digits:
  fixes a b c d :: nat
  assumes lt: "a < 256" "b < 256" "c < 256" "d < 256"
  shows "list_ex (in_block (((a * 256 + b) * 256 + c) * 256 + d)) internal_blocks \<longleftrightarrow>
     a = 10 \<or> (a = 172 \<and> 16 \<le> b \<and> b \<le> 31) \<or> (a = 192 \<and> b = 168) \<or> a = 127 \<or>
     (a = 169 \<and> b = 254) \<or> (a = 192 \<and> b = 0 \<and> c = 2) \<or> (a = 198 \<and> b = 51 \<and> c = 100) \<or>
     (a = 203 \<and> b = 0 \<and> c = 113) \<or> (a = 0 \<and> b = 0 \<and> c = 0 \<and> d = 0) \<or>
     (a = 255 \<and> b = 255 \<and> c = 255 \<and> d = 255)"
proof -
  have "list_ex (in_block (((a * 256 + b) * 256 + c) * 256 + d)) internal_blocks \<longleftrightarrow>
     a = 10 \<or> a * 16 + b div 16 = 2753 \<or> a * 256 + b = 49320 \<or> a = 127 \<or> a * 256 + b = 43518 \<or>
     (a * 256 + b) * 256 + c = 12582914 \<or> (a * 256 + b) * 256 + c = 12989284 \<or>
     (a * 256 + b) * 256 + c = 13303921 \<or>
     ((a * 256 + b) * 256 + c) * 256 + d = 0 \<or> ((a * 256 + b) * 256 + c) * 256 + d = 4294967295"
    unfolding internal_quotients digits_div [OF lt(2-4)] ..
  moreover have "a * 16 + b div 16 = 2753 \<longleftrightarrow> a = 172 \<and> 16 \<le> b \<and> b \<le> 31"
  proof -
    have "a * 16 + b div 16 = 2753 \<longleftrightarrow> a = 172 \<and> b div 16 = 1"
      using digit_eq [of "b div 16" 16 1 a 172] lt(2) by simp
    moreover have "b div 16 = 1 \<longleftrightarrow> 16 \<le> b \<and> b \<le> 31" using block_div [of 16 1 b] by simp
    ultimately show ?thesis by simp
  qed
  moreover have "a * 256 + b = 49320 \<longleftrightarrow> a = 192 \<and> b = 168" "a * 256 + b = 43518 \<longleftrightarrow> a = 169 \<and> b = 254"
    using digit_eq [OF lt(2), of 168 a 192] digit_eq [OF lt(2), of 254 a 169] by simp_all
  moreover have "(a * 256 + b) * 256 + c = 12582914 \<longleftrightarrow> a = 192 \<and> b = 0 \<and> c = 2"
    "(a * 256 + b) * 256 + c = 12989284 \<longleftrightarrow> a = 198 \<and> b = 51 \<and> c = 100"
    "(a * 256 + b) * 256 + c = 13303921 \<longleftrightarrow> a = 203 \<and> b = 0 \<and> c = 113"
    using digit_eq [OF lt(3), of 2 "a * 256 + b" "192 * 256 + 0"] digit_eq [OF lt(2), of 0 a 192]
      digit_eq [OF lt(3), of 100 "a * 256 + b" "198 * 256 + 51"] digit_eq [OF lt(2), of 51 a 198]
      digit_eq [OF lt(3), of 113 "a * 256 + b" "203 * 256 + 0"] digit_eq [OF lt(2), of 0 a 203]
    by simp_all
  moreover have "((a * 256 + b) * 256 + c) * 256 + d = 0 \<longleftrightarrow> a = 0 \<and> b = 0 \<and> c = 0 \<and> d = 0"
    by auto
  moreover have
    "((a * 256 + b) * 256 + c) * 256 + d = 4294967295 \<longleftrightarrow> a = 255 \<and> b = 255 \<and> c = 255 \<and> d = 255"
    using digit_eq [OF lt(4), of 255 "(a * 256 + b) * 256 + c" "(255 * 256 + 255) * 256 + 255"]
      digit_eq [OF lt(3), of 255 "a * 256 + b" "255 * 256 + 255"] digit_eq [OF lt(2), of 255 a 255]
    by simp
  ultimately show ?thesis by (simp only:)
qed

text \<open>
  C29. The external flag is exact: an address is external precisely when it lies in none of the
  ten internal blocks.
\<close>

theorem public_ip_ranges:
  "is_public_ip (ipv4_from x) \<longleftrightarrow> \<not> list_ex (in_block (unat x)) internal_blocks"
proof -
  have "is_public_ip (ipv4_from x) \<longleftrightarrow> \<not> list_ex (in_block
      (((unat (byte_of 3 x) * 256 + unat (byte_of 2 x)) * 256 + unat (byte_of 1 x)) * 256
        + unat (byte_of 0 x))) internal_blocks"
    unfolding internal_digits [OF byte_bound byte_bound byte_bound byte_bound]
    by (auto simp: is_public_ip_def ipv4_from_def word_eq_unat word_le_nat_alt)
  then show ?thesis by (simp only: address_bytes [symmetric])
qed

section \<open>Process metadata\<close>

lemma split_ws_plain:
  "list_all plain s \<Longrightarrow> split_ws cur (s @ t) = split_ws (rev s @ cur) t"
  by (induction s arbitrary: cur) (simp_all add: plain_not_ws)

lemma tab_ws: "ws_len ws_seqs (0x09 # s) = 1"
  by (simp add: ws_len_def ws_seqs_def starts_with_def)

lemma split_whitespace_pair:
  assumes "list_all plain k" and "k \<noteq> []" and "list_all plain v" and "v \<noteq> []"
  shows "split_whitespace (k @ 0x09 # v) = [k, v]"
  using assms split_ws_plain [of v "[]" "[]"]
  by (simp add: split_whitespace_def split_ws_plain flush_def tab_ws)

lemma starts_with_strip_cr: "starts_with (strip_cr l) p \<Longrightarrow> starts_with l p"
  unfolding strip_cr_def starts_with_iff by (metis append.assoc append_butlast_last_id)

lemma dec_plain: "list_all plain (dec n)"
  using dec_is_dec by (auto simp: list_all_iff is_dec_plain)

lemma status_ppid_line:
  assumes "list_all (\<lambda>l. 0x0A \<notin> set l \<and> \<not> starts_with l (lit ''PPid:'')) before" and "n < 2 ^ 32"
  shows "status_ppid (unlines before @ lit ''PPid:'' @ 0x09 # dec n @ 0x0A # after) = Some (of_nat n)"
proof -
  let ?line = "lit ''PPid:'' @ 0x09 # dec n"
  have key: "list_all plain (lit ''PPid:'')" "lit ''PPid:'' \<noteq> []"
    by (simp_all add: lit_def plain_def)
  have nl: "0x0A \<notin> set ?line" using plain_not_sep [OF dec_plain] plain_not_sep [OF key(1)] by simp
  have cr: "strip_cr ?line = ?line" using plain_not_sep [OF dec_plain, of n] by (simp add: strip_cr_def)
  have "str_lines (unlines before @ ?line @ 0x0A # after) = map strip_cr before @ ?line # str_lines after"
  proof -
    have "list_all (\<lambda>l. 0x0A \<notin> set l) before" using assms(1) by (auto simp: list_all_iff)
    then show ?thesis
      using str_lines_unlines str_lines_Cons [OF nl] by (simp only: cr append_assoc append_Cons)
  qed
  moreover have "list_all (\<lambda>l. \<not> starts_with l (lit ''PPid:'')) (map strip_cr before)"
    using assms(1) starts_with_strip_cr by (fastforce simp: list_all_iff)
  ultimately have "find (\<lambda>l. starts_with l (lit ''PPid:'')) (str_lines (unlines before @ ?line @ 0x0A # after)) = Some ?line"
    by (simp add: find_append_skip)
  then show ?thesis
    using assms(2) split_whitespace_pair [OF key dec_plain dec_not_Nil, of n]
    by (simp add: status_ppid_def nth_opt_def parse_uint_dec)
qed

text \<open>The argument vector as \<^verbatim>\<open>/proc/pid/cmdline\<close> stores it, and as it is displayed.\<close>

definition argv_file :: "str list \<Rightarrow> bytes" where
  "argv_file args = concat (map (\<lambda>a. a @ [0]) args)"

fun join_blank :: "str list \<Rightarrow> str" where
  "join_blank [] = []"
| "join_blank [a] = a"
| "join_blank (a # as) = a @ 0x20 # join_blank as"

lemma plain_chars: "list_all plain a \<Longrightarrow> concat (map (\<lambda>b. if b = 0 then [0x20] else latin1 b) a) = a"
proof (induction a)
  case (Cons b a)
  then have "b \<noteq> 0" "b < 0x80" using plain_ascii by (auto simp: plain_def)
  with Cons show ?case by (simp add: latin1_def)
qed simp

lemma argv_chars:
  "list_all (list_all plain) args \<Longrightarrow> args \<noteq> [] \<Longrightarrow>
   concat (map (\<lambda>b. if b = 0 then [0x20] else latin1 b) (argv_file args)) = join_blank args @ [0x20]"
  by (induction args rule: join_blank.induct) (simp_all add: argv_file_def plain_chars)

lemma join_blank_ends:
  "list_all (\<lambda>a. a \<noteq> [] \<and> list_all plain a) args \<Longrightarrow> args \<noteq> [] \<Longrightarrow>
   join_blank args \<noteq> [] \<and> plain (hd (join_blank args)) \<and> plain (last (join_blank args))"
  by (induction args rule: join_blank.induct) (auto simp: list_all_iff)

lemma cmdline_argv:
  assumes "list_all (\<lambda>a. a \<noteq> [] \<and> list_all plain a) args" and "args \<noteq> []"
  shows "cmdline_str (argv_file args) = join_blank args"
  using assms argv_chars [of args] trim_plain(3) join_blank_ends [OF assms]
  by (auto simp: cmdline_str_def list_all_iff)

lemma lossy_ascii: "list_all (\<lambda>b. b < 0x80) s \<Longrightarrow> from_utf8_lossy s = s"
proof (induction s)
  case (Cons b s)
  then show ?case by (subst from_utf8_lossy.simps) (simp add: Let_def char_width_def)
qed (simp add: from_utf8_lossy.simps)


definition demo_status :: str where
  "demo_status = unlines [lit ''Name:'' @ 0x09 # lit ''curl''] @ lit ''PPid:'' @ 0x09 # dec 812 @
     0x0A # lit ''Uid:''"

definition demo_host :: host where
  "demo_host = bare_host\<lparr>
     h_read := (\<lambda>p. if p = lit ''/proc/4711/status'' then Some demo_status
       else if p = lit ''/proc/4711/cmdline'' then Some (argv_file [lit ''curl'', lit ''-s'', lit ''https://a.b''])
       else None),
     h_read_link := (\<lambda>p. if p = lit ''/proc/4711/exe'' then Some (lit ''/usr/bin/curl'') else None)\<rparr>"

lemma demo_paths:
  "proc_file 4711 (lit ''/status'') = lit ''/proc/4711/status''"
  "proc_file 4711 (lit ''/exe'') = lit ''/proc/4711/exe''"
  "proc_file 4711 (lit ''/cmdline'') = lit ''/proc/4711/cmdline''"
  by (simp_all add: proc_file_def dec.simps lit_def)

lemma demo_status_valid: "utf8_valid demo_status"
  by (rule utf8_ascii) (simp add: demo_status_def unlines_def dec.simps lit_def)


end
