(* ===== verification/F64.thy ===== *)
theory F64
  imports Complex_Main RustStr
begin

text \<open>
  The part of IEEE binary64 that the output needs: non-negative numbers made from unsigned
  integers by conversion, division and multiplication, rounded to 53 significant bits with
  ties to even, and \<^verbatim>\<open>{:.N}\<close>, which rounds the exact value of the double to \<open>N\<close> decimals,
  ties to even. The operands are 64-bit integers and constants, so the exponents stay far from
  the limits of the format and neither overflow nor subnormals occur.
\<close>

subsection \<open>Rounding a quotient of integers\<close>

text \<open>The integer nearest to \<open>n / d\<close>, the even one of two.\<close>

definition nearest :: "nat \<Rightarrow> nat \<Rightarrow> nat" where
  "nearest n d =
     (let m = n div d; r = n mod d in
      if 2 * r < d then m else if d < 2 * r then m + 1 else if even m then m else m + 1)"

lemma nearest_error_int:
  assumes "0 < d"
  shows "2 * \<bar>int (nearest n d) * int d - int n\<bar> \<le> int d"
proof -
  have n: "int n = int (n div d) * int d + int (n mod d)"
    by (metis div_mult_mod_eq of_nat_add of_nat_mult)
  have r: "int (n mod d) < int d" using assms by simp
  have up: "int (Suc (n div d)) * int d - int n = int d - int (n mod d)"
    unfolding n by (simp add: algebra_simps)
  have down: "int (n div d) * int d - int n = - int (n mod d)"
    using n by simp
  show ?thesis
    using r up down by (auto simp: nearest_def Let_def)
qed

lemma nearest_error:
  assumes "0 < d"
  shows "\<bar>real (nearest n d) - real n / real d\<bar> \<le> 1 / 2"
proof -
  have "real_of_int (2 * \<bar>int (nearest n d) * int d - int n\<bar>) \<le> real_of_int (int d)"
    using nearest_error_int [OF assms, of n] by (simp only: of_int_le_iff)
  then have "\<bar>real (nearest n d) * real d - real n\<bar> * 2 \<le> real d" by simp
  moreover have "\<bar>real (nearest n d) - real n / real d\<bar> = \<bar>real (nearest n d) * real d - real n\<bar> / real d"
    using assms by (simp add: field_simps abs_divide [symmetric])
  ultimately show ?thesis using assms by (simp add: divide_simps)
qed

lemma nearest_int: "nearest n (Suc 0) = n"
  by (simp add: nearest_def)

subsection \<open>Doubles\<close>

datatype f64 = F64 nat int

fun f64_val :: "f64 \<Rightarrow> real" where
  "f64_val (F64 m e) = real m * 2 powi e"

fun bits :: "nat \<Rightarrow> nat" where
  "bits n = (if n = 0 then 0 else Suc (bits (n div 2)))"

declare bits.simps [simp del]

definition upscale :: "int \<Rightarrow> nat \<Rightarrow> nat" where
  "upscale e n = n * 2 ^ nat e"

text \<open>
  \<open>p / q\<close> rounded: the exponent for which \<open>p / q * 2 ^ (- e)\<close> has 53 binary digits before the
  point is found from the lengths of \<open>p\<close> and \<open>q\<close>, up to one.
\<close>

definition f64_exp :: "nat \<Rightarrow> nat \<Rightarrow> int" where
  "f64_exp p q =
     (let e = int (bits p) - int (bits q) - 53
      in if upscale (- e) p < 2 ^ 53 * upscale e q then e else e + 1)"

definition f64_round :: "nat \<Rightarrow> nat \<Rightarrow> f64" where
  "f64_round p q =
     (if p = 0 then F64 0 0
      else let e = f64_exp p q in F64 (nearest (upscale (- e) p) (upscale e q)) e)"

definition f64_of_nat :: "nat \<Rightarrow> f64" where
  "f64_of_nat n = f64_round n 1"

fun f64_div :: "f64 \<Rightarrow> f64 \<Rightarrow> f64" where
  "f64_div (F64 m e) (F64 m' e') = f64_round (upscale (e - e') m) (upscale (e' - e) m')"

fun f64_mul :: "f64 \<Rightarrow> f64 \<Rightarrow> f64" where
  "f64_mul (F64 m e) (F64 m' e') =
     f64_round (upscale (e + e') (m * m')) (upscale (- (e + e')) 1)"

subsection \<open>Formatting\<close>

fun fixed_int :: "nat \<Rightarrow> f64 \<Rightarrow> nat" where
  "fixed_int prec (F64 m e) = nearest (upscale e m * 10 ^ prec) (upscale (- e) 1)"

definition fixed_str :: "nat \<Rightarrow> nat \<Rightarrow> str" where
  "fixed_str prec h =
     (let frac = dec (h mod 10 ^ prec)
      in dec (h div 10 ^ prec) @ lit ''.'' @ replicate (prec - length frac) 0x30 @ frac)"

definition f64_fixed :: "nat \<Rightarrow> f64 \<Rightarrow> str" where
  "f64_fixed prec x = fixed_str prec (fixed_int prec x)"

section \<open>Rounding errors\<close>

lemma bits_bounds: "0 < n \<Longrightarrow> 2 ^ (bits n - 1) \<le> n \<and> n < 2 ^ bits n \<and> 0 < bits n"
proof (induction n rule: bits.induct)
  case (1 n)
  show ?case
  proof (cases "n div 2 = 0")
    case True
    with "1.prems" have "n = 1" by simp
    then show ?thesis by (simp add: bits.simps)
  next
    case False
    with "1.IH" "1.prems" have ih: "2 ^ (bits (n div 2) - 1) \<le> n div 2" "n div 2 < 2 ^ bits (n div 2)"
        "0 < bits (n div 2)"
      by simp_all
    have "bits n = Suc (bits (n div 2))" using "1.prems" by (subst bits.simps) simp
    moreover have "2 * 2 ^ (bits (n div 2) - 1) = (2 :: nat) ^ bits (n div 2)"
      using ih(3) by (metis Suc_pred' power_Suc)
    moreover have "2 * (n div 2) \<le> n" "n < 2 * (n div 2) + 2" by simp_all
    moreover have "Suc (n div 2) \<le> 2 ^ bits (n div 2)" using ih(2) by simp
    moreover have "2 * 2 ^ (bits (n div 2) - 1) \<le> 2 * (n div 2)" using ih(1) by (simp only: mult_le_mono2)
    ultimately have "2 ^ bits (n div 2) \<le> n" "n < 2 * 2 ^ bits (n div 2)" by linarith+
    with \<open>bits n = Suc (bits (n div 2))\<close> show ?thesis by simp
  qed
qed

lemma upscale_quot:
  assumes "0 < q"
  shows "real (upscale (- e) p) / real (upscale e q) = real p / real q * 2 powi (- e)"
proof (cases "0 \<le> e")
  case True
  then have "nat (- e) = 0" "2 powi e = (2 ^ nat e :: real)" by (simp_all add: power_int_def)
  then have "nat (- e) = 0" "2 powi (- e) = inverse (2 ^ nat e :: real)"
    by (simp_all only: power_int_minus)
  then show ?thesis unfolding upscale_def by (simp only:) (simp add: divide_inverse)
next
  case False
  then have "nat e = 0" "2 powi (- e) = (2 ^ nat (- e) :: real)" by (simp_all add: power_int_def)
  then show ?thesis by (simp add: upscale_def)
qed

lemma upscale_pos: "0 < q \<Longrightarrow> 0 < upscale e q"
  by (simp add: upscale_def)

lemma bits_powi:
  assumes "0 < n"
  shows "2 powi (int (bits n) - 1) \<le> real n" and "real n \<le> 2 powi (int (bits n))"
proof -
  have b: "2 ^ (bits n - 1) \<le> n" "n \<le> 2 ^ bits n" "0 < bits n"
    using bits_bounds [OF assms] by simp_all
  have "int (bits n) - 1 = int (bits n - 1)" using b(3) by simp
  then have "2 powi (int (bits n) - 1) = (2 ^ (bits n - 1) :: real)" by (simp only: power_int_of_nat)
  also have "\<dots> = real (2 ^ (bits n - 1))" by simp
  finally show "2 powi (int (bits n) - 1) \<le> real n" using b(1) by (simp only: of_nat_le_iff)
  have "2 powi (int (bits n)) = real (2 ^ bits n)" by (simp only: power_int_of_nat) simp
  then show "real n \<le> 2 powi (int (bits n))" using b(2) by (simp only: of_nat_le_iff)
qed

lemma quot_low:
  assumes "0 < p" and "0 < q"
  shows "2 ^ 52 \<le> real p / real q * 2 powi (- (int (bits p) - int (bits q) - 53))"
proof -
  let ?e = "int (bits p) - int (bits q) - 53"
  have "int (bits p) - 1 - int (bits q) + - ?e = int 52" by simp
  then have "(2 ^ 52 :: real) = 2 powi (int (bits p) - 1 - int (bits q) + - ?e)"
    by (simp only: power_int_of_nat)
  also have "\<dots> = 2 powi (int (bits p) - 1) / 2 powi (int (bits q)) * 2 powi (- ?e)"
    by (subst power_int_add, simp, subst power_int_diff, simp, rule refl)
  also have "\<dots> \<le> real p / real q * 2 powi (- ?e)"
  proof (rule mult_right_mono)
    show "2 powi (int (bits p) - 1) / 2 powi (int (bits q)) \<le> real p / real q"
      using assms by (intro frac_le bits_powi) simp_all
  qed simp
  finally show ?thesis .
qed

lemma powi_succ: "x * 2 powi (- (e + 1)) = x * 2 powi (- e) / (2 :: real)"
proof -
  have "2 powi (- (e + 1)) = (2 powi (- e + - 1) :: real)" by simp
  also have "\<dots> = 2 powi (- e) * 2 powi (- 1)" by (subst power_int_add) simp_all
  finally show ?thesis by simp
qed

lemma f64_exp_bound:
  assumes "0 < p" and "0 < q"
  shows "2 ^ 52 \<le> real p / real q * 2 powi (- f64_exp p q)"
proof -
  define e where "e = int (bits p) - int (bits q) - 53"
  have exp: "f64_exp p q = (if upscale (- e) p < 2 ^ 53 * upscale e q then e else e + 1)"
    by (simp only: f64_exp_def e_def Let_def)
  show ?thesis
  proof (cases "upscale (- e) p < 2 ^ 53 * upscale e q")
    case True
    then show ?thesis using quot_low [OF assms] by (simp only: exp if_True e_def)
  next
    case False
    then have "2 ^ 53 * upscale e q \<le> upscale (- e) p" by (rule leI)
    then have "real (2 ^ 53 * upscale e q) \<le> real (upscale (- e) p)" by (rule of_nat_mono)
    then have "2 ^ 53 * real (upscale e q) \<le> real (upscale (- e) p)" by simp
    then have "2 ^ 53 \<le> real (upscale (- e) p) / real (upscale e q)"
      using upscale_pos [OF assms(2), of e] by (simp only: pos_le_divide_eq of_nat_0_less_iff)
    then have "2 ^ 53 \<le> real p / real q * 2 powi (- e)" by (simp only: upscale_quot [OF assms(2)])
    then have "2 ^ 53 / 2 \<le> real p / real q * 2 powi (- e) / 2" by (rule divide_right_mono) simp
    moreover have "(2 ^ 53 / 2 :: real) = 2 ^ 52" by simp
    ultimately have "2 ^ 52 \<le> real p / real q * 2 powi (- e) / 2" by (simp only:)
    with False show ?thesis by (simp only: exp if_False powi_succ)
  qed
qed

text \<open>One rounding is off by at most a factor of \<open>2 ^ - 53\<close>.\<close>

lemma f64_round_error:
  assumes "0 < q"
  shows "\<bar>f64_val (f64_round p q) - real p / real q\<bar> \<le> real p / real q / 2 ^ 53"
proof (cases "p = 0")
  case False
  define e where "e = f64_exp p q"
  define x where "x = real p / real q * 2 powi (- e)"
  define m where "m = real (nearest (upscale (- e) p) (upscale e q))"
  have x: "2 ^ 52 \<le> x" unfolding x_def e_def using False assms by (intro f64_exp_bound) simp_all
  have "\<bar>m - x\<bar> \<le> 1 / 2"
    unfolding m_def x_def upscale_quot [OF assms, symmetric]
    by (rule nearest_error) (rule upscale_pos [OF assms])
  then have "\<bar>m - x\<bar> * 2 powi e \<le> x / 2 ^ 53 * 2 powi e" using x by (intro mult_right_mono) simp_all
  moreover have "x * 2 powi e = real p / real q" by (simp add: x_def power_int_minus)
  moreover have "\<bar>m - x\<bar> * 2 powi e = \<bar>m * 2 powi e - x * 2 powi e\<bar>"
    by (simp add: left_diff_distrib [symmetric] abs_mult)
  ultimately show ?thesis
    using False by (simp add: f64_round_def Let_def e_def [symmetric] m_def [symmetric])
qed (simp add: f64_round_def)

text \<open>Integers of up to 53 bits are exact.\<close>

lemma f64_of_nat_exact:
  assumes "n < 2 ^ 53"
  shows "f64_val (f64_of_nat n) = real n"
proof (cases "n = 0")
  case False
  have b: "2 ^ (bits n - 1) \<le> n" "n < 2 ^ bits n" "0 < bits n" using bits_bounds [of n] False by auto
  have "bits n \<le> 53"
  proof (rule ccontr)
    assume "\<not> bits n \<le> 53"
    then have "(2 :: nat) ^ 53 \<le> 2 ^ (bits n - 1)" by (intro power_increasing) auto
    with b assms show False by linarith
  qed
  then obtain k where k: "bits n + k = 53" by (metis le_add_diff_inverse)
  have "2 ^ 53 \<le> n * 2 ^ Suc k"
  proof -
    have "(2 :: nat) ^ 53 = 2 ^ (bits n - 1) * 2 ^ Suc k" using k b(3) by (simp add: power_add [symmetric] del: power_Suc)
    then show ?thesis using b(1) by (simp only: mult_le_mono1)
  qed
  moreover have "int (bits n) - int (bits 1) - 53 = - int (Suc k)"
    using k by (simp add: bits.simps)
  then have "int (bits n) - int (bits 1) - 53 = - int (Suc k)" by simp
  moreover have "nat (- (- int (Suc k))) = Suc k" "nat (- int (Suc k)) = 0" by simp_all
  ultimately have "f64_exp n 1 = - int (Suc k) + 1"
    unfolding f64_exp_def Let_def upscale_def by (simp only: not_less [symmetric] if_False) simp
  then have "f64_exp n 1 = - int k" by simp
  then show ?thesis
    using False by (simp add: f64_of_nat_def f64_round_def Let_def upscale_def nearest_int power_int_minus)
qed (simp add: f64_of_nat_def f64_round_def)

lemma f64_div_error:
  assumes "0 < f64_val y"
  shows "\<bar>f64_val (f64_div x y) - f64_val x / f64_val y\<bar> \<le> f64_val x / f64_val y / 2 ^ 53"
proof -
  obtain m e m' e' where xy: "x = F64 m e" "y = F64 m' e'" by (meson f64.exhaust)
  then have "0 < m'" using assms by (simp add: zero_less_mult_iff)
  then have "0 < upscale (e' - e) m'" by (rule upscale_pos)
  moreover have "real (upscale (e - e') m) / real (upscale (e' - e) m') = f64_val x / f64_val y"
    using upscale_quot [OF \<open>0 < m'\<close>, of "e' - e" m]
    by (simp add: xy power_int_diff)
  ultimately show ?thesis using f64_round_error xy by (metis f64_div.simps)
qed

lemma fixed_int_error: "\<bar>real (fixed_int prec x) - f64_val x * 10 ^ prec\<bar> \<le> 1 / 2"
proof -
  obtain m e where x: "x = F64 m e" by (cases x)
  have "real (upscale e m * 10 ^ prec) / real (upscale (- e) 1) = f64_val x * 10 ^ prec"
    using upscale_quot [of 1 "- e" m]
    by (simp add: x times_divide_eq_left [symmetric] del: times_divide_eq_left)
  then show ?thesis
    using nearest_error [OF upscale_pos, of 1 "upscale e m * 10 ^ prec" "- e"] by (simp add: x)
qed

text \<open>
  A quotient printed with \<open>prec\<close> decimals is the true quotient rounded to the nearest last
  digit, in spite of the two roundings in between: \<open>10 ^ prec / d\<close> is \<open>c / b\<close> in any terms.
\<close>

lemma fixed_quotient:
  assumes "0 < b" and "0 < g" and "d = b * g" and "10 ^ prec = c * g"
    and "x < 2 ^ 53" and "d < 2 ^ 53" and "c * x < 2 ^ 52"
  shows "2 * \<bar>int (fixed_int prec (f64_div (f64_of_nat x) (f64_of_nat d))) * int b - int (c * x)\<bar> \<le> int b"
proof -
  define v where "v = f64_val (f64_div (f64_of_nat x) (f64_of_nat d))"
  define h where "h = fixed_int prec (f64_div (f64_of_nat x) (f64_of_nat d))"
  have d: "0 < d" using assms(1-3) by simp
  have "\<bar>v - real x / real d\<bar> \<le> real x / real d / 2 ^ 53"
    using f64_div_error [of "f64_of_nat d" "f64_of_nat x"] d assms(5,6)
    by (simp add: v_def f64_of_nat_exact)
  then have "\<bar>v - real x / real d\<bar> * 10 ^ prec \<le> real x / real d / 2 ^ 53 * 10 ^ prec"
    by (intro mult_right_mono) simp_all
  moreover have "real x / real d * 10 ^ prec = real (c * x) / real b"
  proof -
    have "(10 :: real) ^ prec = real c * real g"
      using assms(4) by (metis of_nat_mult of_nat_numeral of_nat_power)
    then show ?thesis using assms(1-3) by (simp add: field_simps)
  qed
  moreover have "\<bar>v - real x / real d\<bar> * 10 ^ prec = \<bar>v * 10 ^ prec - real x / real d * 10 ^ prec\<bar>"
    by (simp only: left_diff_distrib [symmetric] abs_mult) simp
  ultimately have "\<bar>v * 10 ^ prec - real (c * x) / real b\<bar> \<le> real (c * x) / real b / 2 ^ 53"
    by (simp add: field_simps)
  moreover have "real (c * x) / real b / 2 ^ 53 < 1 / (2 * real b)"
  proof -
    have "real (c * x) < 2 ^ 52" using assms(7) by (metis of_nat_less_iff of_nat_numeral of_nat_power)
    then show ?thesis using assms(1) by (simp add: divide_simps)
  qed
  moreover have "\<bar>real h - v * 10 ^ prec\<bar> \<le> 1 / 2" unfolding h_def v_def by (rule fixed_int_error)
  ultimately have "\<bar>real h - real (c * x) / real b\<bar> < 1 / 2 + 1 / (2 * real b)" by linarith
  then have "\<bar>real h - real (c * x) / real b\<bar> * (2 * real b) < (1 / 2 + 1 / (2 * real b)) * (2 * real b)"
    using assms(1) by (intro mult_strict_right_mono) simp_all
  moreover have "(1 / 2 + 1 / (2 * real b)) * (2 * real b) = real b + 1" using assms(1) by (simp add: field_simps)
  moreover have "\<bar>real h - real (c * x) / real b\<bar> * (2 * real b) = 2 * \<bar>real h * real b - real (c * x)\<bar>"
    using assms(1) by (simp add: abs_mult [symmetric] abs_mult_pos field_simps)
  ultimately have "2 * \<bar>real h * real b - real (c * x)\<bar> < real b + 1" by simp
  then have "real_of_int (2 * \<bar>int h * int b - int (c * x)\<bar>) < real_of_int (int b + 1)" by simp
  then have "2 * \<bar>int h * int b - int (c * x)\<bar> < int b + 1" by (simp only: of_int_less_iff)
  then show ?thesis by (simp add: h_def)
qed

end
