(* ===== verification/Printer.thy ===== *)
theory Printer
  imports Enricher F64
begin

text \<open>
  \<^verbatim>\<open>flow-sensor/src/printer.rs\<close>: the pretty and the JSON output. A print function returns
  what it writes and whether it ran to its end; \<open>False\<close> is a panic after that output. Text
  outside ASCII is given by its UTF-8 bytes.
\<close>

type_synonym printed = "str \<times> bool"

definition ascii_and :: "bytes \<Rightarrow> string \<Rightarrow> str" where
  "ascii_and bs s = bs @ lit s"

definition newline :: str where
  "newline = [0x0A]"

subsection \<open>Helpers\<close>

text \<open>\<^verbatim>\<open>x as f64 / d\<close> for the constants 1000.0 and 1\_000\_000.0.\<close>

definition as_ms :: "nat \<Rightarrow> 'a::len word \<Rightarrow> f64" where
  "as_ms d x = f64_div (f64_of_nat (unat x)) (f64_of_nat d)"

definition retransmit_rate_pct :: "FlowEvent \<Rightarrow> f64" where
  "retransmit_rate_pct e =
     (if ev_pkts_sent e = 0 then F64 0 0
      else f64_mul (f64_div (f64_of_nat (unat (ev_retransmit_count e))) (f64_of_nat (unat (ev_pkts_sent e))))
        (f64_of_nat 100))"

definition format_bytes :: "u64 \<Rightarrow> str" where
  "format_bytes b =
     (if b < 1024 then dec (unat b) @ lit ''B''
      else if b < 1048576 then f64_fixed 1 (as_ms 1024 b) @ lit ''KB''
      else if b < 1073741824 then f64_fixed 1 (as_ms 1048576 b) @ lit ''MB''
      else f64_fixed 1 (as_ms 1073741824 b) @ lit ''GB'')"

text \<open>\<open>None\<close> is the panic of a slice inside a character; the ellipsis is U+2026.\<close>

definition truncate_str :: "str \<Rightarrow> nat \<Rightarrow> str option" where
  "truncate_str s maxlen =
     (if length s \<le> maxlen then Some s
      else map_option (\<lambda>t. t @ [0xE2, 0x80, 0xA6]) (slice_to s (maxlen - 1)))"

definition http_method_str :: "FlowEvent \<Rightarrow> str" where
  "http_method_str e = buf_str 0 [] (ev_http_method e)"

definition build_app_context :: "EnrichedFlow \<Rightarrow> str" where
  "build_app_context flow =
     (let e = en_event flow; sni = sni_str e in
      if ev_has_tls e = 1 \<and> sni \<noteq> [] then
        (if ev_has_http e = 1
         then lit ''TLS/'' @ sni @ lit '' '' @ http_method_str e @ lit '' '' @ http_path_str e
         else lit ''TLS/'' @ sni)
      else if ev_has_http e = 1 then
        lit ''HTTP '' @ http_host_str e @ lit '' '' @ http_method_str e @ lit '' '' @ http_path_str e
      else case en_protocol_guess flow of
        Some proto \<Rightarrow> proto
      | None \<Rightarrow> lit ''port/'' @ dec (unat (ev_dst_port e)))"

subsection \<open>Pretty output\<close>

definition print_header :: "str \<Rightarrow> str" where
  "print_header format =
     (if format \<noteq> lit ''pretty'' then []
      else join_blank [pad_right 6 (lit ''PROTO''), pad_right 16 (lit ''PROCESS''),
          pad_right 21 (lit ''SRC''), pad_right 21 (lit ''DST''), pad_right 6 (lit ''DIR''),
          pad_right 10 (lit ''BYTES'' @ [0xE2, 0x86, 0x91]),
          pad_right 10 (lit ''BYTES'' @ [0xE2, 0x86, 0x93]),
          pad_right 8 (lit ''RTT(ms)''), pad_right 6 (lit ''REXMT''), lit ''APP CONTEXT''] @ newline @
        concat (replicate 130 [0xE2, 0x94, 0x80]) @ newline)"

definition endpoint :: "u32 \<Rightarrow> u16 \<Rightarrow> str" where
  "endpoint ip port = ipv4_str (ipv4_from (u32_to_be ip)) @ lit '':'' @ dec (unat port)"

definition direction_str :: "FlowEvent \<Rightarrow> str" where
  "direction_str e =
     (if ev_direction e = FlowDirection_u8 Outbound then ascii_and [0xE2, 0x86, 0x92] ''out''
      else if ev_direction e = FlowDirection_u8 Inbound then ascii_and [0xE2, 0x86, 0x90] ''in ''
      else lit ''  ? '')"

definition proto_str :: "FlowEvent \<Rightarrow> str" where
  "proto_str e = (if ev_protocol e = 6 then lit ''TCP'' else if ev_protocol e = 17 then lit ''UDP'' else lit ''???'')"

definition rexmt_str :: "FlowEvent \<Rightarrow> str" where
  "rexmt_str e =
     (if 0 < ev_retransmit_count e
      then [0xE2, 0x9A, 0xA0] @ dec (unat (ev_retransmit_count e)) else lit ''  0'')"

definition branch :: str where
  "branch = lit ''    '' @ [0xE2, 0x94, 0x9C, 0xE2, 0x94, 0x80] @ lit '' ''"

definition congestion_str :: "FlowEvent \<Rightarrow> str" where
  "congestion_str e =
     (if ev_congestion_state_final e = CongestionState_u8 Loss
      then lit '' | '' @ [0xE2, 0x9B, 0x94] @ lit ''LOSS''
      else if ev_congestion_state_final e = CongestionState_u8 Recovery
      then lit '' | '' @ [0xE2, 0x9A, 0xA0] @ lit ''RECOVERY''
      else if ev_congestion_state_final e = CongestionState_u8 Cwr
      then lit '' | '' @ [0xE2, 0x9A, 0xA0] @ lit ''CWR''
      else [])"

definition print_quality_detail :: "FlowEvent \<Rightarrow> str" where
  "print_quality_detail e =
     branch @ lit ''quality: rtt='' @ f64_fixed 2 (as_ms 1000 (ev_srtt_us_min e)) @ lit ''ms-'' @
     f64_fixed 2 (as_ms 1000 (ev_srtt_us_max e)) @ lit ''ms jitter='' @
     f64_fixed 2 (as_ms 1000 (ev_rttvar_us_max e)) @ lit ''ms'' @
     (if 0 < ev_retransmit_count e
      then lit '' | retx='' @ dec (unat (ev_retransmit_count e)) @
        lit '' [rto='' @ dec (unat (ev_retransmit_rto_count e)) @
        lit '' fast='' @ dec (unat (ev_retransmit_fast_count e)) @
        lit '' tlp='' @ dec (unat (ev_retransmit_tlp_count e)) @ lit '']''
      else []) @
     (if 0 < ev_ecn_signals e then lit '' | ecn='' @ dec (unat (ev_ecn_signals e)) else []) @
     congestion_str e @ newline"

definition print_app_detail :: "EnrichedFlow \<Rightarrow> str" where
  "print_app_detail flow =
     (let e = en_event flow; sni = sni_str e; host = http_host_str e in
      (if ev_has_tls e = 1 \<and> sni \<noteq> []
       then branch @ lit ''tls: sni='' @ sni @
         (if 0 < ev_tls_handshake_ns e
          then lit '' handshake='' @ f64_fixed 2 (as_ms 1000000 (ev_tls_handshake_ns e)) @ lit ''ms''
          else []) @ newline
       else []) @
      (if ev_has_http e = 1
       then branch @ lit ''http: '' @ http_method_str e @ lit '' '' @ http_path_str e @
         (if host \<noteq> [] then lit '' host='' @ host else []) @
         (if 0 < ev_http_status e then lit '' status='' @ dec (unat (ev_http_status e)) else []) @
         (if 0 < ev_app_response_time_ns e
          then lit '' app_rtt='' @ f64_fixed 2 (as_ms 1000000 (ev_app_response_time_ns e)) @ lit ''ms''
          else []) @ newline
       else []))"

fun close_str :: "CloseReason \<Rightarrow> str" where
  "close_str Clean = lit ''clean''"
| "close_str Reset = lit ''RST''"
| "close_str Timeout = lit ''timeout''"
| "close_str LocalClose = lit ''local''"
| "close_str CrUnknown = lit ''?''"

definition k8s_line :: "EnrichedFlow \<Rightarrow> str" where
  "k8s_line flow =
     (case en_k8s_pod flow of None \<Rightarrow> []
      | Some pod \<Rightarrow> branch @ lit ''k8s: pod='' @ pod @
          lit '' ns='' @ unwrap_or (en_k8s_namespace flow) (lit ''?'') @
          lit '' container='' @ unwrap_or (en_k8s_container flow) (lit ''?'') @ newline)"

definition timing_line :: "FlowEvent \<Rightarrow> str" where
  "timing_line e =
     lit ''    '' @ [0xE2, 0x94, 0x94, 0xE2, 0x94, 0x80] @ lit '' timing: duration='' @
     f64_fixed 2 (as_ms 1000000 (ev_duration_ns e)) @ lit ''ms ttfb='' @
     f64_fixed 2 (as_ms 1000000 (ev_time_to_first_byte_ns e)) @ lit ''ms close='' @
     close_str (close_reason e) @ newline"

text \<open>\<^verbatim>\<open>&cmd[..80]\<close> panics when byte 80 lies inside a character.\<close>

definition print_process_detail :: "EnrichedFlow \<Rightarrow> printed" where
  "print_process_detail flow =
     (let exe = (case en_exe_path flow of None \<Rightarrow> []
           | Some exe \<Rightarrow> branch @ lit ''exe: '' @ exe @ newline);
          shown = (case en_cmdline flow of None \<Rightarrow> Some []
           | Some cmd \<Rightarrow> map_option (\<lambda>c. branch @ lit ''cmd: '' @ c @ newline)
               (if 80 < length cmd then slice_to cmd 80 else Some cmd))
      in case shown of None \<Rightarrow> (exe, False)
         | Some cmd \<Rightarrow> (exe @ cmd @ k8s_line flow @ timing_line (en_event flow), True))"

definition causal_line :: "FlowEvent \<Rightarrow> str" where
  "causal_line e =
     (if 0 < ev_chain_depth e
      then branch @ lit ''causal: chain='' @ hex0x (unat (ev_chain_id e)) @
        lit '' parent='' @ hex0x (unat (ev_parent_chain_id e)) @
        lit '' depth='' @ dec (unat (ev_chain_depth e)) @ newline
      else [])"

definition main_line :: "EnrichedFlow \<Rightarrow> str \<Rightarrow> str \<Rightarrow> str \<Rightarrow> str" where
  "main_line flow comm src dst =
     (let e = en_event flow in
      join_blank [pad_right 6 (proto_str e), pad_right 16 comm, pad_right 21 src, pad_right 21 dst,
        pad_right 6 (direction_str e),
        pad_right 10 (format_bytes (ev_bytes_sent e)), pad_right 10 (format_bytes (ev_bytes_recv e)),
        pad_right 8 (f64_fixed 2 (as_ms 1000 (ev_srtt_us_final e))), pad_right 6 (rexmt_str e),
        build_app_context flow] @ newline)"

definition print_pretty :: "EnrichedFlow \<Rightarrow> printed" where
  "print_pretty flow =
     (let e = en_event flow;
          src = endpoint (ev_src_ip e) (ev_src_port e);
          dst = endpoint (ev_dst_ip e) (ev_dst_port e)
      in case (truncate_str (comm_str e) 16, truncate_str src 21, truncate_str dst 21) of
           (Some comm, Some src, Some dst) \<Rightarrow>
             (let out = main_line flow comm src dst @
                (if 0 < ev_retransmit_count e \<or> 0 < ev_ecn_signals e then print_quality_detail e else []) @
                (if ev_has_tls e = 1 \<or> ev_has_http e = 1 then print_app_detail flow else []) @
                causal_line e
              in if en_exe_path flow \<noteq> None \<or> en_cmdline flow \<noteq> None
                 then (let (detail, ok) = print_process_detail flow in (out @ detail, ok))
                 else (out, True))
         | _ \<Rightarrow> ([], False))"

subsection \<open>JSON output\<close>

text \<open>
  \<^verbatim>\<open>serde_json::Value\<close>, objects in the order of the \<^verbatim>\<open>json!\<close> literal; turning a value into
  text is the library's, the parameter \<open>render\<close>.
\<close>

datatype json = JNull | JBool bool | JNat nat | JFloat f64 | JStr str | JObj "(str \<times> json) list"

definition JOpt :: "('a \<Rightarrow> json) \<Rightarrow> 'a option \<Rightarrow> json" where
  "JOpt f x = (case x of None \<Rightarrow> JNull | Some v \<Rightarrow> f v)"

definition JWord :: "'a::len word \<Rightarrow> json" where
  "JWord x = JNat (unat x)"

definition tls_json :: "FlowEvent \<Rightarrow> json" where
  "tls_json e =
     (if ev_has_tls e = 1
      then JObj [(lit ''sni'', JStr (sni_str e)),
                 (lit ''handshake_ms'', JFloat (as_ms 1000000 (ev_tls_handshake_ns e)))]
      else JNull)"

definition http_json :: "FlowEvent \<Rightarrow> json" where
  "http_json e =
     (if ev_has_http e = 1
      then JObj [(lit ''host'', JStr (http_host_str e)), (lit ''method'', JStr (http_method_str e)),
                 (lit ''path'', JStr (http_path_str e)), (lit ''status'', JWord (ev_http_status e)),
                 (lit ''app_rtt_ms'', JFloat (as_ms 1000000 (ev_app_response_time_ns e)))]
      else JNull)"

definition k8s_json :: "EnrichedFlow \<Rightarrow> json" where
  "k8s_json flow =
     (if en_k8s_pod flow \<noteq> None
      then JObj [(lit ''pod'', JOpt JStr (en_k8s_pod flow)),
                 (lit ''namespace'', JOpt JStr (en_k8s_namespace flow)),
                 (lit ''container'', JOpt JStr (en_k8s_container flow))]
      else JNull)"

definition causal_json :: "FlowEvent \<Rightarrow> json" where
  "causal_json e =
     (if ev_chain_id e \<noteq> 0
      then JObj [(lit ''chain_id'', JStr (hex0x (unat (ev_chain_id e)))),
                 (lit ''parent_chain_id'', JStr (hex0x (unat (ev_parent_chain_id e)))),
                 (lit ''depth'', JWord (ev_chain_depth e))]
      else JNull)"

fun close_json :: "CloseReason \<Rightarrow> str" where
  "close_json Clean = lit ''clean''"
| "close_json Reset = lit ''reset''"
| "close_json Timeout = lit ''timeout''"
| "close_json LocalClose = lit ''local_close''"
| "close_json CrUnknown = lit ''unknown''"

definition flow_json :: "EnrichedFlow \<Rightarrow> json" where
  "flow_json flow =
     (let e = en_event flow in JObj [
        (lit ''pid'', JWord (ev_pid e)), (lit ''ppid'', JOpt JWord (en_ppid flow)),
        (lit ''uid'', JWord (ev_uid e)),
        (lit ''comm'', JStr (comm_str e)),
        (lit ''exe'', JOpt JStr (en_exe_path flow)),
        (lit ''cmdline'', JOpt JStr (en_cmdline flow)),
        (lit ''src_ip'', JStr (ipv4_str (ipv4_from (u32_to_be (ev_src_ip e))))),
        (lit ''dst_ip'', JStr (ipv4_str (ipv4_from (u32_to_be (ev_dst_ip e))))),
        (lit ''src_port'', JWord (ev_src_port e)),
        (lit ''dst_port'', JWord (ev_dst_port e)),
        (lit ''protocol'', JStr (if ev_protocol e = 6 then lit ''TCP'' else lit ''UDP'')),
        (lit ''direction'', JStr (if ev_direction e = FlowDirection_u8 Outbound
           then lit ''outbound'' else lit ''inbound'')),
        (lit ''bytes_sent'', JWord (ev_bytes_sent e)),
        (lit ''bytes_recv'', JWord (ev_bytes_recv e)),
        (lit ''pkts_sent'', JWord (ev_pkts_sent e)),
        (lit ''pkts_recv'', JWord (ev_pkts_recv e)),
        (lit ''rtt_ms'', JObj [
           (lit ''min'', JFloat (as_ms 1000 (ev_srtt_us_min e))),
           (lit ''max'', JFloat (as_ms 1000 (ev_srtt_us_max e))),
           (lit ''final'', JFloat (as_ms 1000 (ev_srtt_us_final e))),
           (lit ''jitter_max'', JFloat (as_ms 1000 (ev_rttvar_us_max e)))]),
        (lit ''retransmits'', JObj [
           (lit ''total'', JWord (ev_retransmit_count e)),
           (lit ''bytes'', JWord (ev_retransmit_bytes e)),
           (lit ''rto'', JWord (ev_retransmit_rto_count e)),
           (lit ''fast'', JWord (ev_retransmit_fast_count e)),
           (lit ''tlp'', JWord (ev_retransmit_tlp_count e)),
           (lit ''sack_blocks'', JWord (ev_sack_blocks_received e)),
           (lit ''rate_pct'', JFloat (retransmit_rate_pct e))]),
        (lit ''congestion'', JObj [
           (lit ''cwnd_min'', JWord (ev_cwnd_min e)),
           (lit ''cwnd_max'', JWord (ev_cwnd_max e)),
           (lit ''ecn_signals'', JWord (ev_ecn_signals e))]),
        (lit ''tls'', tls_json e),
        (lit ''http'', http_json e),
        (lit ''timing'', JObj [
           (lit ''connect_ts_ns'', JWord (ev_connect_ts_ns e)),
           (lit ''duration_ms'', JFloat (as_ms 1000000 (ev_duration_ns e))),
           (lit ''ttfb_ms'', JFloat (as_ms 1000000 (ev_time_to_first_byte_ns e)))]),
        (lit ''k8s'', k8s_json flow),
        (lit ''causal'', causal_json e),
        (lit ''is_external'', JBool (en_is_external flow)),
        (lit ''protocol_guess'', JOpt JStr (en_protocol_guess flow)),
        (lit ''close_reason'', JStr (close_json (close_reason e)))])"

definition print_json :: "(json \<Rightarrow> str) \<Rightarrow> EnrichedFlow \<Rightarrow> str" where
  "print_json render flow = render (flow_json flow) @ newline"

section \<open>Printed numbers\<close>

text \<open>A printed fixed-point number is \<open>h\<close> units of the last digit, with exactly \<open>prec\<close> decimals.\<close>

lemma dec_length: "n < 10 ^ Suc k \<Longrightarrow> length (dec n) \<le> Suc k"
proof (induction k arbitrary: n)
  case 0
  then show ?case by (subst dec.simps) simp
next
  case (Suc k)
  then have "n div 10 < 10 ^ Suc k" by (simp add: div_less_iff_less_mult)
  from Suc.IH [OF this] show ?case by (subst dec.simps) simp
qed

lemma fixed_str_decimals:
  "0 < prec \<Longrightarrow> \<exists>frac. fixed_str prec h = dec (h div 10 ^ prec) @ lit ''.'' @ frac \<and>
     length frac = prec \<and> dec_value frac = h mod 10 ^ prec"
proof -
  assume "0 < prec"
  then obtain k where k: "prec = Suc k" by (cases prec) auto
  let ?f = "dec (h mod 10 ^ prec)"
  have "length ?f \<le> prec" unfolding k by (rule dec_length) simp
  then have "length (replicate (prec - length ?f) 0x30 @ ?f) = prec" by simp
  moreover have "dec_value (replicate n 0x30 @ ds) = dec_value ds" for n ds
    by (induction n) (simp_all add: dec_value_def)
  then have "dec_value (replicate (prec - length ?f) 0x30 @ ?f) = h mod 10 ^ prec"
    by (simp add: dec_value_dec)
  ultimately show ?thesis by (auto simp: fixed_str_def Let_def)
qed

text \<open>\<open>h\<close> is \<open>x\<close> counted in units of \<open>g\<close>, rounded to the nearest.\<close>

definition rounds_to :: "nat \<Rightarrow> nat \<Rightarrow> 'a::len word \<Rightarrow> bool" where
  "rounds_to g h x \<longleftrightarrow> 2 * \<bar>int g * int h - uint x\<bar> \<le> int g"

lemma us_rounds: "rounds_to 10 (fixed_int 2 (as_ms 1000 us)) (us :: u32)"
proof -
  have "unat us < 2 ^ 32" using unsigned_less [of us, where ?'a = nat] by simp
  then have "2 * \<bar>int (fixed_int 2 (as_ms 1000 us)) * int 10 - int (1 * unat us)\<bar> \<le> int 10"
    unfolding as_ms_def by (intro fixed_quotient [where g = 100]) simp_all
  then show ?thesis by (simp add: rounds_to_def mult.commute)
qed

lemma ns_rounds: "unat ns < 2 ^ 52 \<Longrightarrow> rounds_to 10000 (fixed_int 2 (as_ms 1000000 ns)) (ns :: u64)"
proof -
  assume "unat ns < 2 ^ 52"
  then have "2 * \<bar>int (fixed_int 2 (as_ms 1000000 ns)) * int 10000 - int (1 * unat ns)\<bar> \<le> int 10000"
    unfolding as_ms_def by (intro fixed_quotient [where g = 100]) simp_all
  then show ?thesis by (simp add: rounds_to_def mult.commute)
qed

text \<open>
  C27. Every time the pretty output shows (duration, time to first byte, the three round-trip
  figures of the detail line, the round-trip column, handshake and response time) is the event's
  value rounded to the nearest hundredth of a millisecond: microseconds in units of 10,
  nanoseconds below 2^52 (52 days) in units of 10000, although the division and the two integer
  conversions round.
\<close>

theorem printed_ms_accurate:
  assumes "e = en_event flow" and "unat (ev_duration_ns e) < 2 ^ 52"
    and "unat (ev_time_to_first_byte_ns e) < 2 ^ 52" and "unat (ev_tls_handshake_ns e) < 2 ^ 52"
    and "unat (ev_app_response_time_ns e) < 2 ^ 52"
  shows "\<exists>dur ttfb lo hi jit rtt hs app.
    rounds_to 10000 dur (ev_duration_ns e) \<and> rounds_to 10000 ttfb (ev_time_to_first_byte_ns e) \<and>
    rounds_to 10 lo (ev_srtt_us_min e) \<and> rounds_to 10 hi (ev_srtt_us_max e) \<and>
    rounds_to 10 jit (ev_rttvar_us_max e) \<and> rounds_to 10 rtt (ev_srtt_us_final e) \<and>
    rounds_to 10000 hs (ev_tls_handshake_ns e) \<and> rounds_to 10000 app (ev_app_response_time_ns e) \<and>
    timing_line e = lit ''    '' @ [0xE2, 0x94, 0x94, 0xE2, 0x94, 0x80] @ lit '' timing: duration='' @
      fixed_str 2 dur @ lit ''ms ttfb='' @ fixed_str 2 ttfb @ lit ''ms close='' @
      close_str (close_reason e) @ newline \<and>
    (\<exists>rest. print_quality_detail e = branch @ lit ''quality: rtt='' @ fixed_str 2 lo @ lit ''ms-'' @
      fixed_str 2 hi @ lit ''ms jitter='' @ fixed_str 2 jit @ lit ''ms'' @ rest) \<and>
    main_line flow comm src dst = join_blank [pad_right 6 (proto_str e), pad_right 16 comm,
      pad_right 21 src, pad_right 21 dst, pad_right 6 (direction_str e),
      pad_right 10 (format_bytes (ev_bytes_sent e)), pad_right 10 (format_bytes (ev_bytes_recv e)),
      pad_right 8 (fixed_str 2 rtt), pad_right 6 (rexmt_str e), build_app_context flow] @ newline \<and>
    print_app_detail flow =
      (if ev_has_tls e = 1 \<and> sni_str e \<noteq> []
       then branch @ lit ''tls: sni='' @ sni_str e @
         (if 0 < ev_tls_handshake_ns e then lit '' handshake='' @ fixed_str 2 hs @ lit ''ms'' else []) @ newline
       else []) @
      (if ev_has_http e = 1
       then branch @ lit ''http: '' @ http_method_str e @ lit '' '' @ http_path_str e @
         (if http_host_str e \<noteq> [] then lit '' host='' @ http_host_str e else []) @
         (if 0 < ev_http_status e then lit '' status='' @ dec (unat (ev_http_status e)) else []) @
         (if 0 < ev_app_response_time_ns e then lit '' app_rtt='' @ fixed_str 2 app @ lit ''ms'' else []) @
         newline
       else [])"
proof -
  note ns = assms(2-5) [THEN ns_rounds]
  show ?thesis
    by (rule exI [of _ "fixed_int 2 (as_ms 1000000 (ev_duration_ns e))"],
        rule exI [of _ "fixed_int 2 (as_ms 1000000 (ev_time_to_first_byte_ns e))"],
        rule exI [of _ "fixed_int 2 (as_ms 1000 (ev_srtt_us_min e))"],
        rule exI [of _ "fixed_int 2 (as_ms 1000 (ev_srtt_us_max e))"],
        rule exI [of _ "fixed_int 2 (as_ms 1000 (ev_rttvar_us_max e))"],
        rule exI [of _ "fixed_int 2 (as_ms 1000 (ev_srtt_us_final e))"],
        rule exI [of _ "fixed_int 2 (as_ms 1000000 (ev_tls_handshake_ns e))"],
        rule exI [of _ "fixed_int 2 (as_ms 1000000 (ev_app_response_time_ns e))"], intro conjI)
      (simp_all add: ns us_rounds assms(1) [symmetric] timing_line_def print_quality_detail_def main_line_def
        print_app_detail_def f64_fixed_def Let_def)
qed

definition timed_event :: FlowEvent where
  "timed_event = zeroed_FlowEvent\<lparr>ev_duration_ns := 13205000, ev_srtt_us_final := 2105\<rparr>"

text \<open>
  C28. Byte counts below 2^48: exact in bytes below 1024, in KB below 2^20, in MB below 2^30 and
  in GB from there on (there is no larger unit), each rounded to the nearest tenth of its unit.
\<close>

theorem printed_bytes_accurate:
  assumes "unat b < 2 ^ 48"
  shows "if unat b < 1024 then format_bytes b = dec (unat b) @ lit ''B''
    else \<exists>h k. (k = 10 \<and> unat b < 2 ^ 20 \<or> k = 20 \<and> 2 ^ 20 \<le> unat b \<and> unat b < 2 ^ 30 \<or> k = 30 \<and> 2 ^ 30 \<le> unat b) \<and>
      format_bytes b = fixed_str 1 h @ lit (if k = 10 then ''KB'' else if k = 20 then ''MB'' else ''GB'') \<and>
      2 * \<bar>int h * 2 ^ k - 10 * uint b\<bar> \<le> 2 ^ k"
proof -
  have acc: "2 * \<bar>int (fixed_int 1 (as_ms (2 * m) b)) * (2 * int m) - 10 * uint b\<bar> \<le> 2 * int m"
    if "0 < m" "2 * m < 2 ^ 53" for m
  proof -
    have "2 * \<bar>int (fixed_int 1 (as_ms (2 * m) b)) * int m - int (5 * unat b)\<bar> \<le> int m"
      unfolding as_ms_def using assms that by (intro fixed_quotient [where g = 2]) simp_all
    moreover have "int (fixed_int 1 (as_ms (2 * m) b)) * (2 * int m) - 10 * uint b =
        2 * (int (fixed_int 1 (as_ms (2 * m) b)) * int m - int (5 * unat b))"
      by simp
    ultimately show ?thesis by (simp only: abs_mult)
  qed
  consider "unat b < 2 ^ 10" | "2 ^ 10 \<le> unat b" "unat b < 2 ^ 20"
    | "2 ^ 20 \<le> unat b" "unat b < 2 ^ 30" | "2 ^ 30 \<le> unat b" by linarith
  then show ?thesis
  proof cases
    case 1
    then show ?thesis by (simp add: format_bytes_def word_less_nat_alt)
  next
    case 2
    with acc [of 512] show ?thesis
      by (simp add: format_bytes_def word_less_nat_alt f64_fixed_def)
        (intro exI [of _ "fixed_int 1 (as_ms 1024 b)"] exI [of _ 10], simp)
  next
    case 3
    with acc [of 524288] show ?thesis
      by (simp add: format_bytes_def word_less_nat_alt f64_fixed_def)
        (intro exI [of _ "fixed_int 1 (as_ms 1048576 b)"] exI [of _ 20], simp)
  next
    case 4
    with acc [of 536870912] show ?thesis
      by (simp add: format_bytes_def word_less_nat_alt f64_fixed_def)
        (intro exI [of _ "fixed_int 1 (as_ms 1073741824 b)"] exI [of _ 30], simp)
  qed
qed

theorem printed_bytes_accurate_witness:
  "if unat (1536 :: u64) < 1024 then format_bytes 1536 = dec (unat (1536 :: u64)) @ lit ''B''
    else \<exists>h k. (k = 10 \<and> unat (1536 :: u64) < 2 ^ 20 \<or>
        k = 20 \<and> 2 ^ 20 \<le> unat (1536 :: u64) \<and> unat (1536 :: u64) < 2 ^ 30 \<or> k = 30 \<and> 2 ^ 30 \<le> unat (1536 :: u64)) \<and>
      format_bytes 1536 = fixed_str 1 h @ lit (if k = 10 then ''KB'' else if k = 20 then ''MB'' else ''GB'') \<and>
      2 * \<bar>int h * 2 ^ k - 10 * uint (1536 :: u64)\<bar> \<le> 2 ^ k"
  by (rule printed_bytes_accurate) simp

section \<open>Panics of the pretty printer\<close>

lemma dec_u8_length: "length (dec (unat (b :: u8))) \<le> 3"
  using dec_length [of "unat b" 2] byte_bound [of b] by (simp add: numeral_3_eq_3)

lemma ipv4_str_length: "length (ipv4_str ip) \<le> 15"
proof -
  obtain a b c d where "ip = Ipv4Addr a b c d" by (cases ip)
  then show ?thesis
    using dec_u8_length [of a] dec_u8_length [of b] dec_u8_length [of c] dec_u8_length [of d]
    by (simp add: lit_def)
qed

lemma endpoint_length: "length (endpoint ip port) \<le> 21"
proof -
  have "unat port < 65536" using unsigned_less [of port, where ?'a = nat] by simp
  then have "length (dec (unat port)) \<le> 5" using dec_length [of "unat port" 4] by simp
  then show ?thesis
    using ipv4_str_length [of "ipv4_from (u32_to_be ip)"] by (simp add: endpoint_def lit_def)
qed

lemma comm_str_length: "length (ev_comm e) = COMM_LEN \<Longrightarrow> length (comm_str e) \<le> 16"
  by (simp add: comm_str_def buf_str_def from_utf8_def lit_def COMM_LEN_def split: option.split)

definition cmdline_cut_ok :: "EnrichedFlow \<Rightarrow> bool" where
  "cmdline_cut_ok flow \<longleftrightarrow>
     (case en_cmdline flow of None \<Rightarrow> True | Some cmd \<Rightarrow> length cmd \<le> 80 \<or> is_char_boundary cmd 80)"

text \<open>
  C26. The pretty printer shows the process name and both endpoints whole: none of the three
  column truncations ever cuts anything, so none can panic. The only way it can panic is the cut
  of the command line at byte 80, when that byte lies inside a character, and then the main line
  is already out.
\<close>

theorem pretty_columns_whole:
  assumes "length (ev_comm (en_event flow)) = COMM_LEN"
  shows "\<exists>rest. print_pretty flow =
    (main_line flow (comm_str (en_event flow))
       (endpoint (ev_src_ip (en_event flow)) (ev_src_port (en_event flow)))
       (endpoint (ev_dst_ip (en_event flow)) (ev_dst_port (en_event flow))) @ rest,
     cmdline_cut_ok flow)"
proof -
  have cut: "snd (print_process_detail flow) \<longleftrightarrow> cmdline_cut_ok flow"
    by (simp add: print_process_detail_def cmdline_cut_ok_def Let_def slice_to_def not_less split: option.split)
  have "cmdline_cut_ok flow" if "en_cmdline flow = None" using that by (simp add: cmdline_cut_ok_def)
  with cut show ?thesis
    using comm_str_length [OF assms] endpoint_length
    by (cases "print_process_detail flow") (auto simp: print_pretty_def truncate_str_def Let_def)
qed

text \<open>A command line of 79 ASCII bytes and one byte above 127 reaches exactly that panic.\<close>

definition long_cmdline :: bytes where
  "long_cmdline = replicate 79 0x61 @ [0xE9, 0]"

definition demo_flow :: EnrichedFlow where
  "demo_flow = \<lparr>en_event = zeroed_FlowEvent, en_ppid = None, en_exe_path = None,
     en_cmdline = Some (cmdline_str long_cmdline), en_k8s_pod = None, en_k8s_namespace = None,
     en_k8s_container = None, en_dst_hostname = None, en_dst_asn = None, en_dst_org = None,
     en_is_external = False, en_protocol_guess = None\<rparr>"

lemma long_cmdline_str: "cmdline_str long_cmdline = replicate 79 0x61 @ [0xC3, 0xA9]"
proof -
  have "latin1 0xE9 = [0xC3, 0xA9]" by code_simp
  moreover have "list_all plain (replicate 79 0x61)" by (simp add: list_all_iff plain_def)
  ultimately have chars: "concat (map (\<lambda>b. if b = 0 then [0x20] else latin1 b) long_cmdline) =
      replicate 79 0x61 @ [0xC3, 0xA9, 0x20]"
    using plain_chars [of "replicate 79 0x61"] by (simp add: long_cmdline_def)
  have "drop_ws ws_seqs (0x61 # s) = 0x61 # s" for s
    by (subst drop_ws.simps) (simp add: plain_not_ws plain_def)
  then have lead: "drop_ws ws_seqs (replicate 79 0x61 @ [0xC3, 0xA9, 0x20]) = replicate 79 0x61 @ [0xC3, 0xA9, 0x20]"
    by (simp add: numeral_eq_Suc)
  have "ws_len (map rev ws_seqs) (0x20 # s) = 1" "ws_len (map rev ws_seqs) (0xA9 # 0xC3 # s) = 0" for s
    by (simp_all add: ws_len_def ws_seqs_def starts_with_def)
  then have "drop_ws (map rev ws_seqs) (0x20 # 0xA9 # 0xC3 # s) = 0xA9 # 0xC3 # s" for s
    by (subst drop_ws.simps) (simp add: drop_ws.simps [of _ "0xA9 # 0xC3 # s"])
  then show ?thesis by (simp add: cmdline_str_def chars trim_def lead)
qed

lemma demo_flow_cut: "\<not> cmdline_cut_ok demo_flow"
  by (simp add: cmdline_cut_ok_def demo_flow_def long_cmdline_str is_char_boundary_def nth_append is_cont_def)

theorem pretty_columns_whole_witness:
  "\<exists>rest. print_pretty demo_flow =
    (main_line demo_flow (comm_str (en_event demo_flow))
       (endpoint (ev_src_ip (en_event demo_flow)) (ev_src_port (en_event demo_flow)))
       (endpoint (ev_dst_ip (en_event demo_flow)) (ev_dst_port (en_event demo_flow))) @ rest, False)"
  using pretty_columns_whole [of demo_flow] demo_flow_cut
  by (simp add: demo_flow_def zeroed_FlowEvent_def)

theorem printed_ms_accurate_witness:
  "\<exists>dur ttfb. rounds_to 10000 dur (13205000 :: u64) \<and>
     timing_line timed_event = lit ''    '' @ [0xE2, 0x94, 0x94, 0xE2, 0x94, 0x80] @ lit '' timing: duration='' @
       fixed_str 2 dur @ lit ''ms ttfb='' @ fixed_str 2 ttfb @ lit ''ms close='' @
       close_str (close_reason timed_event) @ newline"
proof -
  have fields: "ev_duration_ns timed_event = 13205000" "ev_time_to_first_byte_ns timed_event = 0"
    "ev_tls_handshake_ns timed_event = 0" "ev_app_response_time_ns timed_event = 0"
    by (simp_all add: timed_event_def zeroed_FlowEvent_def)
  have "timed_event = en_event (demo_flow\<lparr>en_event := timed_event\<rparr>)" by simp
  from printed_ms_accurate [OF this] show ?thesis unfolding fields by fastforce
qed

end
