(* ===== verification/FlowFilter.thy ===== *)
theory FlowFilter
  imports EventAccess
begin

text \<open>
  \<^verbatim>\<open>flow-sensor/src/main.rs\<close>: the two comma-separated command line options and the event
  filter. The other options reach the program as values parsed by \<^verbatim>\<open>clap\<close>.
\<close>

record Args =
  ar_interface :: str
  ar_output :: str
  ar_min_duration_ms :: u64
  ar_ports :: str
  ar_tls :: bool
  ar_tls_pids :: str
  ar_sample_rate :: u32
  ar_retransmits_only :: bool

subsection \<open>Lists of numbers\<close>

definition parse_list :: "nat \<Rightarrow> str \<Rightarrow> nat list" where
  "parse_list w s =
     (if s = [] then [] else List.map_filter (\<lambda>p. parse_uint w (trim p)) (split_on 0x2C s))"

definition port_filter :: "Args \<Rightarrow> u16 list" where
  "port_filter args = map of_nat (parse_list 16 (ar_ports args))"

definition tls_pids :: "Args \<Rightarrow> u32 list" where
  "tls_pids args = map of_nat (parse_list 32 (ar_tls_pids args))"

subsection \<open>The event filter\<close>

record EventFilter =
  ef_min_duration_ms :: u64
  ef_port_filter :: "u16 list"
  ef_retransmits_only :: bool
  ef_sample_rate :: u32

definition event_filter :: "Args \<Rightarrow> EventFilter" where
  "event_filter args = \<lparr>ef_min_duration_ms = ar_min_duration_ms args,
     ef_port_filter = port_filter args, ef_retransmits_only = ar_retransmits_only args,
     ef_sample_rate = ar_sample_rate args\<rparr>"

definition matches :: "EventFilter \<Rightarrow> FlowEvent \<Rightarrow> bool" where
  "matches f e =
     (if 0 < ef_min_duration_ms f \<and>
         (let duration_ms = ev_duration_ns e div 1000000 in duration_ms < ef_min_duration_ms f)
      then False
      else if ef_port_filter f \<noteq> [] \<and>
         \<not> (ev_src_port e \<in> set (ef_port_filter f) \<or> ev_dst_port e \<in> set (ef_port_filter f))
      then False
      else if ef_retransmits_only f \<and> ev_retransmit_count e = 0 then False
      else if 1 < ef_sample_rate f \<and> ev_chain_id e mod ucast (ef_sample_rate f) \<noteq> 0 then False
      else True)"

section \<open>What the filter lets through\<close>

lemma duration_floor:
  "(d :: u64) div 1000000 < m \<longleftrightarrow> unat d < 1000000 * unat m"
  by (simp add: word_less_nat_alt unat_div_distrib less_mult_imp_div_less div_less_iff_less_mult
      mult.commute)

lemma ucast_mod_zero:
  "(c :: u64) mod ucast (r :: u32) = 0 \<longleftrightarrow> unat r dvd unat c"
proof -
  have "unat r < 2 ^ 64" by (rule less_le_trans [OF unsigned_less]) simp
  then have "unat (ucast r :: u64) = unat r" by (simp add: unsigned_ucast_eq take_bit_nat_eq_self)
  then have "unat (c mod ucast r) = unat c mod unat r" by (simp add: unat_mod_distrib)
  then show ?thesis by (metis mod_eq_0_iff_dvd unat_eq_0)
qed

text \<open>
  C11. The filter passes exactly the events that satisfy all enabled criteria, in exact integer
  terms: a duration of at least the configured milliseconds (no rounding in the user's
  favour), a source or destination port in the list unless the list is empty, at least one
  retransmission if asked for, and a chain id divisible by the sample rate if that is above 1.
\<close>

theorem matches_iff:
  "matches f e \<longleftrightarrow>
     1000000 * unat (ef_min_duration_ms f) \<le> unat (ev_duration_ns e) \<and>
     (ef_port_filter f = [] \<or> ev_src_port e \<in> set (ef_port_filter f) \<or>
        ev_dst_port e \<in> set (ef_port_filter f)) \<and>
     (ef_retransmits_only f \<longrightarrow> ev_retransmit_count e \<noteq> 0) \<and>
     (unat (ef_sample_rate f) \<le> 1 \<or> unat (ef_sample_rate f) dvd unat (ev_chain_id e))"
proof -
  have "(1 < ef_sample_rate f) = (1 < unat (ef_sample_rate f))" by (simp add: word_less_nat_alt)
  moreover have "(0 < ef_min_duration_ms f) = (0 < unat (ef_min_duration_ms f))"
    by (simp add: word_less_nat_alt)
  ultimately show ?thesis
    by (auto simp: matches_def Let_def duration_floor ucast_mod_zero)
qed

lemma default_matches_everything:
  "matches \<lparr>ef_min_duration_ms = 0, ef_port_filter = [], ef_retransmits_only = False, ef_sample_rate = 1\<rparr> e"
  by (simp add: matches_def)

subsection \<open>Lists the user can write\<close>

text \<open>A list as a user writes it: numbers separated by commas, each with blanks before and after.\<close>

type_synonym entry = "nat \<times> nat \<times> nat"

fun entry_str :: "entry \<Rightarrow> str" where
  "entry_str (before, n, after) = replicate before 0x20 @ dec n @ replicate after 0x20"

fun entry_num :: "entry \<Rightarrow> nat" where
  "entry_num (before, n, after) = n"

fun print_list :: "entry list \<Rightarrow> str" where
  "print_list [] = []"
| "print_list [x] = entry_str x"
| "print_list (x # xs) = entry_str x @ 0x2C # print_list xs"

lemma no_comma: "0x2C \<notin> set (entry_str x)"
proof -
  have "0x2C \<notin> set (dec n)" for n
    using dec_is_dec [of n] by (auto simp: list_all_iff is_dec_def word_le_nat_alt)
  then show ?thesis by (cases x) auto
qed

lemma trim_entry: "trim (entry_str x) = dec (entry_num x)"
proof -
  have "plain (hd (dec n))" "plain (last (dec n))" for n
    using dec_is_dec [of n] by (auto simp: list_all_iff is_dec_plain)
  then show ?thesis by (cases x) (simp add: trim_padded)
qed

lemma map_filter_pieces:
  "list_all (\<lambda>x. entry_num x < 2 ^ w) xs \<Longrightarrow> xs \<noteq> [] \<Longrightarrow>
   List.map_filter (\<lambda>p. parse_uint w (trim p)) (split_on 0x2C (print_list xs)) = map entry_num xs"
proof (induction xs rule: print_list.induct)
  case (2 x)
  then show ?case
    by (simp add: split_on_plain no_comma map_filter_simps trim_entry parse_uint_dec)
next
  case (3 x y xs)
  then show ?case
    using split_on_Cons [OF no_comma, of x "print_list (y # xs)"]
    by (simp add: map_filter_simps trim_entry parse_uint_dec)
qed simp

text \<open>
  C30. The port option is read back exactly: every list of decimal port numbers separated by
  commas, with any number of blanks (or none) around each number, gives the filter those ports
  in order.
\<close>

theorem port_filter_roundtrip:
  assumes "list_all (\<lambda>x. entry_num x < 65536) xs"
  shows "port_filter (args\<lparr>ar_ports := print_list xs\<rparr>) = map (of_nat \<circ> entry_num) xs"
proof (cases "xs = []")
  case True
  then show ?thesis by (simp add: port_filter_def parse_list_def map_filter_simps)
next
  case False
  then have "print_list xs \<noteq> []" by (cases xs rule: print_list.cases) auto
  with map_filter_pieces [of 16 xs] assms False show ?thesis
    by (simp add: port_filter_def parse_list_def)
qed

definition default_args :: Args where
  "default_args = \<lparr>ar_interface = lit ''eth0'', ar_output = lit ''pretty'', ar_min_duration_ms = 0,
     ar_ports = [], ar_tls = True, ar_tls_pids = [], ar_sample_rate = 1, ar_retransmits_only = False\<rparr>"

theorem port_filter_roundtrip_witness:
  "port_filter (default_args\<lparr>ar_ports := print_list [(0, 443, 0), (0, 80, 2), (1, 8080, 0)]\<rparr>) = [443, 80, 8080]"
  using port_filter_roundtrip [of "[(0, 443, 0), (0, 80, 2), (1, 8080, 0)]" default_args] by simp

text \<open>
  A port option without a single valid number is the same as no port option: entries that
  do not parse are dropped silently, and the empty list passes every event.
\<close>

theorem invalid_ports_pass_everything:
  assumes "list_all (\<lambda>p. parse_uint 16 (trim p) = None) (split_on 0x2C (ar_ports args))"
  shows "matches (event_filter args) e = matches (event_filter (args\<lparr>ar_ports := []\<rparr>)) e"
proof -
  have "List.map_filter (\<lambda>p. parse_uint 16 (trim p)) (split_on 0x2C (ar_ports args)) = []"
    using assms by (induction "split_on 0x2C (ar_ports args)") (auto simp: map_filter_simps list_all_iff map_filter_def filter_empty_conv)
  then show ?thesis
    by (simp add: matches_def event_filter_def port_filter_def parse_list_def)
qed

theorem invalid_ports_pass_everything_witness:
  "\<forall>e. matches (event_filter (default_args\<lparr>ar_ports := lit ''https''\<rparr>)) e"
proof
  fix e
  have "list_all (\<lambda>p. parse_uint 16 (trim p) = None) (split_on 0x2C (ar_ports (default_args\<lparr>ar_ports := lit ''https''\<rparr>)))"
    by code_simp
  from invalid_ports_pass_everything [OF this, of e]
  show "matches (event_filter (default_args\<lparr>ar_ports := lit ''https''\<rparr>)) e"
    by (simp add: matches_def event_filter_def port_filter_def parse_list_def default_args_def)
qed

theorem matches_iff_witness:
  "matches (event_filter (default_args\<lparr>ar_ports := print_list [(0, 443, 0)]\<rparr>)) (zeroed_FlowEvent\<lparr>ev_dst_port := 443\<rparr>) \<and>
   \<not> matches (event_filter (default_args\<lparr>ar_ports := print_list [(0, 443, 0)]\<rparr>)) zeroed_FlowEvent"
proof -
  have "port_filter (default_args\<lparr>ar_ports := print_list [(0, 443, 0)]\<rparr>) = [443]"
    using map_filter_pieces [of 16 "[(0, 443, 0)]"] by (simp add: port_filter_def parse_list_def)
  then show ?thesis
    unfolding matches_iff by (simp add: event_filter_def default_args_def zeroed_FlowEvent_def)
qed

end
