(* ===== verification/Wire.thy ===== *)
theory Wire
  imports Types
begin

text \<open>
  The wire format between the kernel side and userspace: \<^verbatim>\<open>FlowEvent\<close> is \<^verbatim>\<open>repr(C)\<close>, the
  close hook fills such a record in the ring buffer and \<^verbatim>\<open>read_unaligned\<close> of
  \<^verbatim>\<open>loader.rs\<close> copies it out again. The layout is computed by the C rule: every field at
  the next multiple of its alignment, the size rounded up to the largest alignment. Both sides
  are little-endian.
\<close>

subsection \<open>The C layout rule\<close>

definition padding :: "nat \<Rightarrow> nat \<Rightarrow> nat" where
  "padding off align = (align - off mod align) mod align"

text \<open>Alternating padding and field widths, given the sizes and alignments of the fields.\<close>

fun place :: "nat \<Rightarrow> nat \<Rightarrow> (nat \<times> nat) list \<Rightarrow> nat list" where
  "place maxalign off [] = [padding off maxalign]"
| "place maxalign off ((sz, align) # fs) =
     padding off align # sz # place maxalign (off + padding off align + sz) fs"

definition repr_c :: "(nat \<times> nat) list \<Rightarrow> nat list" where
  "repr_c fs = place (foldr (max \<circ> snd) fs 1) 0 fs"

definition flow_fields :: "(nat \<times> nat) list" where
  "flow_fields = [
     (4, 4), (4, 4), (4, 4), (4, 4), (COMM_LEN, 1), (CGROUP_LEN, 1), (4, 4), (4, 4), (2, 2),
     (2, 2), (1, 1), (1, 1), (8, 8), (8, 8), (8, 8), (8, 8), (4, 4), (4, 4), (4, 4), (4, 4),
     (4, 4), (8, 8), (4, 4), (4, 4), (4, 4), (4, 4), (4, 4), (4, 4), (4, 4), (HOST_LEN, 1),
     (HOST_LEN, 1), (8, 1), (PATH_LEN, 1), (2, 2), (1, 1), (1, 1), (8, 8), (8, 8), (8, 8),
     (8, 8), (8, 8), (8, 8), (8, 8), (8, 8), (1, 1), (1, 1), (8, 8), (8, 8), (4, 4)]"

definition flow_layout :: "nat list" where
  "flow_layout = repr_c flow_fields"

definition size_of_FlowEvent :: nat where
  "size_of_FlowEvent = sum_list flow_layout"

subsection \<open>Bytes of integers\<close>

fun nat_bytes :: "nat \<Rightarrow> nat \<Rightarrow> bytes" where
  "nat_bytes 0 n = []"
| "nat_bytes (Suc k) n = of_nat n # nat_bytes k (n div 256)"

fun bytes_nat :: "bytes \<Rightarrow> nat" where
  "bytes_nat [] = 0"
| "bytes_nat (b # bs) = unat b + 256 * bytes_nat bs"

definition word_bytes :: "'a::len word \<Rightarrow> bytes" where
  "word_bytes (x :: 'a word) = nat_bytes (LENGTH('a) div 8) (unat x)"

definition word_from :: "bytes \<Rightarrow> 'a::len word" where
  "word_from bs = of_nat (bytes_nat bs)"

subsection \<open>Writing and reading the record\<close>

definition event_fields :: "FlowEvent \<Rightarrow> bytes list" where
  "event_fields e = [
     word_bytes (ev_pid e), word_bytes (ev_ppid e), word_bytes (ev_uid e),
     word_bytes (ev_gid e), ev_comm e, ev_cgroup e, word_bytes (ev_src_ip e),
     word_bytes (ev_dst_ip e), word_bytes (ev_src_port e), word_bytes (ev_dst_port e),
     word_bytes (ev_protocol e), word_bytes (ev_direction e), word_bytes (ev_bytes_sent e),
     word_bytes (ev_bytes_recv e), word_bytes (ev_pkts_sent e), word_bytes (ev_pkts_recv e),
     word_bytes (ev_srtt_us_min e), word_bytes (ev_srtt_us_max e),
     word_bytes (ev_srtt_us_final e), word_bytes (ev_rttvar_us_max e),
     word_bytes (ev_retransmit_count e), word_bytes (ev_retransmit_bytes e),
     word_bytes (ev_retransmit_rto_count e), word_bytes (ev_retransmit_fast_count e),
     word_bytes (ev_retransmit_tlp_count e), word_bytes (ev_sack_blocks_received e),
     word_bytes (ev_cwnd_min e), word_bytes (ev_cwnd_max e), word_bytes (ev_ecn_signals e),
     ev_tls_sni e, ev_http_host e, ev_http_method e, ev_http_path e,
     word_bytes (ev_http_status e), word_bytes (ev_has_tls e), word_bytes (ev_has_http e),
     word_bytes (ev_connect_ts_ns e), word_bytes (ev_first_byte_ts_ns e),
     word_bytes (ev_first_recv_ts_ns e), word_bytes (ev_close_ts_ns e),
     word_bytes (ev_duration_ns e), word_bytes (ev_time_to_first_byte_ns e),
     word_bytes (ev_tls_handshake_ns e), word_bytes (ev_app_response_time_ns e),
     word_bytes (ev_close_reason e), word_bytes (ev_congestion_state_final e),
     word_bytes (ev_chain_id e), word_bytes (ev_parent_chain_id e),
     word_bytes (ev_chain_depth e)]"

text \<open>Padding bytes hold anything; \<open>pad i j\<close> is byte \<open>j\<close> of the padding in front of field \<open>i\<close>.\<close>

fun interleave :: "(nat \<Rightarrow> nat \<Rightarrow> u8) \<Rightarrow> nat \<Rightarrow> nat list \<Rightarrow> bytes list \<Rightarrow> bytes list" where
  "interleave pad i (w # _ # ws) (f # fs) = map (pad i) [0..<w] # f # interleave pad (Suc i) ws fs"
| "interleave pad i (w # ws) [] = [map (pad i) [0..<w]]"
| "interleave pad i _ fs = fs"

definition encode_event :: "(nat \<Rightarrow> nat \<Rightarrow> u8) \<Rightarrow> FlowEvent \<Rightarrow> bytes" where
  "encode_event pad e = concat (interleave pad 0 flow_layout (event_fields e))"

fun chunks :: "nat list \<Rightarrow> bytes \<Rightarrow> bytes list" where
  "chunks [] bs = []"
| "chunks (w # ws) bs = take w bs # chunks ws (drop w bs)"

definition decode_event :: "bytes \<Rightarrow> FlowEvent" where
  "decode_event bs =
     (let c = chunks flow_layout bs in \<lparr>
        ev_pid = word_from (c ! 1), ev_ppid = word_from (c ! 3), ev_uid = word_from (c ! 5),
        ev_gid = word_from (c ! 7), ev_comm = c ! 9, ev_cgroup = c ! 11,
        ev_src_ip = word_from (c ! 13), ev_dst_ip = word_from (c ! 15),
        ev_src_port = word_from (c ! 17), ev_dst_port = word_from (c ! 19),
        ev_protocol = word_from (c ! 21), ev_direction = word_from (c ! 23),
        ev_bytes_sent = word_from (c ! 25), ev_bytes_recv = word_from (c ! 27),
        ev_pkts_sent = word_from (c ! 29), ev_pkts_recv = word_from (c ! 31),
        ev_srtt_us_min = word_from (c ! 33), ev_srtt_us_max = word_from (c ! 35),
        ev_srtt_us_final = word_from (c ! 37), ev_rttvar_us_max = word_from (c ! 39),
        ev_retransmit_count = word_from (c ! 41), ev_retransmit_bytes = word_from (c ! 43),
        ev_retransmit_rto_count = word_from (c ! 45),
        ev_retransmit_fast_count = word_from (c ! 47),
        ev_retransmit_tlp_count = word_from (c ! 49),
        ev_sack_blocks_received = word_from (c ! 51), ev_cwnd_min = word_from (c ! 53),
        ev_cwnd_max = word_from (c ! 55), ev_ecn_signals = word_from (c ! 57),
        ev_tls_sni = c ! 59, ev_http_host = c ! 61, ev_http_method = c ! 63,
        ev_http_path = c ! 65, ev_http_status = word_from (c ! 67),
        ev_has_tls = word_from (c ! 69), ev_has_http = word_from (c ! 71),
        ev_connect_ts_ns = word_from (c ! 73), ev_first_byte_ts_ns = word_from (c ! 75),
        ev_first_recv_ts_ns = word_from (c ! 77), ev_close_ts_ns = word_from (c ! 79),
        ev_duration_ns = word_from (c ! 81), ev_time_to_first_byte_ns = word_from (c ! 83),
        ev_tls_handshake_ns = word_from (c ! 85), ev_app_response_time_ns = word_from (c ! 87),
        ev_close_reason = word_from (c ! 89), ev_congestion_state_final = word_from (c ! 91),
        ev_chain_id = word_from (c ! 93), ev_parent_chain_id = word_from (c ! 95),
        ev_chain_depth = word_from (c ! 97)\<rparr>)"

section \<open>The layout\<close>

lemma size_of_FlowEvent: "size_of_FlowEvent = 1144"
  unfolding size_of_FlowEvent_def flow_layout_def repr_c_def flow_fields_def len_defs
  by (simp add: padding_def)

section \<open>Round trip\<close>

lemma length_nat_bytes [simp]: "length (nat_bytes k n) = k"
  by (induction k arbitrary: n) auto

lemma bytes_nat_bytes: "n < 256 ^ k \<Longrightarrow> bytes_nat (nat_bytes k n) = n"
proof (induction k arbitrary: n)
  case (Suc k)
  then have "n div 256 < 256 ^ k" by (simp add: div_less_iff_less_mult mult.commute)
  with Suc.IH have "bytes_nat (nat_bytes k (n div 256)) = n div 256" by blast
  then show ?case by (simp add: unat_of_nat)
qed simp

lemma word_from_bytes:
  assumes "8 dvd LENGTH('a)"
  shows "word_from (word_bytes (x :: 'a::len word)) = x"
proof -
  have "(2 :: nat) ^ (8 * (LENGTH('a) div 8)) = (2 ^ 8) ^ (LENGTH('a) div 8)" by (rule power_mult)
  then have "(2 :: nat) ^ LENGTH('a) = 256 ^ (LENGTH('a) div 8)" using assms by simp
  then have "unat x < 256 ^ (LENGTH('a) div 8)" using unsigned_less [of x, where ?'a = nat] by simp
  then show ?thesis by (simp add: word_from_def word_bytes_def bytes_nat_bytes)
qed

lemma chunks_concat: "map length cs = ws \<Longrightarrow> chunks ws (concat cs @ rest) = cs"
  by (induction cs arbitrary: ws) auto

definition wf_event :: "FlowEvent \<Rightarrow> bool" where
  "wf_event e \<longleftrightarrow>
     length (ev_comm e) = COMM_LEN \<and> length (ev_cgroup e) = CGROUP_LEN \<and>
     length (ev_tls_sni e) = HOST_LEN \<and> length (ev_http_host e) = HOST_LEN \<and>
     length (ev_http_method e) = 8 \<and> length (ev_http_path e) = PATH_LEN"

lemma interleave_lengths:
  "map length bss = map fst sizes \<Longrightarrow>
   map length (interleave pad i (place maxalign off sizes) bss) = place maxalign off sizes"
proof (induction sizes arbitrary: bss i off)
  case (Cons sa sizes)
  then obtain b bss' where "bss = b # bss'" "length b = fst sa" "map length bss' = map fst sizes"
    by (cases bss) auto
  with Cons.IH [of bss'] show ?case by (cases sa) simp
qed simp

lemma event_fields_lengths:
  assumes "wf_event e"
  shows "map length (event_fields e) = map fst flow_fields"
  using assms unfolding wf_event_def event_fields_def flow_fields_def
  by (simp add: word_bytes_def)

lemma event_chunks:
  assumes "wf_event e"
  shows "map length (interleave pad 0 flow_layout (event_fields e)) = flow_layout"
  unfolding flow_layout_def repr_c_def
  by (rule interleave_lengths [OF event_fields_lengths [OF assms]])

lemma interleave_fields:
  "length bss = length sizes \<Longrightarrow> n < length sizes \<Longrightarrow>
   interleave pad i (place maxalign off sizes) bss ! (2 * n + 1) = bss ! n"
proof (induction sizes arbitrary: bss i off n)
  case (Cons sa sizes)
  then obtain b bss' where "bss = b # bss'" "length bss' = length sizes"
    by (cases bss) auto
  with Cons show ?case by (cases sa; cases n) simp_all
qed simp

lemma length_encode_event: "wf_event e \<Longrightarrow> length (encode_event pad e) = size_of_FlowEvent"
  using event_chunks [of e pad] by (simp add: encode_event_def size_of_FlowEvent_def length_concat)

lemma wire_decodes:
  assumes "wf_event e"
  shows "decode_event (encode_event pad e @ rest) = e"
proof -
  define c where "c = interleave pad 0 flow_layout (event_fields e)"
  have lengths: "map length c = flow_layout" unfolding c_def by (rule event_chunks [OF assms])
  have chunks: "chunks flow_layout (encode_event pad e @ rest) = c"
    using lengths by (simp add: encode_event_def c_def [symmetric] chunks_concat)
  have field: "c ! (2 * n + 1) = event_fields e ! n" if "n < 49" for n
    unfolding c_def flow_layout_def repr_c_def
    by (rule interleave_fields) (use that in \<open>simp_all add: event_fields_def flow_fields_def\<close>)
  have "c ! k = event_fields e ! (k div 2)" if "odd k" "k < 98" for k
    using field [of "k div 2"] that by (simp add: odd_two_times_div_two_succ)
  then show ?thesis
    unfolding decode_event_def chunks Let_def
    by (simp add: event_fields_def word_from_bytes)
qed

text \<open>
  C10. What the close hook writes into the ring buffer is what userspace reads: for every
  event with full-size arrays and any content of the padding, decoding the 1144 bytes of the
  record gives the event back, and bytes behind the record do not matter.
\<close>

theorem wire_roundtrip:
  assumes "wf_event e"
  shows "length (encode_event pad e) = 1144 \<and> decode_event (encode_event pad e @ rest) = e"
  using wire_decodes [OF assms] length_encode_event [OF assms] by (simp add: size_of_FlowEvent)

theorem wire_roundtrip_witness:
  "length (encode_event (\<lambda>i j. 0xAA) zeroed_FlowEvent) = 1144 \<and>
   decode_event (encode_event (\<lambda>i j. 0xAA) zeroed_FlowEvent @ [1, 2]) = zeroed_FlowEvent"
  by (rule wire_roundtrip) (simp add: wf_event_def zeroed_FlowEvent_def)

end
