(* ===== verification/Loader.thy ===== *)
theory Loader
  imports Printer FlowFilter Wire
begin

text \<open>
  \<^verbatim>\<open>flow-sensor/src/loader.rs\<close>: loading and attaching the programs, and the event loop. The
  library \<^verbatim>\<open>aya\<close> is the parameter \<open>ay\<close>, with the loaded object as an opaque state; text
  rendering of JSON values is the parameter \<open>render\<close>.
\<close>

subsection \<open>The library interface\<close>

datatype prog_kind = KProbe | UProbe | OtherProg

text \<open>
  \<^verbatim>\<open>Ebpf::load\<close>, \<^verbatim>\<open>program_mut\<close> with the kind \<^verbatim>\<open>try_into\<close> tests, \<^verbatim>\<open>load\<close> and
  \<^verbatim>\<open>attach\<close> of a program (whether they succeed, and the new state), \<^verbatim>\<open>take_map\<close> (missing, or
  whether it is a ring buffer); \<^verbatim>\<open>aya_obj::Object::parse\<close> with the instruction counts of the
  programs (no program, no linked function, or the length).
\<close>

record 'b aya =
  ay_ebpf_load :: "bytes \<Rightarrow> 'b option"
  ay_program :: "'b \<Rightarrow> str \<Rightarrow> prog_kind option"
  ay_load :: "str \<Rightarrow> 'b \<Rightarrow> bool \<times> 'b"
  ay_attach_kprobe :: "str \<Rightarrow> str \<Rightarrow> 'b \<Rightarrow> bool \<times> 'b"
  ay_attach_uprobe :: "str \<Rightarrow> str \<Rightarrow> str \<Rightarrow> 32 word option \<Rightarrow> 'b \<Rightarrow> bool \<times> 'b"
  ay_take_map :: "str \<Rightarrow> 'b \<Rightarrow> bool option \<times> 'b"
  ay_object :: "bytes \<Rightarrow> (str \<Rightarrow> nat option option) option"

datatype error = ReadObject | ParseObject | EbpfLoad | NoProgram str | WrongKind str
  | LoadFailed str | AttachFailed str str | NoMap | NotRingBuf
  | NoFunction str | NoInstructions str | NoLibssl

text \<open>A step that may fail and changes the object: \<^verbatim>\<open>?\<close> is sequencing, a \<^verbatim>\<open>for\<close> loop its iteration.\<close>

type_synonym 'b act = "'b \<Rightarrow> (error + unit) \<times> 'b"

definition and_then :: "'b act \<Rightarrow> 'b act \<Rightarrow> 'b act" where
  "and_then m m' b = (case m b of (Inl e, b) \<Rightarrow> (Inl e, b) | (Inr _, b) \<Rightarrow> m' b)"

fun for_each :: "('a \<Rightarrow> 'b act) \<Rightarrow> 'a list \<Rightarrow> 'b act" where
  "for_each f [] b = (Inr (), b)"
| "for_each f (x # xs) b = and_then (f x) (for_each f xs) b"

definition check :: "error \<Rightarrow> ('b \<Rightarrow> bool \<times> 'b) \<Rightarrow> 'b act" where
  "check err call b = (case call b of (ok, b) \<Rightarrow> (if ok then Inr () else Inl err, b))"

definition with_program :: "'b aya \<Rightarrow> prog_kind \<Rightarrow> str \<Rightarrow> 'b act \<Rightarrow> 'b act" where
  "with_program ay kind prog m b =
     (case ay_program ay b prog of
        None \<Rightarrow> (Inl (NoProgram prog), b)
      | Some k \<Rightarrow> if k \<noteq> kind then (Inl (WrongKind prog), b) else m b)"

subsection \<open>Loading and attaching\<close>

definition ebpf_object_path :: "str \<Rightarrow> str" where
  "ebpf_object_path manifest_dir =
     manifest_dir @ lit ''/../flow-sensor-ebpf/target/bpfel-unknown-none/release/libflow_sensor_ebpf.so''"

definition attach_kprobe :: "'b aya \<Rightarrow> str \<Rightarrow> str \<Rightarrow> 'b act" where
  "attach_kprobe ay prog kernel_fn =
     with_program ay KProbe prog
       (and_then (check (LoadFailed prog) (ay_load ay prog))
                 (check (AttachFailed prog kernel_fn) (ay_attach_kprobe ay prog kernel_fn)))"

definition ATTACH :: "(str \<times> str) list" where
  "ATTACH = map (\<lambda>(prog, kfn). (lit prog, lit kfn)) [
     (''tcp_connect'', ''tcp_connect''),
     (''inet_csk_accept'', ''inet_csk_accept''),
     (''tcp_close'', ''tcp_close''),
     (''tcp_send_active_reset'', ''tcp_send_active_reset''),
     (''tcp_sendmsg'', ''tcp_sendmsg''),
     (''tcp_recvmsg_entry'', ''tcp_recvmsg''),
     (''tcp_recvmsg'', ''tcp_recvmsg''),
     (''tcp_rcv_established'', ''tcp_rcv_established''),
     (''tcp_enter_cwr'', ''tcp_enter_cwr''),
     (''tcp_enter_loss'', ''tcp_enter_loss''),
     (''tcp_enter_recovery'', ''tcp_enter_recovery''),
     (''tcp_retransmit_skb'', ''tcp_retransmit_skb''),
     (''tcp_send_loss_probe'', ''tcp_send_loss_probe''),
     (''tcp_fast_retransmit'', ''tcp_retransmit_timer''),
     (''tcp_sacktag'', ''tcp_sacktag_write_queue''),
     (''on_new_task'', ''wake_up_new_task''),
     (''on_exit'', ''do_exit'')]"

definition take_ring :: "'b aya \<Rightarrow> 'b act" where
  "take_ring ay b =
     (case ay_take_map ay (lit ''FLOW_EVENTS'') b of
        (None, b) \<Rightarrow> (Inl NoMap, b)
      | (Some ring, b) \<Rightarrow> (if ring then Inr () else Inl NotRingBuf, b))"

definition load_and_attach :: "'b aya \<Rightarrow> host \<Rightarrow> str \<Rightarrow> error + 'b" where
  "load_and_attach ay h manifest_dir =
     (case h_read h (ebpf_object_path manifest_dir) of None \<Rightarrow> Inl ReadObject | Some data \<Rightarrow>
      (case ay_ebpf_load ay data of None \<Rightarrow> Inl EbpfLoad | Some b \<Rightarrow>
      (case and_then (for_each (\<lambda>(prog, kfn). attach_kprobe ay prog kfn) ATTACH) (take_ring ay) b of
         (Inl e, _) \<Rightarrow> Inl e
       | (Inr _, b) \<Rightarrow> Inr b)))"

subsection \<open>The event loop\<close>

definition report :: "host \<Rightarrow> (json \<Rightarrow> str) \<Rightarrow> str \<Rightarrow> FlowEvent \<Rightarrow> printed" where
  "report h render output_format event =
     (case enrich h event of
        None \<Rightarrow> ([], False)
      | Some enriched \<Rightarrow>
          if output_format = lit ''json'' \<or> output_format = lit ''jsonl''
          then (print_json render enriched, True)
          else print_pretty enriched)"

text \<open>
  One wake-up of \<^verbatim>\<open>select!\<close> is Ctrl-C or the timer, the latter with the items the inner loop
  takes from the ring; each item comes with the machine as it is when the item is enriched.
\<close>

datatype wakeup = CtrlC | Timer "(host \<times> bytes) list"

record loop_state =
  ls_count :: u64
  ls_out :: str

datatype loop_end = Waiting | Stopped | Panicked

fun drain ::
  "(json \<Rightarrow> str) \<Rightarrow> str \<Rightarrow> EventFilter \<Rightarrow> (host \<times> bytes) list \<Rightarrow> loop_state \<Rightarrow> bool \<times> loop_state" where
  "drain render fmt f [] s = (True, s)"
| "drain render fmt f ((h, item) # items) s =
     (if length item < size_of_FlowEvent then drain render fmt f items s
      else
        (let event = decode_event item; s = s\<lparr>ls_count := ls_count s + 1\<rparr> in
         if \<not> matches f event then drain render fmt f items s
         else
           (case report h render fmt event of
              (text, ok) \<Rightarrow>
                (let s = s\<lparr>ls_out := ls_out s @ text\<rparr>
                 in if ok then drain render fmt f items s else (False, s)))))"

fun event_loop ::
  "(json \<Rightarrow> str) \<Rightarrow> str \<Rightarrow> EventFilter \<Rightarrow> wakeup list \<Rightarrow> loop_state \<Rightarrow> loop_end \<times> loop_state" where
  "event_loop render fmt f [] s = (Waiting, s)"
| "event_loop render fmt f (CtrlC # ws) s = (Stopped, s)"
| "event_loop render fmt f (Timer items # ws) s =
     (case drain render fmt f items s of
        (True, s) \<Rightarrow> event_loop render fmt f ws s
      | (False, s) \<Rightarrow> (Panicked, s))"

definition loop_init :: loop_state where
  "loop_init = \<lparr>ls_count = 0, ls_out = []\<rparr>"

subsection \<open>Stub mode\<close>

definition copy_str :: "bytes \<Rightarrow> bytes \<Rightarrow> bytes" where
  "copy_str dst src = (let len = min (length src) (length dst - 1) in overwrite (take len src) dst)"

definition u32_from_be_bytes :: "bytes \<Rightarrow> u32" where
  "u32_from_be_bytes bs = u32_from_ne_bytes (rev bs)"

definition make_test_event :: "u32 \<Rightarrow> FlowEvent" where
  "make_test_event process_id =
     (let e = zeroed_FlowEvent in e\<lparr>
        ev_pid := process_id,
        ev_uid := 0,
        ev_src_ip := u32_from_be_bytes [10, 0, 1, 50],
        ev_dst_ip := u32_from_be_bytes [104, 18, 20, 1],
        ev_src_port := 54821,
        ev_dst_port := 443,
        ev_protocol := 6,
        ev_direction := FlowDirection_u8 Outbound,
        ev_bytes_sent := 1240,
        ev_bytes_recv := 48200,
        ev_pkts_sent := 12,
        ev_pkts_recv := 38,
        ev_srtt_us_min := 1800,
        ev_srtt_us_max := 4200,
        ev_srtt_us_final := 2100,
        ev_rttvar_us_max := 800,
        ev_retransmit_count := 3,
        ev_retransmit_rto_count := 1,
        ev_retransmit_fast_count := 2,
        ev_retransmit_tlp_count := 0,
        ev_retransmit_bytes := 2480,
        ev_sack_blocks_received := 2,
        ev_cwnd_min := 10,
        ev_cwnd_max := 32,
        ev_ecn_signals := 0,
        ev_has_tls := 1,
        ev_has_http := 1,
        ev_comm := copy_str (ev_comm e) (lit ''python3''),
        ev_tls_sni := copy_str (ev_tls_sni e) (lit ''api.bigpanda.io''),
        ev_http_host := copy_str (ev_http_host e) (lit ''api.bigpanda.io''),
        ev_http_method := copy_str (ev_http_method e) (lit ''POST''),
        ev_http_path := copy_str (ev_http_path e) (lit ''/api/v2/alerts''),
        ev_http_status := 200,
        ev_connect_ts_ns := 0,
        ev_duration_ns := 1500000000,
        ev_time_to_first_byte_ns := 13200000,
        ev_tls_handshake_ns := 12400000,
        ev_app_response_time_ns := 48200000,
        ev_close_reason := CloseReason_u8 Clean,
        ev_chain_id := 0,
        ev_parent_chain_id := 0,
        ev_chain_depth := 0\<rparr>)"

text \<open>What the stub loop prints before it waits for Ctrl-C.\<close>

definition stub_event_loop :: "host \<Rightarrow> (json \<Rightarrow> str) \<Rightarrow> str \<Rightarrow> EventFilter \<Rightarrow> u32 \<Rightarrow> printed" where
  "stub_event_loop h render fmt f process_id =
     (let event = make_test_event process_id
      in if matches f event then report h render fmt event else ([], True))"

text \<open>The addresses of the synthetic event are shown backwards.\<close>

lemma stub_addresses_reversed:
  "src_ip_str (make_test_event process_id) = Ipv4Addr 50 1 0 10"
  "dst_ip_str (make_test_event process_id) = Ipv4Addr 1 20 18 104"
  unfolding src_ip_str_def dst_ip_str_def ipv4_memory_order
  by (simp_all add: make_test_event_def u32_from_be_bytes_def byte_of_from_ne_bytes Let_def
      del: One_nat_def)

section \<open>What the event loop reports\<close>

text \<open>
  The abstract specification: of all items taken, those long enough to hold a record are
  received; of these, the ones the filter passes are reported, in order, up to and including the
  first report that panics. How the timer groups the items does not matter.
\<close>

definition received :: "(host \<times> bytes) list \<Rightarrow> (host \<times> FlowEvent) list" where
  "received items =
     map (\<lambda>(h, item). (h, decode_event item)) (filter (\<lambda>(h, item). size_of_FlowEvent \<le> length item) items)"

definition reports ::
  "(json \<Rightarrow> str) \<Rightarrow> str \<Rightarrow> EventFilter \<Rightarrow> (host \<times> bytes) list \<Rightarrow> printed list" where
  "reports render fmt f items =
     map (\<lambda>(h, e). report h render fmt e) (filter (\<lambda>(h, e). matches f e) (received items))"

fun through_failure :: "printed list \<Rightarrow> printed list" where
  "through_failure [] = []"
| "through_failure ((text, ok) # rs) = (text, ok) # (if ok then through_failure rs else [])"

lemma through_failure_append:
  "through_failure (rs @ rs') = through_failure rs @ (if list_all snd rs then through_failure rs' else [])"
  by (induction rs rule: through_failure.induct) auto

lemma received_append: "received (xs @ ys) = received xs @ received ys"
  by (simp add: received_def)

lemma reports_append: "reports render fmt f (xs @ ys) = reports render fmt f xs @ reports render fmt f ys"
  by (simp add: reports_def received_append)

definition advanced :: "loop_state \<Rightarrow> printed list \<Rightarrow> u64 \<Rightarrow> loop_state" where
  "advanced s rs n = s\<lparr>ls_count := n, ls_out := ls_out s @ concat (map fst (through_failure rs))\<rparr>"

lemma drain_spec:
  "\<exists>n. drain render fmt f items s = (list_all snd (reports render fmt f items), advanced s (reports render fmt f items) n) \<and>
     (list_all snd (reports render fmt f items) \<longrightarrow> n = ls_count s + of_nat (length (received items)))"
proof (induction items arbitrary: s)
  case (Cons x items)
  obtain h item where x: "x = (h, item)" by (cases x)
  show ?case
  proof (cases "length item < size_of_FlowEvent")
    case True
    with Cons.IH [of s] show ?thesis by (simp add: x reports_def received_def)
  next
    case long: False
    let ?e = "decode_event item" and ?s = "s\<lparr>ls_count := ls_count s + 1\<rparr>"
    show ?thesis
    proof (cases "matches f ?e")
      case False
      with long Cons.IH [of ?s] show ?thesis
        by (auto simp: x reports_def received_def advanced_def Let_def)
    next
      case True
      obtain out ok where r: "report h render fmt ?e = (out, ok)"
        by (cases "report h render fmt ?e")
      show ?thesis
        using True long r Cons.IH [of "?s\<lparr>ls_out := ls_out s @ out\<rparr>"]
        by (cases ok) (auto simp: x reports_def received_def advanced_def Let_def)
    qed
  qed
qed (simp add: reports_def received_def advanced_def)

lemma event_loop_spec:
  "\<exists>n. event_loop render fmt f (map Timer batches @ CtrlC # ws) s =
     (if list_all snd (reports render fmt f (concat batches)) then Stopped else Panicked,
      advanced s (reports render fmt f (concat batches)) n) \<and>
     (list_all snd (reports render fmt f (concat batches)) \<longrightarrow>
        n = ls_count s + of_nat (length (received (concat batches))))"
proof (induction batches arbitrary: s)
  case (Cons items batches)
  obtain n where d: "drain render fmt f items s =
      (list_all snd (reports render fmt f items), advanced s (reports render fmt f items) n)"
    and n: "list_all snd (reports render fmt f items) \<longrightarrow> n = ls_count s + of_nat (length (received items))"
    using drain_spec by blast
  show ?case
  proof (cases "list_all snd (reports render fmt f items)")
    case True
    with d n Cons.IH [of "advanced s (reports render fmt f items) n"] show ?thesis
      by (auto simp: reports_append received_append through_failure_append advanced_def)
  next
    case False
    with d show ?thesis
      by (auto simp: reports_append through_failure_append advanced_def)
  qed
qed (simp add: reports_def received_def advanced_def)

text \<open>
  C16. The event loop implements its specification: until Ctrl-C it writes exactly the reports
  of the received events that pass the filter, once each and in ring order, however they are
  spread over the timer ticks, and counts all received events; if a report panics it has
  written everything up to that report and nothing after it.
\<close>

theorem event_loop_reports:
  "let rs = reports render fmt f (concat batches);
       (status, s) = event_loop render fmt f (map Timer batches @ CtrlC # ws) loop_init
   in ls_out s = concat (map fst (through_failure rs)) \<and>
      (if list_all snd rs
       then status = Stopped \<and> ls_count s = of_nat (length (received (concat batches)))
       else status = Panicked)"
proof -
  obtain n where "event_loop render fmt f (map Timer batches @ CtrlC # ws) loop_init =
     (if list_all snd (reports render fmt f (concat batches)) then Stopped else Panicked,
      advanced loop_init (reports render fmt f (concat batches)) n)"
    and "list_all snd (reports render fmt f (concat batches)) \<longrightarrow>
        n = ls_count loop_init + of_nat (length (received (concat batches)))"
    using event_loop_spec by blast
  then show ?thesis by (auto simp: advanced_def loop_init_def Let_def)
qed

section \<open>Attaching the kprobes\<close>

text \<open>
  What \<open>aya\<close> documents, over two observations of the object: \<open>loaded\<close>, the programs in the
  kernel, and \<open>attached\<close>, the attachments made. A program is loaded once: loading it again is
  the error \<^verbatim>\<open>AlreadyLoaded\<close>. Neither call undoes what earlier ones did.
\<close>

definition load_once :: "'b aya \<Rightarrow> ('b \<Rightarrow> str set) \<Rightarrow> bool" where
  "load_once ay loaded \<longleftrightarrow>
     (\<forall>p b. p \<in> loaded b \<longrightarrow> \<not> fst (ay_load ay p b)) \<and>
     (\<forall>p b. fst (ay_load ay p b) \<longrightarrow> p \<in> loaded (snd (ay_load ay p b))) \<and>
     (\<forall>p b. loaded b \<subseteq> loaded (snd (ay_load ay p b))) \<and>
     (\<forall>p sym path pid b. loaded b \<subseteq> loaded (snd (ay_attach_uprobe ay p sym path pid b)))"

text \<open>
  A kernel that accepts every program: each is there under its kind, loads the first time and
  attaches once loaded.
\<close>

definition accepting :: "'b aya \<Rightarrow> ('b \<Rightarrow> str set) \<Rightarrow> ('b \<Rightarrow> (str \<times> str) set) \<Rightarrow> bool" where
  "accepting ay loaded attached \<longleftrightarrow>
     (\<forall>b. \<forall>(p, f) \<in> set ATTACH. ay_program ay b p = Some KProbe) \<and>
     (\<forall>p b. p \<notin> loaded b \<longrightarrow> fst (ay_load ay p b)) \<and>
     (\<forall>p b. loaded (snd (ay_load ay p b)) = insert p (loaded b)) \<and>
     (\<forall>p b. attached (snd (ay_load ay p b)) = attached b) \<and>
     (\<forall>p f b. p \<in> loaded b \<longrightarrow> fst (ay_attach_kprobe ay p f b) \<and>
        attached (snd (ay_attach_kprobe ay p f b)) = insert (p, f) (attached b)) \<and>
     (\<forall>p f b. loaded (snd (ay_attach_kprobe ay p f b)) = loaded b)"

lemma acceptingD:
  assumes "accepting ay loaded attached"
  shows "(p, f) \<in> set ATTACH \<Longrightarrow> ay_program ay b p = Some KProbe"
    and "p \<notin> loaded b \<Longrightarrow> fst (ay_load ay p b)"
    and "loaded (snd (ay_load ay p b)) = insert p (loaded b)"
    and "attached (snd (ay_load ay p b)) = attached b"
    and "p \<in> loaded b \<Longrightarrow> fst (ay_attach_kprobe ay p f b)"
    and "p \<in> loaded b \<Longrightarrow> attached (snd (ay_attach_kprobe ay p f b)) = insert (p, f) (attached b)"
    and "loaded (snd (ay_attach_kprobe ay p f b)) = loaded b"
proof -
  note laws = assms [unfolded accepting_def]
  show "(p, f) \<in> set ATTACH \<Longrightarrow> ay_program ay b p = Some KProbe"
    using laws [THEN conjunct1, THEN spec, of b] by auto
  show "p \<notin> loaded b \<Longrightarrow> fst (ay_load ay p b)"
    and "loaded (snd (ay_load ay p b)) = insert p (loaded b)"
    and "attached (snd (ay_load ay p b)) = attached b"
    and "p \<in> loaded b \<Longrightarrow> fst (ay_attach_kprobe ay p f b)"
    and "p \<in> loaded b \<Longrightarrow> attached (snd (ay_attach_kprobe ay p f b)) = insert (p, f) (attached b)"
    and "loaded (snd (ay_attach_kprobe ay p f b)) = loaded b"
    using laws by (simp_all only: simp_thms)
qed

lemma attach_kprobe_accepting:
  assumes "accepting ay loaded attached" and "(p, f) \<in> set ATTACH" and "p \<notin> loaded b"
  shows "\<exists>b'. attach_kprobe ay p f b = (Inr (), b') \<and> loaded b' = insert p (loaded b) \<and>
    attached b' = insert (p, f) (attached b)"
proof -
  note laws = acceptingD [OF assms(1)]
  have kind: "ay_program ay b p = Some KProbe" by (rule laws(1) [OF assms(2)])
  define b1 where "b1 = snd (ay_load ay p b)"
  have l: "fst (ay_load ay p b)" "loaded b1 = insert p (loaded b)" "attached b1 = attached b"
    unfolding b1_def by (rule laws assms(3))+
  define b2 where "b2 = snd (ay_attach_kprobe ay p f b1)"
  have "p \<in> loaded b1" by (simp add: l(2))
  then have "fst (ay_attach_kprobe ay p f b1)" "attached b2 = insert (p, f) (attached b1)" "loaded b2 = loaded b1"
    unfolding b2_def by (simp_all add: laws)
  with kind l show ?thesis
    by (auto simp: attach_kprobe_def with_program_def and_then_def check_def b1_def b2_def split: prod.split)
qed

lemma attach_all_accepting:
  assumes "accepting ay loaded attached"
  shows "set table \<subseteq> set ATTACH \<Longrightarrow> distinct (map fst table) \<Longrightarrow> loaded b \<inter> fst ` set table = {} \<Longrightarrow>
    \<exists>b'. for_each (\<lambda>(p, f). attach_kprobe ay p f) table b = (Inr (), b') \<and>
      attached b' = attached b \<union> set table \<and> loaded b' = loaded b \<union> fst ` set table"
proof (induction table arbitrary: b)
  case (Cons pf table)
  obtain p f where pf: "pf = (p, f)" by (cases pf)
  with Cons.prems have "(p, f) \<in> set ATTACH" "p \<notin> loaded b" by auto
  with attach_kprobe_accepting [OF assms] obtain b1 where b1: "attach_kprobe ay p f b = (Inr (), b1)"
    "loaded b1 = insert p (loaded b)" "attached b1 = insert (p, f) (attached b)" by blast
  have "loaded b1 \<inter> fst ` set table = {}"
    using Cons.prems b1(2) pf by auto
  with Cons.IH [of b1] Cons.prems obtain b2 where
    "for_each (\<lambda>(p, f). attach_kprobe ay p f) table b1 = (Inr (), b2)"
    "attached b2 = attached b1 \<union> set table" "loaded b2 = loaded b1 \<union> fst ` set table"
    by auto
  with b1 pf show ?case by (simp add: and_then_def)
qed simp

lemma ATTACH_distinct: "distinct (map fst ATTACH)"
  by (simp add: ATTACH_def lit_def)

lemma load_and_attach_accepting:
  assumes "accepting ay loaded attached"
    and "h_read h (ebpf_object_path manifest_dir) = Some data"
    and "ay_ebpf_load ay data = Some b" and "loaded b = {}" and "attached b = {}"
    and "\<And>b. fst (ay_take_map ay (lit ''FLOW_EVENTS'') b) = Some True"
    and "\<And>b. loaded (snd (ay_take_map ay (lit ''FLOW_EVENTS'') b)) = loaded b"
    and "\<And>b. attached (snd (ay_take_map ay (lit ''FLOW_EVENTS'') b)) = attached b"
  shows "\<exists>b'. load_and_attach ay h manifest_dir = Inr b' \<and> attached b' = set ATTACH \<and>
    loaded b' = fst ` set ATTACH"
proof -
  from attach_all_accepting [OF assms(1) subset_refl ATTACH_distinct, of b] assms(4,5)
  obtain b1 where "for_each (\<lambda>(p, f). attach_kprobe ay p f) ATTACH b = (Inr (), b1)"
    "attached b1 = set ATTACH" "loaded b1 = fst ` set ATTACH" by auto
  moreover have "take_ring ay b1 = (Inr (), snd (ay_take_map ay (lit ''FLOW_EVENTS'') b1))"
    using assms(6) [of b1] by (auto simp: take_ring_def split: prod.split option.split)
  ultimately show ?thesis
    using assms(2,3,7,8) by (auto simp: load_and_attach_def and_then_def)
qed

end
