(* ===== verification/TlsAttach.thy ===== *)
theory TlsAttach
  imports Loader
begin

text \<open>
  \<^verbatim>\<open>flow-sensor/src/tls_attach.rs\<close>: finding \<^verbatim>\<open>libssl\<close> on the machine \<open>host\<close> and attaching
  the four uprobes through the library \<open>ay\<close>.
\<close>

definition TLS_EBPF_PROGRAMS :: "str list" where
  "TLS_EBPF_PROGRAMS =
     [lit ''ssl_write_entry'', lit ''ssl_write_return'', lit ''ssl_read_entry'', lit ''ssl_read_return'']"

subsection \<open>The ELF inspection\<close>

fun assert_programs :: "(str \<Rightarrow> nat option option) \<Rightarrow> str list \<Rightarrow> error + unit" where
  "assert_programs prog [] = Inr ()"
| "assert_programs prog (name # names) =
     (case prog name of
        None \<Rightarrow> Inl (NoProgram name)
      | Some None \<Rightarrow> Inl (NoFunction name)
      | Some (Some n) \<Rightarrow> if n = 0 then Inl (NoInstructions name) else assert_programs prog names)"

definition assert_tls_programs_non_empty_elf :: "'b aya \<Rightarrow> host \<Rightarrow> str \<Rightarrow> error + unit" where
  "assert_tls_programs_non_empty_elf ay h so_path =
     (case h_read h so_path of None \<Rightarrow> Inl ReadObject | Some data \<Rightarrow>
      (case ay_object ay data of None \<Rightarrow> Inl ParseObject | Some prog \<Rightarrow>
        assert_programs prog TLS_EBPF_PROGRAMS))"

subsection \<open>Loading and attaching\<close>

text \<open>\<^verbatim>\<open>pid as i32\<close> keeps the bits.\<close>

definition attach_ssl_symbol :: "'b aya \<Rightarrow> str \<Rightarrow> str \<Rightarrow> str \<Rightarrow> u32 option \<Rightarrow> 'b act" where
  "attach_ssl_symbol ay prog_name symbol path pid =
     with_program ay UProbe prog_name
       (and_then (check (LoadFailed prog_name) (ay_load ay prog_name))
                 (check (AttachFailed prog_name symbol) (ay_attach_uprobe ay prog_name symbol path pid)))"

definition load_tls_programs :: "'b aya \<Rightarrow> 'b act" where
  "load_tls_programs ay =
     for_each (\<lambda>prog_name. with_program ay UProbe prog_name
       (check (LoadFailed prog_name) (ay_load ay prog_name))) TLS_EBPF_PROGRAMS"

definition PAIRS :: "(str \<times> str) list" where
  "PAIRS = [(lit ''ssl_write_entry'', lit ''SSL_write''), (lit ''ssl_write_return'', lit ''SSL_write''),
            (lit ''ssl_read_entry'', lit ''SSL_read''), (lit ''ssl_read_return'', lit ''SSL_read'')]"

subsection \<open>Finding the library\<close>

definition LIBSSL_PATHS :: "str list" where
  "LIBSSL_PATHS = map lit [
     ''/usr/lib/x86_64-linux-gnu/libssl.so.3'',
     ''/usr/lib/x86_64-linux-gnu/libssl.so.1.1'',
     ''/usr/lib/aarch64-linux-gnu/libssl.so.3'',
     ''/lib/x86_64-linux-gnu/libssl.so.3'',
     ''/usr/lib64/libssl.so.3'',
     ''/usr/lib/libssl.so.3'']"

definition ldconfig_path :: "host \<Rightarrow> str \<Rightarrow> str option" where
  "ldconfig_path h line =
     (if str_contains line (lit ''libssl.so'') then
        (case nth_opt (split_str (lit ''=>'') line) 1 of
           None \<Rightarrow> None
         | Some path \<Rightarrow> let path = trim path in if h_exists h path then Some path else None)
      else None)"

fun first_some :: "('a \<Rightarrow> 'c option) \<Rightarrow> 'a list \<Rightarrow> 'c option" where
  "first_some f [] = None"
| "first_some f (x # xs) = (case f x of None \<Rightarrow> first_some f xs | Some y \<Rightarrow> Some y)"

definition find_libssl :: "host \<Rightarrow> error + str" where
  "find_libssl h =
     (case Option.bind (h_ldconfig h) (\<lambda>out. first_some (ldconfig_path h) (str_lines (from_utf8_lossy out))) of
        Some path \<Rightarrow> Inr path
      | None \<Rightarrow>
          (case find (h_exists h) LIBSSL_PATHS of
             Some path \<Rightarrow> Inr path
           | None \<Rightarrow> Inl NoLibssl))"

definition maps_path :: "host \<Rightarrow> str \<Rightarrow> str option" where
  "maps_path h line =
     (if str_contains line (lit ''libssl'') then
        (let ws = split_whitespace line in
         if ws = [] then None
         else let path = last ws in
           if starts_with path (lit ''['') then None
           else if h_exists h path then Some path else None)
      else None)"

definition find_libssl_for_pid :: "host \<Rightarrow> u32 \<Rightarrow> str option" where
  "find_libssl_for_pid h pid =
     (case read_to_string h (proc_file pid (lit ''/maps'')) of
        None \<Rightarrow> None
      | Some maps \<Rightarrow> first_some (maps_path h) (str_lines maps))"

definition INTERESTING_PROCS :: "str list" where
  "INTERESTING_PROCS = map lit [''envoy'', ''nginx'', ''squid'', ''haproxy'', ''python3'', ''python'',
     ''node'', ''java'', ''curl'', ''wget'']"

definition interesting_process :: "host \<Rightarrow> bytes \<Rightarrow> (u32 \<times> str \<times> str) option" where
  "interesting_process h name =
     Option.bind (parse_uint 32 (from_utf8_lossy name)) (\<lambda>n.
     let pid = of_nat n in
     Option.bind (read_to_string h (proc_file pid (lit ''/comm''))) (\<lambda>comm.
     let comm = trim comm in
     if list_ex (str_contains comm) INTERESTING_PROCS
     then map_option (\<lambda>ssl_path. (pid, comm, ssl_path)) (find_libssl_for_pid h pid)
     else None))"

definition find_interesting_processes :: "host \<Rightarrow> (u32 \<times> str \<times> str) list" where
  "find_interesting_processes h =
     (case h_read_dir h (lit ''/proc'') of
        None \<Rightarrow> []
      | Some entries \<Rightarrow> List.map_filter (interesting_process h) entries)"

subsection \<open>The whole attachment\<close>

definition attach_pairs :: "'b aya \<Rightarrow> str \<Rightarrow> u32 option \<Rightarrow> 'b act" where
  "attach_pairs ay path pid = for_each (\<lambda>(prog, symbol). attach_ssl_symbol ay prog symbol path pid) PAIRS"

definition attach_pid :: "'b aya \<Rightarrow> host \<Rightarrow> u32 \<Rightarrow> 'b act" where
  "attach_pid ay h pid b =
     (case find_libssl_for_pid h pid of
        None \<Rightarrow> (Inr (), b)
      | Some path \<Rightarrow> attach_pairs ay path (Some pid) b)"

definition attach_targets :: "'b aya \<Rightarrow> host \<Rightarrow> u32 list \<Rightarrow> 'b act" where
  "attach_targets ay h pids b =
     (if pids \<noteq> [] then for_each (attach_pid ay h) pids b
      else (case find_libssl h of
              Inl e \<Rightarrow> (Inl e, b)
            | Inr path \<Rightarrow> attach_pairs ay path None b))"

definition attach_tls_probes :: "'b aya \<Rightarrow> host \<Rightarrow> str \<Rightarrow> u32 list \<Rightarrow> 'b act" where
  "attach_tls_probes ay h manifest_dir pids b =
     (case assert_tls_programs_non_empty_elf ay h (ebpf_object_path manifest_dir) of
        Inl e \<Rightarrow> (Inl e, b)
      | Inr _ \<Rightarrow> and_then (load_tls_programs ay) (attach_targets ay h pids) b)"

section \<open>The second load\<close>

lemma check_Inr: "check err call b = (Inr (), b') \<longleftrightarrow> fst (call b) \<and> b' = snd (call b)"
  by (auto simp: check_def split: prod.split)

lemma and_then_Inr: "and_then m m' b = (Inr (), b') \<longleftrightarrow> (\<exists>b1. m b = (Inr (), b1) \<and> m' b1 = (Inr (), b'))"
  by (auto simp: and_then_def split: prod.split sum.split)

lemma with_program_Inr:
  "with_program ay kind prog m b = (Inr (), b') \<longleftrightarrow> ay_program ay b prog = Some kind \<and> m b = (Inr (), b')"
  by (auto simp: with_program_def split: option.split)

text \<open>A program that is in the kernel already cannot be attached this way.\<close>

lemma attach_loaded_fails:
  assumes "load_once ay loaded" and "prog \<in> loaded b"
  shows "fst (attach_ssl_symbol ay prog symbol path pid b) \<noteq> Inr ()"
proof
  assume "fst (attach_ssl_symbol ay prog symbol path pid b) = Inr ()"
  then obtain b' where "attach_ssl_symbol ay prog symbol path pid b = (Inr (), b')"
    by (cases "attach_ssl_symbol ay prog symbol path pid b") auto
  then have "fst (ay_load ay prog b)"
    by (auto simp: attach_ssl_symbol_def with_program_Inr and_then_Inr check_Inr)
  with assms show False by (simp add: load_once_def)
qed

lemma attach_pairs_fails:
  assumes "load_once ay loaded" and "lit ''ssl_write_entry'' \<in> loaded b"
  shows "fst (attach_pairs ay path pid b) \<noteq> Inr ()"
  using attach_loaded_fails [OF assms, of "lit ''SSL_write''" path pid]
  by (auto simp: attach_pairs_def PAIRS_def and_then_def split: prod.split sum.split)

lemma load_grows:
  assumes "load_once ay loaded"
    and "for_each (\<lambda>p. with_program ay UProbe p (check (LoadFailed p) (ay_load ay p))) ps b = (Inr (), b')"
  shows "set ps \<union> loaded b \<subseteq> loaded b'"
  using assms(2)
proof (induction ps arbitrary: b)
  case (Cons p ps)
  then obtain b1 where b1: "fst (ay_load ay p b)" "b1 = snd (ay_load ay p b)"
    and rest: "for_each (\<lambda>p. with_program ay UProbe p (check (LoadFailed p) (ay_load ay p))) ps b1 = (Inr (), b')"
    by (auto simp: and_then_Inr with_program_Inr check_Inr)
  have "insert p (loaded b) \<subseteq> loaded b1"
    using assms(1) b1 by (simp add: load_once_def)
  with Cons.IH [OF rest] show ?case by auto
qed simp

lemma attach_pids_none:
  assumes "load_once ay loaded" and "lit ''ssl_write_entry'' \<in> loaded b"
    and "for_each (attach_pid ay h) pids b = (Inr (), b')"
  shows "\<forall>pid \<in> set pids. find_libssl_for_pid h pid = None"
  using assms(2,3)
proof (induction pids arbitrary: b)
  case (Cons pid pids)
  then obtain b1 where b1: "attach_pid ay h pid b = (Inr (), b1)"
    and rest: "for_each (attach_pid ay h) pids b1 = (Inr (), b')"
    by (auto simp: and_then_Inr)
  have none: "find_libssl_for_pid h pid = None"
  proof (rule ccontr)
    assume "find_libssl_for_pid h pid \<noteq> None"
    with b1 attach_pairs_fails [OF assms(1) Cons.prems(1)] show False
      by (auto simp: attach_pid_def) (metis fst_conv)
  qed
  with b1 have "b1 = b" by (simp add: attach_pid_def)
  with none Cons.IH [OF _ rest] Cons.prems(1) show ?case by simp
qed simp

lemma attach_tls_Inr:
  assumes "load_once ay loaded" and "attach_tls_probes ay h manifest_dir pids b = (Inr (), b')"
  shows "pids \<noteq> [] \<and> (\<forall>pid \<in> set pids. find_libssl_for_pid h pid = None)"
proof -
  from assms(2) obtain b1 where b1: "load_tls_programs ay b = (Inr (), b1)"
    and targets: "attach_targets ay h pids b1 = (Inr (), b')"
    by (auto simp: attach_tls_probes_def and_then_Inr split: sum.splits)
  have loaded: "lit ''ssl_write_entry'' \<in> loaded b1"
    using load_grows [OF assms(1) b1 [unfolded load_tls_programs_def]]
    by (simp add: TLS_EBPF_PROGRAMS_def)
  show ?thesis
  proof (cases "pids = []")
    case True
    with targets attach_pairs_fails [OF assms(1) loaded] have False
      by (auto simp: attach_targets_def split: sum.splits) (metis fst_conv)
    then show ?thesis ..
  next
    case False
    with targets attach_pids_none [OF assms(1) loaded] show ?thesis
      by (simp add: attach_targets_def)
  qed
qed

text \<open>
  A library that keeps the lists of loaded programs and of attachments, and a machine with only
  the object file.
\<close>

type_synonym programs = "str list \<times> (str \<times> str) list"

definition list_aya :: "programs aya" where
  "list_aya = \<lparr>ay_ebpf_load = (\<lambda>_. Some ([], [])),
     ay_program = (\<lambda>_ p. Some (if p \<in> set TLS_EBPF_PROGRAMS then UProbe else KProbe)),
     ay_load = (\<lambda>p b. (p \<notin> set (fst b), if p \<in> set (fst b) then b else (p # fst b, snd b))),
     ay_attach_kprobe = (\<lambda>p f b. (p \<in> set (fst b), (fst b, (p, f) # snd b))),
     ay_attach_uprobe = (\<lambda>p symbol path pid b. (p \<in> set (fst b), (fst b, (p, symbol) # snd b))),
     ay_take_map = (\<lambda>_ b. (Some True, b)), ay_object = (\<lambda>_. Some (\<lambda>_. Some (Some 12)))\<rparr>"

lemma list_aya_load_once: "load_once list_aya (set \<circ> fst)"
  by (auto simp: load_once_def list_aya_def)

lemma tables_disjoint: "list_all (\<lambda>p. p \<notin> set TLS_EBPF_PROGRAMS) (map fst ATTACH)"
  by (simp add: ATTACH_def TLS_EBPF_PROGRAMS_def lit_def)

lemma list_aya_accepting: "accepting list_aya (set \<circ> fst) (set \<circ> snd)"
proof -
  have "p \<notin> set TLS_EBPF_PROGRAMS" if "(p, f) \<in> set ATTACH" for p f
    using that tables_disjoint by (force simp: list_all_iff)
  then show ?thesis by (auto simp: accepting_def list_aya_def)
qed

definition object_host :: host where
  "object_host = bare_host\<lparr>h_read := (\<lambda>p. if p = ebpf_object_path [] then Some [] else None)\<rparr>"

lemma object_host_maps: "find_libssl_for_pid object_host pid = None"
proof -
  have "proc_file pid (lit ''/maps'') \<noteq> ebpf_object_path []"
    by (simp add: proc_file_def ebpf_object_path_def lit_def)
  then show ?thesis by (simp add: find_libssl_for_pid_def read_to_string_def object_host_def)
qed

lemma object_host_tls:
  assumes "set TLS_EBPF_PROGRAMS \<inter> set (fst b) = {}"
  shows "fst (attach_tls_probes list_aya object_host [] [7] b) = Inr ()"
proof -
  have load: "for_each (\<lambda>p. with_program list_aya UProbe p (check (LoadFailed p) (ay_load list_aya p))) ps b =
      (Inr (), (rev ps @ fst b, snd b))"
    if "set ps \<subseteq> set TLS_EBPF_PROGRAMS" "distinct ps" "set ps \<inter> set (fst b) = {}" for ps b
    using that
  proof (induction ps arbitrary: b)
    case (Cons p ps)
    then show ?case
      by (auto simp: and_then_def with_program_def check_def list_aya_def)
  qed simp
  have "distinct TLS_EBPF_PROGRAMS" by (simp add: TLS_EBPF_PROGRAMS_def lit_def)
  with load [OF subset_refl _ assms] have "load_tls_programs list_aya b = (Inr (), (rev TLS_EBPF_PROGRAMS @ fst b, snd b))"
    by (simp add: load_tls_programs_def)
  moreover have "assert_tls_programs_non_empty_elf list_aya object_host (ebpf_object_path []) = Inr ()"
    by (simp add: assert_tls_programs_non_empty_elf_def object_host_def list_aya_def TLS_EBPF_PROGRAMS_def)
  ultimately show ?thesis
    by (simp add: attach_tls_probes_def and_then_def attach_targets_def attach_pid_def object_host_maps)
qed

section \<open>The libraries found\<close>

lemma first_some_Some: "first_some f xs = Some y \<Longrightarrow> \<exists>x \<in> set xs. f x = Some y"
  by (induction xs) (auto split: option.splits)

text \<open>
  Every library path the daemon decides to attach to exists at that moment, whether it
  comes from the linker cache, the list of usual places or the memory map of a process, and a
  path from a memory map is never one of the kernel's bracketed pseudo paths.
\<close>

theorem found_library_exists:
  "(case find_libssl h of
      Inl e \<Rightarrow> e = NoLibssl \<and> \<not> list_ex (h_exists h) LIBSSL_PATHS
    | Inr path \<Rightarrow> h_exists h path) \<and>
   (case find_libssl_for_pid h pid of
      None \<Rightarrow> True
    | Some path \<Rightarrow> h_exists h path \<and> \<not> starts_with path (lit ''[''))"
proof
  have ld: "h_exists h path" if "ldconfig_path h line = Some path" for line path
    using that by (auto simp: ldconfig_path_def Let_def split: if_splits option.splits)
  have maps: "h_exists h path \<and> \<not> starts_with path (lit ''['')" if "maps_path h line = Some path" for line path
    using that by (auto simp: maps_path_def Let_def split: if_splits)
  show "case find_libssl h of
      Inl e \<Rightarrow> e = NoLibssl \<and> \<not> list_ex (h_exists h) LIBSSL_PATHS | Inr path \<Rightarrow> h_exists h path"
    using first_some_Some [of "ldconfig_path h"]
    by (auto simp: find_libssl_def bind_eq_Some_conv find_Some_iff find_None_iff list_ex_iff
        split: option.split dest: ld)
  show "case find_libssl_for_pid h pid of
      None \<Rightarrow> True | Some path \<Rightarrow> h_exists h path \<and> \<not> starts_with path (lit ''['')"
    using first_some_Some [of "maps_path h"]
    by (auto simp: find_libssl_for_pid_def split: option.split dest: maps)
qed

end
