(* ===== verification/Daemon.thy ===== *)
theory Daemon
  imports SensorProps Ledger TlsAttach
begin

text \<open>
  \<^verbatim>\<open>main\<close> of \<^verbatim>\<open>flow-sensor/src/main.rs\<close>, and the properties that span the kernel side and
  userspace: from a row of the flow table to the line on the console.
\<close>

subsection \<open>The program\<close>

datatype outcome = NotRoot | StartFailed error | Ran loop_end

text \<open>
  \<open>is_root\<close> is the result of \<^verbatim>\<open>getuid\<close>; the text is what goes to standard output, log messages
  left out.
\<close>

definition main ::
  "'b aya \<Rightarrow> host \<Rightarrow> str \<Rightarrow> (json \<Rightarrow> str) \<Rightarrow> bool \<Rightarrow> Args \<Rightarrow> wakeup list \<Rightarrow> outcome \<times> str" where
  "main ay h manifest_dir render is_root args ws =
     (if \<not> is_root then (NotRoot, []) else
      case load_and_attach ay h manifest_dir of Inl e \<Rightarrow> (StartFailed e, []) | Inr b \<Rightarrow>
      (case (if ar_tls args then attach_tls_probes ay h manifest_dir (tls_pids args) b else (Inr (), b)) of
         (Inl e, _) \<Rightarrow> (StartFailed e, [])
       | (Inr _, _) \<Rightarrow>
           (let (status, s) = event_loop render (ar_output args) (event_filter args) ws loop_init
            in (Ran status, print_header (ar_output args) @ ls_out s))))"

text \<open>
  C7. With TLS probes on, as they are by default, the daemon can only start when process ids
  are given and none of these processes maps \<^verbatim>\<open>libssl\<close>; in particular it never starts with the
  default options, whatever the machine.
\<close>

theorem daemon_never_starts_with_tls:
  assumes "load_once ay loaded" and "ar_tls args"
    and "fst (main ay h manifest_dir render is_root args ws) = Ran status"
  shows "tls_pids args \<noteq> [] \<and> (\<forall>pid \<in> set (tls_pids args). find_libssl_for_pid h pid = None)"
proof -
  from assms(2,3) obtain b b' where "attach_tls_probes ay h manifest_dir (tls_pids args) b = (Inr (), b')"
    by (auto simp: main_def split: if_splits sum.splits prod.splits)
  then show ?thesis by (rule attach_tls_Inr [OF assms(1)])
qed

subsection \<open>Every probe has a program\<close>

fun program_name :: "hook \<Rightarrow> string" where
  "program_name TcpConnect = ''tcp_connect''"
| "program_name InetCskAccept = ''inet_csk_accept''"
| "program_name TcpClose = ''tcp_close''"
| "program_name TcpSendActiveReset = ''tcp_send_active_reset''"
| "program_name TcpSendmsg = ''tcp_sendmsg''"
| "program_name TcpRecvmsgEntry = ''tcp_recvmsg_entry''"
| "program_name TcpRecvmsg = ''tcp_recvmsg''"
| "program_name TcpRcvEstablished = ''tcp_rcv_established''"
| "program_name TcpEnterCwr = ''tcp_enter_cwr''"
| "program_name TcpEnterLoss = ''tcp_enter_loss''"
| "program_name TcpEnterRecovery = ''tcp_enter_recovery''"
| "program_name TcpRetransmitSkb = ''tcp_retransmit_skb''"
| "program_name TcpSendLossProbe = ''tcp_send_loss_probe''"
| "program_name TcpFastRetransmit = ''tcp_fast_retransmit''"
| "program_name TcpSacktag = ''tcp_sacktag''"
| "program_name OnNewTask = ''on_new_task''"
| "program_name OnExit = ''on_exit''"
| "program_name SslWriteEntry = ''ssl_write_entry''"
| "program_name SslWriteReturn = ''ssl_write_return''"
| "program_name SslReadEntry = ''ssl_read_entry''"
| "program_name SslReadReturn = ''ssl_read_return''"

definition hook_kind :: "hook \<Rightarrow> prog_kind" where
  "hook_kind hk = (if hk \<in> {SslWriteEntry, SslWriteReturn, SslReadEntry, SslReadReturn} then UProbe else KProbe)"

lemma kprobe_in_table: "hook_kind hk = KProbe \<Longrightarrow> \<exists>f. (lit (program_name hk), f) \<in> set ATTACH"
proof -
  let ?names = "[''tcp_connect'', ''inet_csk_accept'', ''tcp_close'', ''tcp_send_active_reset'', ''tcp_sendmsg'',
    ''tcp_recvmsg_entry'', ''tcp_recvmsg'', ''tcp_rcv_established'', ''tcp_enter_cwr'', ''tcp_enter_loss'',
    ''tcp_enter_recovery'', ''tcp_retransmit_skb'', ''tcp_send_loss_probe'', ''tcp_fast_retransmit'',
    ''tcp_sacktag'', ''on_new_task'', ''on_exit'']"
  assume "hook_kind hk = KProbe"
  then have "hk \<notin> {SslWriteEntry, SslWriteReturn, SslReadEntry, SslReadReturn}"
    by (auto simp: hook_kind_def)
  then have "program_name hk \<in> set ?names"
    by (cases hk) simp_all
  then have "lit (program_name hk) \<in> set (map lit ?names)" by (simp only: set_map imageI)
  moreover have "map fst ATTACH = map lit ?names" by (simp add: ATTACH_def)
  ultimately have "lit (program_name hk) \<in> fst ` set ATTACH" by (simp only: set_map [symmetric])
  then obtain pf where "pf \<in> set ATTACH" "lit (program_name hk) = fst pf" by (rule imageE)
  then show ?thesis by (intro exI [of _ "snd pf"]) simp
qed

text \<open>
  C34. On a kernel that accepts the programs, starting attaches every kprobe of the sensor, each
  program once, and the result is exactly the attachment table; the table never asks the
  library for a second load.
\<close>

theorem every_kprobe_attached:
  assumes "accepting ay loaded attached"
    and "h_read h (ebpf_object_path manifest_dir) = Some data"
    and "ay_ebpf_load ay data = Some b" and "loaded b = {}" and "attached b = {}"
    and "\<And>b. fst (ay_take_map ay (lit ''FLOW_EVENTS'') b) = Some True"
    and "\<And>b. loaded (snd (ay_take_map ay (lit ''FLOW_EVENTS'') b)) = loaded b"
    and "\<And>b. attached (snd (ay_take_map ay (lit ''FLOW_EVENTS'') b)) = attached b"
  shows "\<exists>b'. load_and_attach ay h manifest_dir = Inr b' \<and> attached b' = set ATTACH \<and>
    (\<forall>hk. hook_kind hk = KProbe \<longrightarrow> (\<exists>f. (lit (program_name hk), f) \<in> attached b'))"
  using load_and_attach_accepting [OF assms] kprobe_in_table by auto

lemma object_read: "h_read object_host (ebpf_object_path []) = Some []"
  by (simp add: object_host_def)

theorem every_kprobe_attached_witness:
  "\<exists>b'. load_and_attach list_aya object_host [] = Inr b' \<and> (set \<circ> snd) b' = set ATTACH \<and>
    (\<forall>hk. hook_kind hk = KProbe \<longrightarrow> (\<exists>f. (lit (program_name hk), f) \<in> (set \<circ> snd) b'))"
  by (rule every_kprobe_attached [OF list_aya_accepting object_read, of "([], [])"]) (simp_all add: list_aya_def)

theorem daemon_never_starts_with_tls_witness:
  "\<exists>args. ar_tls args \<and>
     fst (main list_aya object_host [] (\<lambda>_. []) True args []) = Ran Waiting \<and>
     tls_pids args \<noteq> [] \<and> (\<forall>pid \<in> set (tls_pids args). find_libssl_for_pid object_host pid = None)"
proof -
  define args where "args = default_args\<lparr>ar_tls_pids := [0x37]\<rparr>"
  have pids: "tls_pids args = [7]"
    using map_filter_pieces [of 32 "[(0, 7, 0)]"] by (simp add: args_def tls_pids_def parse_list_def dec.simps)
  have tls: "ar_tls args" by (simp add: args_def default_args_def)
  obtain b where b: "load_and_attach list_aya object_host [] = Inr b" "set (fst b) = fst ` set ATTACH"
    using load_and_attach_accepting [OF list_aya_accepting object_read, of "([], [])"] by (auto simp: list_aya_def)
  have "set TLS_EBPF_PROGRAMS \<inter> fst ` set ATTACH = {}"
    using tables_disjoint by (auto simp: list_all_iff)
  then have "fst (attach_tls_probes list_aya object_host [] [7] b) = Inr ()"
    using b(2) by (intro object_host_tls) simp
  then have run: "fst (main list_aya object_host [] (\<lambda>_. []) True args []) = Ran Waiting"
    using b(1) tls by (auto simp: main_def pids split: prod.split)
  from daemon_never_starts_with_tls [OF list_aya_load_once tls run] tls run show ?thesis by blast
qed

section \<open>From the ring buffer to the console\<close>

text \<open>The arrays of an emitted event have their sizes, its control group is empty.\<close>

lemma kernel_event:
  assumes "reach Q t s" and "e \<in> set (flow_events s)"
  shows "wf_event e" and "ev_cgroup e = replicate CGROUP_LEN 0" and "ev_ppid e = 0"
    and "ev_close_reason e = CloseReason_u8 LocalClose"
proof -
  obtain key st now e0 where "e = fill_event key st now e0" "buffers_ok st"
    by (rule buffers.reach_event [OF reach_any [OF assms(1)] assms(2)]) auto
  then show "wf_event e" "ev_cgroup e = replicate CGROUP_LEN 0" "ev_ppid e = 0"
    "ev_close_reason e = CloseReason_u8 LocalClose"
    by (simp_all add: wf_event_def buffers_ok_def wf_state_def)
qed

definition ring_items :: "host list \<Rightarrow> (nat \<Rightarrow> nat \<Rightarrow> u8) \<Rightarrow> FlowEvent list \<Rightarrow> (host \<times> bytes) list" where
  "ring_items hosts pad es = zip hosts (map (encode_event pad) es)"

lemma received_ring_items:
  assumes "list_all wf_event es"
  shows "received (ring_items hosts pad es) = zip hosts es"
  using assms
proof (induction es arbitrary: hosts)
  case (Cons e es)
  then show ?case
    using wire_decodes [of e pad "[]"] length_encode_event [of e pad]
    by (cases hosts) (simp_all add: ring_items_def received_def)
qed (simp add: ring_items_def received_def)

lemma reports_ring_items:
  assumes "reach Q t s"
  shows "reports render fmt f (ring_items hosts pad (flow_events s)) =
    map (\<lambda>(h, e). report h render fmt e) (filter (\<lambda>(h, e). matches f e) (zip hosts (flow_events s)))"
proof -
  have "list_all wf_event (flow_events s)" using kernel_event(1) [OF assms] by (simp add: list_all_iff)
  then show ?thesis by (simp add: reports_def received_ring_items)
qed

lemma through_failure_all: "list_all snd rs \<Longrightarrow> through_failure rs = rs"
  by (induction rs) auto

text \<open>
  C4. The pipeline from the close hook to the console: whatever the programs emitted in any
  run, put into the ring buffer with any padding bytes and read back by the event loop over any
  sequence of timer ticks until Ctrl-C, the output consists of the reports of exactly those
  events that pass the filter, once each, in the order of closing, up to and including the first
  report that panics; the loop stops regularly, after all of them, when none panics.
\<close>

theorem kernel_log_printed:
  assumes "reach Q t s" and "concat batches = ring_items hosts pad (flow_events s)"
  shows "let rs = map (\<lambda>(h, e). report h render fmt e) (filter (\<lambda>(h, e). matches f e) (zip hosts (flow_events s)));
      (status, final) = event_loop render fmt f (map Timer batches @ CtrlC # ws) loop_init
    in (if list_all snd rs then status = Stopped \<and> ls_out final = concat (map fst rs)
        else status = Panicked \<and> ls_out final = concat (map fst (through_failure rs)))"
proof -
  obtain n where "event_loop render fmt f (map Timer batches @ CtrlC # ws) loop_init =
     (if list_all snd (reports render fmt f (concat batches)) then Stopped else Panicked,
      advanced loop_init (reports render fmt f (concat batches)) n)"
    using event_loop_spec by blast
  then show ?thesis
    by (simp add: assms(2) reports_ring_items [OF assms(1)] advanced_def loop_init_def
        through_failure_all Let_def)
qed

theorem kernel_log_printed_witness:
  "let rs = map (\<lambda>(h, e). report h (\<lambda>_. [0x7B, 0x7D]) (lit ''json'') e)
        (filter (\<lambda>(h, e). matches (event_filter default_args) e) (zip [bare_host] (flow_events (demo_end 6))));
      (status, final) = event_loop (\<lambda>_. [0x7B, 0x7D]) (lit ''json'') (event_filter default_args)
        (map Timer [[], ring_items [bare_host] (\<lambda>_ _. 0) (flow_events (demo_end 6))] @ CtrlC # []) loop_init
    in (if list_all snd rs then status = Stopped \<and> ls_out final = concat (map fst rs)
        else status = Panicked \<and> ls_out final = concat (map fst (through_failure rs)))"
  by (rule kernel_log_printed [OF demo_reach(1)]) simp

section \<open>What userspace can say about a kernel event\<close>

fun jget :: "str \<Rightarrow> json \<Rightarrow> json option" where
  "jget k (JObj kvs) = map_of kvs k"
| "jget k _ = None"

text \<open>
  C33. No program ever fills in the control group or the parent process of an event, and the daemon
  does not show those fields: for every emitted event the Kubernetes identity comes from
  \<^verbatim>\<open>/proc/pid/cgroup\<close> and the parent shown in the JSON from \<^verbatim>\<open>/proc/pid/status\<close>, both as they are
  when the event is printed (the enrichment panics exactly when that control group file makes it).
\<close>

theorem kernel_events_use_proc:
  assumes "reach Q t s" and "e \<in> set (flow_events s)"
  shows "ev_cgroup e = replicate CGROUP_LEN 0 \<and> ev_ppid e = 0 \<and>
    (case enrich h e of
       None \<Rightarrow> parse_k8s_cgroup (unwrap_or (read_to_string h (proc_file (ev_pid e) (lit ''/cgroup''))) []) = None
     | Some flow \<Rightarrow>
         parse_k8s_cgroup (unwrap_or (read_to_string h (proc_file (ev_pid e) (lit ''/cgroup''))) []) =
           Some (en_k8s_pod flow, en_k8s_namespace flow, en_k8s_container flow) \<and>
         jget (lit ''k8s'') (flow_json flow) = Some (k8s_json flow) \<and>
         jget (lit ''ppid'') (flow_json flow) = Some (JOpt JWord
           (Option.bind (read_to_string h (proc_file (ev_pid e) (lit ''/status''))) status_ppid)))"
proof -
  have "buf_str 0 [] (ev_cgroup e) = []"
    by (simp add: kernel_event(2) [OF assms] buf_str_def from_utf8_def utf8_valid.simps CGROUP_LEN_def numeral_eq_Suc)
  then show ?thesis
    by (auto simp: enrich_def resolve_cgroup_def resolve_proc_def kernel_event(2,3) [OF assms] flow_json_def
        lit_def Let_def split: option.split prod.split)
qed

theorem kernel_events_use_proc_witness:
  "\<exists>e flow. flow_events (demo_end 6) = [e] \<and> enrich bare_host e = Some flow \<and>
     jget (lit ''ppid'') (flow_json flow) = Some (JOpt JWord (None :: u32 option))"
proof -
  let ?e = "fill_event (demo_key 6) (demo_row 6) 300 zeroed_FlowEvent"
  have "parse_k8s_cgroup [] = Some (None, None, None)" by (simp add: parse_k8s_cgroup_def str_lines_def)
  then show ?thesis
    using kernel_events_use_proc [OF demo_reach(1) [of 6], of ?e bare_host]
    by (auto simp: demo_events read_to_string_def bare_host_def split: option.splits)
qed

section \<open>A connection seen to its end\<close>

lemma row_opened_direction:
  assumes "kern_ok k" and "opens_under h k p = Some (key, d)"
    and "op_insert (kc_flow k) (flow_table s) key EMPTY_FLOW_STATE = Inr m" and "run_hook h k p s = Some (r, s')"
  obtains st where "flow_table s' key = Some st" "st_direction st = FlowDirection_u8 d"
proof -
  have row: "m key = Some EMPTY_FLOW_STATE"
    using kern_okD(6) [OF assms(1)] assms(3) unfolding lru_ok_def by blast
  have "flow_table s' key = Some (fill_new_flow_state k (causal_map s) (FlowDirection_u8 d) EMPTY_FLOW_STATE)"
    unfolding opens_by_init(1) [OF assms(2,4)] by (simp add: init_flow_row_def assms(3) row Let_def)
  then show ?thesis by (rule that) (simp add: fill_new_flow_state_def Let_def split: option.split)
qed

lemma close_emits:
  assumes "sock_key k p = Some key" and "flow_table s key = Some st" and "kc_ring_reserve k = Some e0"
    and "run_hook TcpClose k p s = Some (r, s')"
  shows "flow_events s' = flow_events s @ [fill_event key st (kc_ktime k 0) e0]"
proof -
  from assms(1) obtain sk where "arg0_ptr p = Some sk" "flow_key_from_sock (kc_kread k) sk = Some key"
    by (auto simp: sock_key_def bind_eq_Some_conv)
  with assms(2-4) show ?thesis
    by (auto simp: tcp_close_def handle_tcp_close_def Let_def probe_ret_def split: sum.splits)
qed

text \<open>
  C32. What the JSON output says about a connection seen from its opening to its close, whatever
  programs run in between that leave its row in the table: the protocol is always TCP and the
  close reason always a local close, whatever happened to the connection; the direction is
  outbound for a connection opened by \<^verbatim>\<open>tcp_connect\<close> and inbound for one opened by
  \<^verbatim>\<open>inet_csk_accept\<close>, and agrees with the pretty output; the TLS and HTTP objects are null
  exactly when the flags are not set.
\<close>

theorem kernel_event_json:
  assumes "kern_ok k0" and "opens_under h k0 p0 = Some (key, d)"
    and "op_insert (kc_flow k0) (flow_table s0) key EMPTY_FLOW_STATE = Inr m"
    and "run_hook h k0 p0 s0 = Some (r0, s1)" and "along (leaves_row key) xs s1" and "play xs s1 = Some s2"
    and "reach Q t s2" and "sock_key k p = Some key" and "kc_ring_reserve k = Some e0"
    and "run_hook TcpClose k p s2 = Some (r, s3)" and "en_event flow = last (flow_events s3)"
  shows "jget (lit ''protocol'') (flow_json flow) = Some (JStr (lit ''TCP'')) \<and>
    jget (lit ''close_reason'') (flow_json flow) = Some (JStr (lit ''local_close'')) \<and>
    jget (lit ''direction'') (flow_json flow) =
      Some (JStr (if h = TcpConnect then lit ''outbound'' else lit ''inbound'')) \<and>
    direction_str (en_event flow) =
      (if h = TcpConnect then ascii_and [0xE2, 0x86, 0x92] ''out'' else ascii_and [0xE2, 0x86, 0x90] ''in '') \<and>
    (jget (lit ''tls'') (flow_json flow) = Some JNull) = (ev_has_tls (en_event flow) = 0) \<and>
    (jget (lit ''http'') (flow_json flow) = Some JNull) = (ev_has_http (en_event flow) = 0)"
proof -
  obtain st1 where st1: "flow_table s1 key = Some st1" "st_direction st1 = FlowDirection_u8 d"
    by (rule row_opened_direction [OF assms(1-4)])
  from direction.kept_along [OF assms(5,6) st1]
  obtain st where st: "flow_table s2 key = Some st" "st_direction st = FlowDirection_u8 d" by blast
  have e: "en_event flow = fill_event key st (kc_ktime k 0) e0"
    using close_emits [OF assms(8) st(1) assms(9,10)] assms(11) by simp
  have d: "d = (if h = TcpConnect then Outbound else Inbound)" using opens_by_init(2,3) [OF assms(2,4)] by auto
  have fl: "st_has_tls st = 0 \<or> st_has_tls st = 1" "st_has_http st = 0 \<or> st_has_http st = 1"
    using flags.reach_row [OF reach_any [OF assms(7)] st(1)] by (auto simp: flags_ok_def)
  have "jget (lit ''protocol'') (flow_json flow) = Some (JStr (lit ''TCP''))"
    by (simp add: flow_json_def Let_def lit_def e sock_key_protocol [OF assms(8)])
  moreover have "jget (lit ''close_reason'') (flow_json flow) = Some (JStr (lit ''local_close''))"
    by (simp add: flow_json_def Let_def lit_def close_reason_def e)
  moreover have "jget (lit ''direction'') (flow_json flow) =
      Some (JStr (if h = TcpConnect then lit ''outbound'' else lit ''inbound''))"
    by (simp add: flow_json_def Let_def lit_def e st(2) d)
  moreover have "jget (lit ''tls'') (flow_json flow) = Some (tls_json (en_event flow))"
    "jget (lit ''http'') (flow_json flow) = Some (http_json (en_event flow))"
    by (simp_all add: flow_json_def Let_def lit_def)
  ultimately show ?thesis
    using fl by (auto simp: direction_str_def tls_json_def http_json_def e st(2) d)
qed

text \<open>
  C15. Progress: the close of a tracked connection with room in the ring buffer leads to a line
  on the console. In any run, once the event loop has drained the log the output contains the
  report of this event, provided it passes the filter and no report panics.
\<close>

theorem closed_flow_printed:
  assumes "reach Q t s" and "kern_ok k" and "Q k" and "clock_between t k t'"
    and "sock_key k p = Some key" and "flow_table s key = Some st" and "kc_ring_reserve k = Some e0"
    and "run_hook TcpClose k p s = Some (r, s')"
    and "concat batches = ring_items (hosts @ [h]) pad (flow_events s')" and "length hosts = length (flow_events s)"
    and "matches f (fill_event key st (kc_ktime k 0) e0)"
    and "list_all snd (reports render fmt f (concat batches))"
  shows "\<exists>before. event_loop render fmt f (map Timer batches @ CtrlC # ws) loop_init =
    (Stopped, \<lparr>ls_count = of_nat (Suc (length (flow_events s))),
       ls_out = before @ fst (report h render fmt (fill_event key st (kc_ktime k 0) e0))\<rparr>)"
proof -
  note log = close_emits [OF assms(5-8)]
  have reach: "reach Q t' s'" by (rule reach.invoke [OF assms(1-4,8)])
  have wf: "list_all wf_event (flow_events s')" using kernel_event(1) [OF reach] by (simp add: list_all_iff)
  obtain n where run: "event_loop render fmt f (map Timer batches @ CtrlC # ws) loop_init =
      (Stopped, advanced loop_init (reports render fmt f (concat batches)) n)"
    and n: "n = ls_count loop_init + of_nat (length (received (concat batches)))"
    using event_loop_spec [of render fmt f batches ws loop_init] assms(12) by auto
  have count: "length (received (concat batches)) = Suc (length (flow_events s))"
    unfolding assms(9) received_ring_items [OF wf] by (simp add: log assms(10))
  obtain rs where "reports render fmt f (concat batches) =
      rs @ [report h render fmt (fill_event key st (kc_ktime k 0) e0)]"
    unfolding assms(9) reports_ring_items [OF reach] by (simp add: log assms(10,11))
  then show ?thesis
    using through_failure_all [OF assms(12)] unfolding run n count by (simp add: advanced_def loop_init_def)
qed

subsection \<open>An HTTP request as the console shows it\<close>

lemma zeroed_row:
  assumes "reach Q t s" and "flow_table s key = Some st" and "st_has_http st = 0"
  shows "wf_state st \<and> st_http_host st = replicate HOST_LEN 0 \<and>
    st_http_method st = replicate 8 0 \<and> st_http_path st = replicate PATH_LEN 0"
  using flags.reach_row [OF reach_any [OF assms(1)] assms(2)] assms(3)
  by (auto simp: flags_ok_def buffers_ok_def)

lemma request_lengths:
  assumes "request_ok m path headers host rest"
  shows "length m < 8 \<and> length path < PATH_LEN \<and> length host < HOST_LEN"
  using assms by (auto simp: request_ok_def enc_request_def Let_def len_defs)


subsection \<open>Concrete connections\<close>

lemma demo_pending_reach: "reach any_kernel 120 (demo_pending msg)"
proof -
  let ?k = "demo_kernel 7 120 (demo_sock 6) []"
  let ?p = "demo_probe\<lparr>arg2_u32 := Some (of_nat (length msg))\<rparr>"
  have "reach any_kernel 120 (snd (ssl_write_entry ?k ?p demo_mid))"
    using reach_snd [OF demo_mid_reach, of ?k 120 SslWriteEntry ?p] by (simp add: demo_simps)
  from reach_snd [OF this, of ?k 120 SslReadEntry ?p] show ?thesis
    by (simp add: demo_pending_def demo_simps Let_def)
qed

lemma bare_json_ok:
  assumes "ev_cgroup e = replicate CGROUP_LEN 0"
  shows "snd (report bare_host render (lit ''json'') e)"
proof -
  have "buf_str 0 [] (replicate CGROUP_LEN 0) = []"
    by (simp add: buf_str_def from_utf8_def utf8_valid.simps CGROUP_LEN_def numeral_eq_Suc)
  moreover have "parse_k8s_cgroup [] = Some (None, None, None)"
    by (simp add: parse_k8s_cgroup_def str_lines_def)
  ultimately show ?thesis
    by (simp add: report_def enrich_def resolve_cgroup_def assms read_to_string_def bare_host_def
        Let_def split: prod.split)
qed

theorem closed_flow_printed_witness:
  "\<exists>r s' before. run_hook TcpClose (demo_kernel 7 300 (demo_sock 6) []) demo_probe demo_mid = Some (r, s') \<and>
     event_loop (\<lambda>_. [0x7B, 0x7D]) (lit ''json'') (event_filter default_args)
       (map Timer [ring_items ([] @ [bare_host]) (\<lambda>_ _. 0) (flow_events s')] @ CtrlC # []) loop_init =
     (Stopped, \<lparr>ls_count = of_nat (Suc (length (flow_events demo_mid))), ls_out = before @
        fst (report bare_host (\<lambda>_. [0x7B, 0x7D]) (lit ''json'')
          (fill_event (demo_key 6) (the (flow_table demo_mid (demo_key 6))) 300 zeroed_FlowEvent))\<rparr>)"
proof -
  let ?k = "demo_kernel 7 300 (demo_sock 6) []"
  obtain r s' where run: "run_hook TcpClose ?k demo_probe demo_mid = Some (r, s')"
    by (cases "tcp_close ?k demo_probe demo_mid") simp
  obtain st where st: "flow_table demo_mid (demo_key 6) = Some st" by (simp add: demo_mid_eq)
  have empty: "flow_events demo_mid = []"
    by (simp add: demo_mid_def demo_call_def play_step tcp_connect_def handle_tcp_connect_def
      init_flow_row_def demo_fields demo_sock_key init_sys_def Let_def del: play.simps(2))
  have buf: "buffers_ok st" by (rule buffers.reach_row [OF demo_mid_reach st])
  have match: "matches (event_filter default_args) e" for e
    by (simp add: matches_def event_filter_def port_filter_def parse_list_def default_args_def)
  have ok: "list_all snd (reports (\<lambda>_. [0x7B, 0x7D]) (lit ''json'') (event_filter default_args)
      (concat [ring_items ([] @ [bare_host]) (\<lambda>_ _. 0) (flow_events s')]))"
  proof -
    have s': "flow_events s' = [fill_event (demo_key 6) st 300 zeroed_FlowEvent]"
      using close_emits [OF demo_keys(1) st _ run] by (simp add: empty demo_kernel_ktime)
    have wf: "list_all wf_event (flow_events s')"
      using buf by (simp add: s' wf_event_def buffers_ok_def wf_state_def)
    show ?thesis
      using buf received_ring_items [OF wf, of "[bare_host]" "\<lambda>_ _. 0"]
      by (simp add: reports_def s' match bare_json_ok buffers_ok_def)
  qed
  have clock: "clock_between 100 ?k 300" by (simp add: demo_kernel_clock)
  have "\<exists>before. event_loop (\<lambda>_. [0x7B, 0x7D]) (lit ''json'') (event_filter default_args)
       (map Timer [ring_items ([] @ [bare_host]) (\<lambda>_ _. 0) (flow_events s')] @ CtrlC # []) loop_init =
     (Stopped, \<lparr>ls_count = of_nat (Suc (length (flow_events demo_mid))), ls_out = before @
        fst (report bare_host (\<lambda>_. [0x7B, 0x7D]) (lit ''json'')
          (fill_event (demo_key 6) st (kc_ktime ?k 0) zeroed_FlowEvent))\<rparr>)"
    by (rule closed_flow_printed [OF demo_mid_reach demo_kernel_ok _ clock demo_keys(1) st _ run _ _ match ok])
      (simp_all add: any_kernel_def empty)
  with run st show ?thesis by (simp only: demo_kernel_ktime option.sel) blast
qed

lemma demo_play_send:
  obtains s' where "play [demo_call TcpSendmsg t 6 []] s = Some s'"
  by (cases "play [demo_call TcpSendmsg t 6 []] s") (auto simp: demo_call_def split: prod.splits)

theorem kernel_event_json_witness:
  "\<exists>s2 r s3. play [demo_call TcpSendmsg 250 6 []] demo_mid = Some s2 \<and>
     run_hook TcpClose (demo_kernel 7 300 (demo_sock 6) []) demo_probe s2 = Some (r, s3) \<and>
     jget (lit ''direction'') (flow_json (demo_flow\<lparr>en_event := last (flow_events s3)\<rparr>)) =
       Some (JStr (lit ''outbound''))"
proof -
  let ?k = "demo_kernel 7 100 (demo_sock 6) []" and ?k' = "demo_kernel 7 300 (demo_sock 6) []"
  have o: "opens_under TcpConnect ?k demo_probe = Some (demo_key 6, Outbound)"
    by (simp add: opens_under_def demo_keys)
  have ins: "op_insert (kc_flow ?k) (flow_table (init_sys 1)) (demo_key 6) EMPTY_FLOW_STATE =
      Inr ((flow_table (init_sys 1))(demo_key 6 \<mapsto> EMPTY_FLOW_STATE))" by simp
  obtain r0 where open_run: "run_hook TcpConnect ?k demo_probe (init_sys 1) = Some (r0, demo_mid)"
    by (cases "tcp_connect ?k demo_probe (init_sys 1)")
      (simp add: demo_mid_def demo_call_def play_step del: play.simps(2))
  obtain st where st: "flow_table demo_mid (demo_key 6) = Some st" by (simp add: demo_mid_eq)
  obtain s2 where run: "play [demo_call TcpSendmsg 250 6 []] demo_mid = Some s2" by (rule demo_play_send)
  have reach: "reach any_kernel 250 s2"
    using play_reach [OF demo_mid_reach _ run] by (simp add: demo_call_def demo_simps)
  obtain r s3 where close: "run_hook TcpClose ?k' demo_probe s2 = Some (r, s3)"
    by (cases "tcp_close ?k' demo_probe s2") simp
  from kernel_event_json [OF demo_kernel_ok o ins open_run demo_calls_leave(3) [OF st] run reach demo_keys(1) _ close,
      of zeroed_FlowEvent "demo_flow\<lparr>en_event := last (flow_events s3)\<rparr>"] run close
  show ?thesis by simp
qed


end
